(* ===== verification/Prelude.thy ===== *)
theory Prelude
  imports Main "HOL-Library.Word" "HOL-Library.AList"
begin

text \<open>
  Shared vocabulary of the development: the machine types the C++ code uses, the
  \<open>errno\<close> values it names (Linux numbering), the outcome of a system call, and the
  generic facts on association lists, list prefixes and words that the component theories
  share. \<open>std::unordered_map\<close> is an association list with distinct keys wherever the
  code iterates over it (the order of the list stands for the unspecified iteration order)
  and a partial function wherever the code only looks keys up.
\<close>

named_theorems routing \<open>defining equations of the router operations\<close>
named_theorems inv_intros \<open>invariant preservation facts\<close>

subsection \<open>Machine types\<close>

type_synonym u8 = "8 word"
type_synonym u16 = "16 word"
type_synonym u32 = "32 word"
type_synonym u64 = "64 word"
type_synonym bytes = "u8 list"

subsection \<open>errno\<close>

abbreviation EINTR :: int where "EINTR \<equiv> 4"
abbreviation EAGAIN :: int where "EAGAIN \<equiv> 11"
abbreviation EWOULDBLOCK :: int where "EWOULDBLOCK \<equiv> 11"
abbreviation ENOMEM :: int where "ENOMEM \<equiv> 12"
abbreviation EBUSY :: int where "EBUSY \<equiv> 16"
abbreviation EEXIST :: int where "EEXIST \<equiv> 17"
abbreviation EINVAL :: int where "EINVAL \<equiv> 22"
abbreviation EPROTO :: int where "EPROTO \<equiv> 71"
abbreviation ENETDOWN :: int where "ENETDOWN \<equiv> 100"
abbreviation ENETUNREACH :: int where "ENETUNREACH \<equiv> 101"
abbreviation ECONNABORTED :: int where "ECONNABORTED \<equiv> 103"
abbreviation ECONNRESET :: int where "ECONNRESET \<equiv> 104"
abbreviation ENOTCONN :: int where "ENOTCONN \<equiv> 107"
abbreviation ESHUTDOWN :: int where "ESHUTDOWN \<equiv> 108"
abbreviation ETIMEDOUT :: int where "ETIMEDOUT \<equiv> 110"
abbreviation EHOSTDOWN :: int where "EHOSTDOWN \<equiv> 112"
abbreviation EHOSTUNREACH :: int where "EHOSTUNREACH \<equiv> 113"
abbreviation EINPROGRESS :: int where "EINPROGRESS \<equiv> 115"
abbreviation ECANCELED :: int where "ECANCELED \<equiv> 125"

subsection \<open>Association lists with distinct keys\<close>

abbreviation distinct_keys :: "('k \<times> 'v) list \<Rightarrow> bool" where
  "distinct_keys al \<equiv> distinct (map fst al)"

lemma map_of_update [simp]: "map_of (AList.update k v al) = (map_of al)(k \<mapsto> v)"
  by (rule AList.update_conv')

lemma map_of_delete_upd [simp]: "map_of (AList.delete k al) = (map_of al)(k := None)"
  by (rule AList.delete_conv')

lemma distinct_keys_update [simp, intro]: "distinct_keys al \<Longrightarrow> distinct_keys (AList.update k v al)"
  by (rule AList.distinct_update)

lemma distinct_keys_delete [simp, intro]: "distinct_keys al \<Longrightarrow> distinct_keys (AList.delete k al)"
  by (rule AList.distinct_delete)

lemma map_of_in_keys: "map_of al k = Some v \<Longrightarrow> k \<in> fst ` set al"
  by (metis map_of_eq_None_iff option.distinct(1))

lemma set_delete_iff: "(a, b) \<in> set (AList.delete k al) \<longleftrightarrow> (a, b) \<in> set al \<and> a \<noteq> k"
  by (induction al) auto

lemma keys_delete: "fst ` set (AList.delete k al) = fst ` set al - {k}"
  by (induction al) auto

subsection \<open>Prefixes\<close>

definition starts_with :: "'a list \<Rightarrow> 'a list \<Rightarrow> bool" where
  "starts_with p s \<longleftrightarrow> take (length p) s = p"

lemma starts_with_append [simp]: "starts_with p (p @ s)"
  by (simp add: starts_with_def)

lemma starts_with_split: "starts_with p s \<Longrightarrow> s = p @ drop (length p) s"
  unfolding starts_with_def by (metis append_take_drop_id)

lemma starts_with_Nil [simp]: "starts_with [] s"
  by (simp add: starts_with_def)

lemma starts_with_Cons [simp]:
  "starts_with (x # p) (y # s) \<longleftrightarrow> x = y \<and> starts_with p s"
  by (auto simp: starts_with_def)

lemma starts_with_Cons_Nil [simp]: "\<not> starts_with (x # p) []"
  by (simp add: starts_with_def)

subsection \<open>Words\<close>

lemma unat_of_nat_u64: "n < 2 ^ 64 \<Longrightarrow> unat (of_nat n :: u64) = n"
  by (simp add: unat_of_nat take_bit_nat_eq_self)

lemma unat_of_nat_u32: "n < 2 ^ 32 \<Longrightarrow> unat (of_nat n :: u32) = n"
  by (simp add: unat_of_nat take_bit_nat_eq_self)

lemma unat_of_nat_u16: "n < 2 ^ 16 \<Longrightarrow> unat (of_nat n :: u16) = n"
  by (simp add: unat_of_nat take_bit_nat_eq_self)

lemma unat_u16_bound: "unat (p :: u16) \<le> 65535"
  using unsigned_less [of p, where ?'a = nat] by simp

subsection \<open>Little-endian integers\<close>

fun le_bytes :: "nat \<Rightarrow> nat \<Rightarrow> bytes" where
  "le_bytes 0 n = []"
| "le_bytes (Suc k) n = of_nat n # le_bytes k (n div 256)"

fun le_nat :: "bytes \<Rightarrow> nat" where
  "le_nat [] = 0"
| "le_nat (b # bs) = unat b + 256 * le_nat bs"

lemma length_le_bytes [simp]: "length (le_bytes k n) = k"
  by (induction k n rule: le_bytes.induct) simp_all

lemma le_nat_le_bytes: "le_nat (le_bytes k n) = n mod 256 ^ k"
proof (induction k n rule: le_bytes.induct)
  case (2 k n)
  have "unat (of_nat n :: u8) = n mod 256" by (simp add: unat_of_nat take_bit_eq_mod)
  with 2 show ?case by (simp add: mod_mult2_eq)
qed simp

lemma le_nat_bound: "le_nat bs < 256 ^ length bs"
proof (induction bs)
  case (Cons b bs)
  have "unat b < 256" using unsigned_less [of b, where ?'a = nat] by simp
  with Cons show ?case by simp
qed simp

lemma le_nat_u64: "le_nat (le_bytes 8 (unat (x :: u64))) = unat x"
  using unsigned_less [of x, where ?'a = nat] by (simp add: le_nat_le_bytes)

lemma le_nat_u32: "le_nat (le_bytes 4 (unat (x :: u32))) = unat x"
  using unsigned_less [of x, where ?'a = nat] by (simp add: le_nat_le_bytes)

end
