(* ===== verification/Posix_Utils.thy ===== *)
theory Posix_Utils
  imports Prelude
begin

text \<open>
  System calls and \<open>platform::posixSyscallError\<close> (include/ocvsmd/platform/posix_utils.hpp).
  A call is a function of the kernel's state, which is a type parameter: it returns a value or
  fails with an \<open>errno\<close>, and leaves a new kernel state. The retry loop may run for ever
  against a kernel that interrupts every call, so it is a partial function into \<open>option\<close>.
\<close>

subsection \<open>Outcome of a system call\<close>

datatype 'a sysret = Ret 'a | Err int

type_synonym ('k, 'a) syscall = "'k \<Rightarrow> 'a sysret \<times> 'k"

text \<open>\<open>call() < 0\<close> is \<open>Err\<close>; the value a lambda stores in a captured variable is \<open>Ret\<close>'s.\<close>

definition sysret_error :: "'a sysret \<Rightarrow> int" where
  "sysret_error r = (case r of Ret _ \<Rightarrow> 0 | Err e \<Rightarrow> e)"

lemma sysret_error_simps [simp]: "sysret_error (Ret a) = 0" "sysret_error (Err e) = e"
  by (simp_all add: sysret_error_def)

subsection \<open>The retry loop\<close>

partial_function (option) posixSyscall :: "('k, 'a) syscall \<Rightarrow> 'k \<Rightarrow> ('a sysret \<times> 'k) option" where
  "posixSyscall call k =
     (case call k of
        (Ret a, k') \<Rightarrow> Some (Ret a, k')
      | (Err e, k') \<Rightarrow> (if e \<noteq> EINTR then Some (Err e, k') else posixSyscall call k'))"

definition posixSyscallError :: "('k, 'a) syscall \<Rightarrow> 'k \<Rightarrow> (int \<times> 'k) option" where
  "posixSyscallError call k = map_option (\<lambda>(r, k'). (sysret_error r, k')) (posixSyscall call k)"

lemma posixSyscall_Ret: "call k = (Ret a, k') \<Longrightarrow> posixSyscall call k = Some (Ret a, k')"
  by (simp add: posixSyscall.simps)

lemma posixSyscall_Err: "call k = (Err e, k') \<Longrightarrow> e \<noteq> EINTR \<Longrightarrow> posixSyscall call k = Some (Err e, k')"
  by (simp add: posixSyscall.simps)

lemma posixSyscall_retry: "call k = (Err EINTR, k') \<Longrightarrow> posixSyscall call k = posixSyscall call k'"
  by (subst posixSyscall.simps) simp

lemmas posixSyscall_rules = posixSyscall_Ret posixSyscall_Err posixSyscall_retry

lemma posixSyscall_now: "fst (call k) \<noteq> Err EINTR \<Longrightarrow> posixSyscall call k = Some (call k)"
  by (cases "call k"; cases "fst (call k)") (auto simp: posixSyscall_rules)

text \<open>\<open>interrupted call n k\<close>: exactly the first \<open>n\<close> calls from \<open>k\<close> are interrupted.\<close>

fun interrupted :: "('k, 'a) syscall \<Rightarrow> nat \<Rightarrow> 'k \<Rightarrow> bool" where
  "interrupted call 0 k \<longleftrightarrow> fst (call k) \<noteq> Err EINTR"
| "interrupted call (Suc n) k \<longleftrightarrow> fst (call k) = Err EINTR \<and> interrupted call n (snd (call k))"

fun kernel_after :: "('k, 'a) syscall \<Rightarrow> nat \<Rightarrow> 'k \<Rightarrow> 'k" where
  "kernel_after call 0 k = k"
| "kernel_after call (Suc n) k = kernel_after call n (snd (call k))"

lemma posixSyscall_interrupted:
  "interrupted call n k \<Longrightarrow> posixSyscall call k = Some (call (kernel_after call n k))"
proof (induction n arbitrary: k)
  case 0
  then show ?case
    by (cases "call k"; cases "fst (call k)") (auto simp: posixSyscall_rules)
next
  case (Suc n)
  then obtain k' where "call k = (Err EINTR, k')"
    by (cases "call k") auto
  with Suc show ?case by (simp add: posixSyscall_retry)
qed

lemma posixSyscall_some_interrupted:
  assumes "posixSyscall call k = Some x"
  shows "\<exists>n. interrupted call n k"
proof (rule posixSyscall.raw_induct [where P = "\<lambda>call k x. \<exists>n. interrupted call n k", OF _ assms])
  fix f call k x
  assume IH: "\<And>call k x. f call k = Some x \<Longrightarrow> \<exists>n. interrupted call n k"
    and eq: "(case call k of (Ret a, k') \<Rightarrow> Some (Ret a, k')
        | (Err e, k') \<Rightarrow> if e \<noteq> EINTR then Some (Err e, k') else f call k') = Some x"
  show "\<exists>n. interrupted call n k"
  proof (cases "fst (call k) = Err EINTR")
    case True
    with eq have "f call (snd (call k)) = Some x"
      by (auto split: prod.splits)
    then obtain n where "interrupted call n (snd (call k))"
      using IH by blast
    with True show ?thesis by (intro exI [of _ "Suc n"]) simp
  next
    case False
    then show ?thesis by (intro exI [of _ 0]) simp
  qed
qed

text \<open>
  C38. The retry loop returns exactly when the kernel stops interrupting it after finitely many
  calls; it then returns the first uninterrupted outcome, so \<open>EINTR\<close> never escapes.
\<close>

theorem posixSyscallError_returns_iff:
  "(\<exists>e k'. posixSyscallError call k = Some (e, k')) = (\<exists>n. interrupted call n k)"
  by (metis (no_types, lifting) posixSyscallError_def not_None_eq option.map_disc_iff
      posixSyscall_interrupted posixSyscall_some_interrupted surj_pair option.distinct(1))

lemma posixSyscall_not_EINTR: "posixSyscall call k = Some (r, k') \<Longrightarrow> r \<noteq> Err EINTR"
proof -
  assume r: "posixSyscall call k = Some (r, k')"
  then obtain n where n: "interrupted call n k"
    using posixSyscall_some_interrupted [OF r] by blast
  have "fst (call (kernel_after call n k)) \<noteq> Err EINTR"
    using n by (induction n arbitrary: k) auto
  with r posixSyscall_interrupted [OF n] show ?thesis by auto
qed

end
