(* ===== verification/Socket_Address.thy ===== *)
theory Socket_Address
  imports Prelude "HOL-Library.Char_ord"
begin

unbundle bit_operations_syntax

text \<open>
  Connection strings and socket addresses: the parsing and printing half of
  src/common/io/socket_address.cpp. A \<open>sockaddr_storage\<close> is the variant its family selects,
  with ports in network byte order and \<open>sun_path\<close> as the whole array. \<open>inet_pton\<close>,
  \<open>inet_ntop\<close> and the formatting library are arguments; \<open>strtoull\<close> is written out.
\<close>

subsection \<open>Addresses\<close>

definition AF_UNSPEC :: int where [simp]: "AF_UNSPEC = 0"
definition AF_UNIX :: int where [simp]: "AF_UNIX = 1"
definition AF_INET :: int where [simp]: "AF_INET = 2"
definition AF_INET6 :: int where [simp]: "AF_INET6 = 10"

datatype sockaddr =
    Sockaddr_None
  | Sockaddr_In u16 bytes
  | Sockaddr_In6 u16 bytes
  | Sockaddr_Un string

fun sa_family :: "sockaddr \<Rightarrow> int" where
  "sa_family Sockaddr_None = AF_UNSPEC"
| "sa_family (Sockaddr_In port addr) = AF_INET"
| "sa_family (Sockaddr_In6 port addr) = AF_INET6"
| "sa_family (Sockaddr_Un path) = AF_UNIX"

record socket_address =
  is_wildcard :: bool
  addr_len :: nat
  addr_storage :: sockaddr

text \<open>Sizes of the C structures (Linux).\<close>

abbreviation sizeof_sockaddr_in :: nat where "sizeof_sockaddr_in \<equiv> 16"
abbreviation sizeof_sockaddr_in6 :: nat where "sizeof_sockaddr_in6 \<equiv> 28"
abbreviation sizeof_sun_path :: nat where "sizeof_sun_path \<equiv> 108"
abbreviation offsetof_sun_path :: nat where "offsetof_sun_path \<equiv> 2"
abbreviation sizeof_storage :: nat where "sizeof_storage \<equiv> 128"

abbreviation NUL :: char where "NUL \<equiv> CHR 0x00"

definition htons :: "u16 \<Rightarrow> u16" where
  "htons p = push_bit 8 p OR drop_bit 8 p"

definition ntohs :: "u16 \<Rightarrow> u16" where
  "ntohs = htons"

lemma ntohs_htons [simp]: "ntohs (htons p) = p"
  unfolding ntohs_def htons_def
  by (rule bit_word_eqI) (auto simp: bit_simps)

definition socket_address_default :: socket_address where
  "socket_address_default = \<lparr>is_wildcard = False, addr_len = 0, addr_storage = Sockaddr_None\<rparr>"

definition isUnix :: "socket_address \<Rightarrow> bool" where
  "isUnix a \<longleftrightarrow> sa_family (addr_storage a) = AF_UNIX"

definition isAnyInet :: "socket_address \<Rightarrow> bool" where
  "isAnyInet a \<longleftrightarrow> sa_family (addr_storage a) = AF_INET \<or> sa_family (addr_storage a) = AF_INET6"

definition getPort :: "socket_address \<Rightarrow> u16" where
  "getPort a = (case addr_storage a of
     Sockaddr_In port _ \<Rightarrow> ntohs port | Sockaddr_In6 port _ \<Rightarrow> ntohs port | _ \<Rightarrow> 0)"

subsection \<open>Printing\<close>

text \<open>\<open>inet_ntop\<close> by family, and the \<open>{}\<close> of the formatting library for integers.\<close>

record printer =
  inet_ntop :: "int \<Rightarrow> bytes \<Rightarrow> string option"
  fmt_int :: "int \<Rightarrow> string"

definition getUnixPrefixAndPath :: "socket_address \<Rightarrow> string \<times> string" where
  "getUnixPrefixAndPath a =
     (let path_len = addr_len a - offsetof_sun_path;
          sun_path = (case addr_storage a of Sockaddr_Un p \<Rightarrow> p | _ \<Rightarrow> [])
      in if path_len \<noteq> 0
         then (if sun_path ! 0 = NUL then (''unix-abstract:'', take (path_len - 1) (drop 1 sun_path))
               else (''unix:'', take path_len sun_path))
         else (''unix:'', ''''))"

definition unknown_family :: "printer \<Rightarrow> socket_address \<Rightarrow> string" where
  "unknown_family P a = ''<unknown>(family='' @ fmt_int P (sa_family (addr_storage a)) @ '')''"

definition toString :: "printer \<Rightarrow> socket_address \<Rightarrow> string" where
  "toString P a =
     (if is_wildcard a then ''*:'' @ fmt_int P (uint (getPort a))
      else (case addr_storage a of
          Sockaddr_In port addr \<Rightarrow>
            (case inet_ntop P AF_INET addr of
               Some s \<Rightarrow> s @ '':'' @ fmt_int P (uint (getPort a)) | None \<Rightarrow> unknown_family P a)
        | Sockaddr_In6 port addr \<Rightarrow>
            (case inet_ntop P AF_INET6 addr of
               Some s \<Rightarrow> ''['' @ s @ '']:'' @ fmt_int P (uint (getPort a)) | None \<Rightarrow> unknown_family P a)
        | Sockaddr_Un path \<Rightarrow> (let (prefix, p) = getUnixPrefixAndPath a in prefix @ p)
        | Sockaddr_None \<Rightarrow> unknown_family P a))"

subsection \<open>C strings and numbers\<close>

text \<open>\<open>c_str()\<close> as a C function reads it: up to the first null character.\<close>

definition c_str :: "string \<Rightarrow> string" where
  "c_str s = takeWhile (\<lambda>c. c \<noteq> NUL) s"

definition strncpy :: "nat \<Rightarrow> string \<Rightarrow> string" where
  "strncpy n s = take n (c_str s @ replicate n NUL)"

definition is_space :: "char \<Rightarrow> bool" where
  "is_space c \<longleftrightarrow> (of_char c :: int) \<in> {9, 10, 11, 12, 13, 32}"

definition digit_value :: "char \<Rightarrow> int" where
  "digit_value c = (let n = of_char c :: int in
     if 48 \<le> n \<and> n \<le> 57 then n - 48
     else if 97 \<le> n \<and> n \<le> 122 then n - 87
     else if 65 \<le> n \<and> n \<le> 90 then n - 55 else 255)"

definition is_digit :: "int \<Rightarrow> char \<Rightarrow> bool" where
  "is_digit base c \<longleftrightarrow> digit_value c < base"

definition digits_value :: "int \<Rightarrow> string \<Rightarrow> int" where
  "digits_value base = foldl (\<lambda>a c. a * base + digit_value c) 0"

text \<open>
  \<open>strtoull(s, \<dots>, 0)\<close>: white space, a sign, a base prefix, digits. It returns the value and the
  rest of the string; an overflow gives the largest value, a minus sign negates modulo 2^64.
\<close>

definition strtoull_sign :: "string \<Rightarrow> bool \<times> string" where
  "strtoull_sign s = (case s of
     [] \<Rightarrow> (False, [])
   | c # r \<Rightarrow> (if c = CHR ''-'' then (True, r) else if c = CHR ''+'' then (False, r) else (False, s)))"

definition strtoull_base :: "string \<Rightarrow> int \<times> string" where
  "strtoull_base s =
     (if length s \<ge> 3 \<and> s ! 0 = CHR ''0'' \<and> (s ! 1 = CHR ''x'' \<or> s ! 1 = CHR ''X'') \<and> is_digit 16 (s ! 2)
      then (16, drop 2 s)
      else if s \<noteq> [] \<and> s ! 0 = CHR ''0'' then (8, s) else (10, s))"

definition strtoull :: "string \<Rightarrow> u64 \<times> string" where
  "strtoull s =
     (let (neg, s1) = strtoull_sign (dropWhile is_space s);
          (base, s2) = strtoull_base s1;
          ds = takeWhile (is_digit base) s2;
          v = digits_value base ds
      in if ds = [] then (0, s)
         else (if 2 ^ 64 \<le> v then - 1 else if neg then - of_int v else of_int v,
               dropWhile (is_digit base) s2))"

subsection \<open>Parsing\<close>

text \<open>The outcome of \<open>inet_pton\<close>: 1 with the address, 0, or -1 with \<open>errno\<close>.\<close>

datatype pton_result = PtonOk bytes | PtonInvalid | PtonError int

type_synonym inet_pton = "int \<Rightarrow> string \<Rightarrow> pton_result"

text \<open>A failure carries its \<open>errno\<close>.\<close>

type_synonym parse_result = "int + socket_address"

definition tryParseAsUnixDomain :: "string \<Rightarrow> parse_result option" where
  "tryParseAsUnixDomain conn_str =
     (if \<not> starts_with ''unix:'' conn_str then None
      else (let path = drop 5 conn_str
            in Some (if length path + 1 > sizeof_sun_path then Inl EINVAL
                     else Inr \<lparr>is_wildcard = False, addr_len = offsetof_sun_path + length path + 1,
                               addr_storage = Sockaddr_Un (strncpy sizeof_sun_path path)\<rparr>)))"

definition tryParseAsAbstractUnixDomain :: "string \<Rightarrow> parse_result option" where
  "tryParseAsAbstractUnixDomain conn_str =
     (if \<not> starts_with ''unix-abstract:'' conn_str then None
      else (let path = drop 14 conn_str
            in Some (if length path + 1 > sizeof_sun_path - 1 then Inl EINVAL
                     else Inr \<lparr>is_wildcard = False, addr_len = offsetof_sun_path + length path + 1,
                               addr_storage = Sockaddr_Un (take sizeof_sun_path
                                 ([NUL] @ path @ [NUL] @ replicate sizeof_sun_path NUL))\<rparr>)))"

definition find_first_of :: "char \<Rightarrow> nat \<Rightarrow> string \<Rightarrow> nat option" where
  "find_first_of c k s = List.find (\<lambda>i. s ! i = c) [k ..< length s]"

definition find_last_of :: "char \<Rightarrow> string \<Rightarrow> nat option" where
  "find_last_of c s = List.find (\<lambda>i. s ! i = c) (rev [0 ..< length s])"

definition parse_port :: "string \<Rightarrow> u16 \<Rightarrow> u16 option" where
  "parse_port port_part port =
     (if port_part = [] then Some port
      else (let (maybe_port, end_ptr) = strtoull (c_str port_part)
            in if end_ptr \<noteq> [] then None
               else if maybe_port > 65535 then None
               else Some (ucast maybe_port)))"

text \<open>The family, the host and the port part; \<open>None\<close> is \<open>AF_UNSPEC\<close>.\<close>

definition split_address :: "string \<Rightarrow> (int \<times> string \<times> string) option" where
  "split_address str =
     (if str \<noteq> [] \<and> str ! 0 = CHR ''[''
      then (case find_last_of (CHR '']'') str of
              None \<Rightarrow> None
            | Some pos \<Rightarrow>
                (let host = take (pos - 1) (drop 1 str)
                 in if length str > pos + 1
                    then (if str ! (pos + 1) \<noteq> CHR '':'' then None
                          else Some (AF_INET6, host, drop (pos + 2) str))
                    else Some (AF_INET6, host, [])))
      else (case find_first_of (CHR '':'') 0 str of
              None \<Rightarrow> Some (AF_INET, str, [])
            | Some pos \<Rightarrow>
                (if find_first_of (CHR '':'') (pos + 1) str \<noteq> None then Some (AF_INET6, str, [])
                 else Some (AF_INET, take pos str, drop (pos + 1) str))))"

definition extractFamilyHostAndPort :: "string \<Rightarrow> u16 \<Rightarrow> (int \<times> string \<times> u16) option" where
  "extractFamilyHostAndPort str port =
     (case split_address str of
        None \<Rightarrow> None
      | Some (family, host, port_part) \<Rightarrow>
          map_option (\<lambda>p. (family, host, p)) (parse_port port_part port))"

definition tryParseAsWildcard :: "string \<Rightarrow> u16 \<Rightarrow> socket_address option" where
  "tryParseAsWildcard host port =
     (if host \<noteq> ''*'' then None
      else Some \<lparr>is_wildcard = True, addr_len = sizeof_sockaddr_in6,
                 addr_storage = Sockaddr_In6 (htons port) (replicate 16 0)\<rparr>)"

definition tryParseAsTcpAddress :: "inet_pton \<Rightarrow> string \<Rightarrow> u16 \<Rightarrow> parse_result option" where
  "tryParseAsTcpAddress inet_pton conn_str port_hint =
     (if \<not> starts_with ''tcp://'' conn_str then None
      else Some (case extractFamilyHostAndPort (drop 6 conn_str) port_hint of
          None \<Rightarrow> Inl EINVAL
        | Some (family, host, port) \<Rightarrow>
            (case tryParseAsWildcard host port of
               Some result \<Rightarrow> Inr result
             | None \<Rightarrow>
                 (case inet_pton family (c_str host) of
                    PtonOk addr \<Rightarrow>
                      Inr (if family = AF_INET6
                           then \<lparr>is_wildcard = False, addr_len = sizeof_sockaddr_in6, addr_storage = Sockaddr_In6 (htons port) addr\<rparr>
                           else \<lparr>is_wildcard = False, addr_len = sizeof_sockaddr_in, addr_storage = Sockaddr_In (htons port) addr\<rparr>)
                  | PtonInvalid \<Rightarrow> Inl EINVAL
                  | PtonError err \<Rightarrow> Inl err))))"

definition parse :: "inet_pton \<Rightarrow> string \<Rightarrow> u16 \<Rightarrow> parse_result" where
  "parse inet_pton conn_str port_hint =
     (case tryParseAsUnixDomain conn_str of
        Some result \<Rightarrow> result
      | None \<Rightarrow>
          (case tryParseAsAbstractUnixDomain conn_str of
             Some result \<Rightarrow> result
           | None \<Rightarrow>
               (case tryParseAsTcpAddress inet_pton conn_str port_hint of
                  Some result \<Rightarrow> result
                | None \<Rightarrow> Inl EINVAL)))"

subsection \<open>Well-formed addresses\<close>

text \<open>The length fits the storage and covers the structure of the family.\<close>

definition wf_address :: "socket_address \<Rightarrow> bool" where
  "wf_address a \<longleftrightarrow> (case addr_storage a of
       Sockaddr_None \<Rightarrow> False
     | Sockaddr_In port addr \<Rightarrow> addr_len a = sizeof_sockaddr_in \<and> \<not> is_wildcard a
     | Sockaddr_In6 port addr \<Rightarrow> addr_len a = sizeof_sockaddr_in6
     | Sockaddr_Un path \<Rightarrow> length path = sizeof_sun_path \<and> \<not> is_wildcard a \<and>
         offsetof_sun_path < addr_len a \<and> addr_len a \<le> offsetof_sun_path + sizeof_sun_path \<and>
         (path ! 0 = NUL \<or> path ! (addr_len a - offsetof_sun_path - 1) = NUL))"

lemma length_c_str: "length (c_str s) \<le> length s"
  by (simp add: c_str_def length_takeWhile_le)

lemma c_str_id: "NUL \<notin> set s \<Longrightarrow> c_str s = s"
  by (induction s) (auto simp: c_str_def)

lemma length_strncpy [simp]: "length (strncpy n s) = n"
  by (simp add: strncpy_def)

lemma strncpy_nul: "length s < n \<Longrightarrow> k = length s \<Longrightarrow> strncpy n s ! k = NUL"
  using length_c_str [of s] by (simp add: strncpy_def nth_append)

lemma tryParseAsUnixDomain_wf: "tryParseAsUnixDomain s = Some (Inr a) \<Longrightarrow> wf_address a"
  by (auto simp: tryParseAsUnixDomain_def Let_def wf_address_def strncpy_nul split: if_splits)

lemma tryParseAsAbstractUnixDomain_wf: "tryParseAsAbstractUnixDomain s = Some (Inr a) \<Longrightarrow> wf_address a"
  by (auto simp: tryParseAsAbstractUnixDomain_def Let_def wf_address_def split: if_splits)

lemma tryParseAsTcpAddress_wf: "tryParseAsTcpAddress pton s h = Some (Inr a) \<Longrightarrow> wf_address a"
  by (auto simp: tryParseAsTcpAddress_def tryParseAsWildcard_def wf_address_def
      split: if_splits option.splits prod.splits pton_result.splits)

text \<open>
  C35. Every address parsing produces is well formed: its length is that of its family's structure,
  a Unix path fits \<open>sun_path\<close> and is terminated inside the length (or is an abstract name).
\<close>

theorem parse_well_formed: "parse pton s port_hint = Inr a \<Longrightarrow> wf_address a"
  by (auto simp: parse_def split: option.splits
      dest: tryParseAsUnixDomain_wf tryParseAsAbstractUnixDomain_wf tryParseAsTcpAddress_wf)

text \<open>
  Parsing is total in its errors: it fails with \<open>EINVAL\<close>, or with the \<open>errno\<close> that
  \<open>inet_pton\<close> reported; and a string with none of the three prefixes always fails.
\<close>

theorem parse_errors:
  "(parse pton s port_hint = Inl e \<longrightarrow> e = EINVAL \<or> (\<exists>family host. pton family host = PtonError e)) \<and>
   (\<not> starts_with ''unix:'' s \<and> \<not> starts_with ''unix-abstract:'' s \<and> \<not> starts_with ''tcp://'' s \<longrightarrow>
      parse pton s port_hint = Inl EINVAL)"
  by (auto simp: parse_def tryParseAsUnixDomain_def tryParseAsAbstractUnixDomain_def
      tryParseAsTcpAddress_def Let_def split: if_splits option.splits prod.splits pton_result.splits)

subsection \<open>Printing what was parsed\<close>

text \<open>
  C36. An abstract Unix name of up to 106 characters survives parsing and printing unchanged, null
  characters included; a longer one is refused.
\<close>

theorem abstract_unix_roundtrip:
  "parse pton (''unix-abstract:'' @ path) port_hint =
     (if length path \<le> 106
      then Inr \<lparr>is_wildcard = False, addr_len = 3 + length path,
                addr_storage = Sockaddr_Un (take 108 (NUL # path @ replicate 109 NUL))\<rparr>
      else Inl EINVAL) \<and>
   (length path \<le> 106 \<longrightarrow>
      toString P (projr (parse pton (''unix-abstract:'' @ path) port_hint)) = ''unix-abstract:'' @ path)"
proof -
  have p: "parse pton (''unix-abstract:'' @ path) port_hint =
     (if length path \<le> 106
      then Inr \<lparr>is_wildcard = False, addr_len = 3 + length path,
                addr_storage = Sockaddr_Un (take 108 (NUL # path @ replicate 109 NUL))\<rparr>
      else Inl EINVAL)"
    by (simp add: parse_def tryParseAsUnixDomain_def tryParseAsAbstractUnixDomain_def numeral_nat)
  then show ?thesis
    by (simp add: toString_def getUnixPrefixAndPath_def numeral_nat)
qed

text \<open>
  A Unix path does not survive: printing counts the terminating null, so the text of the
  address is one null character longer than what was parsed.
\<close>

theorem unix_path_prints_null:
  assumes "path \<noteq> []" and "NUL \<notin> set path" and "length path \<le> 107"
  shows "\<exists>a. parse pton (''unix:'' @ path) port_hint = Inr a \<and> toString P a = ''unix:'' @ path @ [NUL]"
proof -
  let ?a = "\<lparr>is_wildcard = False, addr_len = 3 + length path, addr_storage = Sockaddr_Un (strncpy 108 path)\<rparr>"
  have "parse pton (''unix:'' @ path) port_hint = Inr ?a"
    using assms(3) by (simp add: parse_def tryParseAsUnixDomain_def)
  moreover have "strncpy 108 path = path @ replicate (108 - length path) NUL"
    using assms(3) by (simp add: strncpy_def c_str_id [OF assms(2)] min_def)
  moreover have "take (Suc (length path)) (path @ replicate (108 - length path) NUL) = path @ [NUL]"
    using assms(3) by (simp add: take_Cons' Suc_diff_le)
  moreover have "(path @ replicate (108 - length path) NUL) ! 0 \<noteq> NUL"
    using assms(1,2) by (cases path) auto
  ultimately show ?thesis
    by (intro exI [of _ ?a]) (simp add: toString_def getUnixPrefixAndPath_def)
qed

subsection \<open>Ports\<close>

text \<open>A decimal number: digits only, the first of them not a zero (which would select octal).\<close>

definition decimal :: "string \<Rightarrow> bool" where
  "decimal ds \<longleftrightarrow> ds \<noteq> [] \<and> ds ! 0 \<noteq> CHR ''0'' \<and> (\<forall>c\<in>set ds. 48 \<le> (of_char c :: int) \<and> (of_char c :: int) \<le> 57)"

lemma find_first_of_None: "find_first_of c k s = None \<longleftrightarrow> c \<notin> set (drop k s)"
proof -
  have "c \<in> set (drop k s) \<longleftrightarrow> (\<exists>i<length s - k. s ! (k + i) = c)"
    by (auto simp: in_set_conv_nth)
  also have "\<dots> \<longleftrightarrow> (\<exists>i. k \<le> i \<and> i < length s \<and> s ! i = c)"
    by (metis add.commute le_add1 le_add_diff_inverse less_diff_conv)
  finally show ?thesis unfolding find_first_of_def find_None_iff by auto
qed

lemma find_first_of_append: "c \<notin> set h \<Longrightarrow> find_first_of c 0 (h @ c # r) = Some (length h)"
  unfolding find_first_of_def find_Some_iff
  by (intro exI [of _ "length h"]) (auto simp: nth_append)

lemma digits_value_nonneg: "\<forall>c\<in>set ds. 0 \<le> digit_value c \<Longrightarrow> 0 \<le> a \<Longrightarrow> 0 \<le> b \<Longrightarrow>
   0 \<le> foldl (\<lambda>a c. a * b + digit_value c) a ds"
  by (induction ds arbitrary: a) auto

lemma decimal_value_nonneg: "decimal ds \<Longrightarrow> 0 \<le> digits_value 10 ds"
  unfolding digits_value_def decimal_def by (intro digits_value_nonneg) (auto simp: digit_value_def)

lemma decimal_no_nul: "decimal ds \<Longrightarrow> NUL \<notin> set ds"
  by (auto simp: decimal_def)

lemma decimal_first: "decimal ds \<Longrightarrow> \<exists>c r. ds = c # r \<and> \<not> is_space c \<and> c \<noteq> CHR ''-'' \<and> c \<noteq> CHR ''+'' \<and> c \<noteq> CHR ''0''"
  by (cases ds) (auto simp: decimal_def is_space_def)

lemma decimal_digits: "decimal ds \<Longrightarrow> c \<in> set ds \<Longrightarrow> is_digit 10 c"
  by (auto simp: decimal_def is_digit_def digit_value_def)

lemma strtoull_decimal:
  assumes "decimal ds"
  shows "strtoull ds = (if 2 ^ 64 \<le> digits_value 10 ds then - 1 else of_int (digits_value 10 ds), [])"
proof -
  obtain c r where ds: "ds = c # r" "\<not> is_space c" "c \<noteq> CHR ''-''" "c \<noteq> CHR ''+''" "c \<noteq> CHR ''0''"
    using decimal_first [OF assms] by auto
  have "dropWhile is_space ds = ds" "strtoull_sign ds = (False, ds)" "strtoull_base ds = (10, ds)"
    using ds by (simp_all add: strtoull_sign_def strtoull_base_def)
  moreover have "takeWhile (is_digit 10) ds = ds" "dropWhile (is_digit 10) ds = []"
    using decimal_digits [OF assms] by auto
  ultimately show ?thesis using ds(1) by (simp add: strtoull_def)
qed

lemma parse_port_decimal:
  assumes "decimal ds"
  shows "parse_port ds port = (if 65535 < digits_value 10 ds then None else Some (of_int (digits_value 10 ds)))"
proof -
  let ?v = "digits_value 10 ds"
  have nn: "0 \<le> ?v" "ds \<noteq> []" "c_str ds = ds"
    using decimal_value_nonneg [OF assms] assms decimal_no_nul [OF assms] by (auto simp: decimal_def c_str_id)
  have w: "uint (of_int ?v :: u64) = ?v" if "?v < 2 ^ 64"
    using nn that by (simp add: uint_word_of_int take_bit_int_eq_self)
  show ?thesis
  proof (cases "2 ^ 64 \<le> ?v")
    case True
    then show ?thesis using nn by (simp add: parse_port_def strtoull_decimal [OF assms])
  next
    case False
    then have "(65535 < (of_int ?v :: u64)) = (65535 < ?v)" using w by (simp add: word_less_def)
    moreover have "(ucast (of_int ?v :: u64) :: u16) = of_int ?v"
      by (rule bit_word_eqI) (simp add: bit_simps) 
    ultimately show ?thesis using nn False by (simp add: parse_port_def strtoull_decimal [OF assms])
  qed
qed

lemma split_address_v4:
  assumes "CHR '':'' \<notin> set host" and "CHR '':'' \<notin> set ds" and "host \<noteq> []" and "host ! 0 \<noteq> CHR ''[''"
  shows "split_address (host @ '':'' @ ds) = Some (AF_INET, host, ds)"
proof -
  have "find_first_of (CHR '':'') 0 (host @ CHR '':'' # ds) = Some (length host)"
    using assms(1) by (rule find_first_of_append)
  moreover have "find_first_of (CHR '':'') (Suc (length host)) (host @ CHR '':'' # ds) = None"
    using assms(2) by (simp add: find_first_of_None)
  moreover have "(host @ CHR '':'' # ds) ! 0 \<noteq> CHR ''[''"
    using assms(3,4) by (cases host) auto
  ultimately show ?thesis by (simp add: split_address_def)
qed

lemma decimal_no_colon: "decimal ds \<Longrightarrow> CHR '':'' \<notin> set ds"
  by (auto simp: decimal_def)

lemma parse_tcp_port:
  assumes "decimal ds" and "CHR '':'' \<notin> set host" and "host \<noteq> []" and "host ! 0 \<noteq> CHR ''[''"
  shows "parse pton (''tcp://'' @ host @ '':'' @ ds) hint =
    (let n = digits_value 10 ds; port = of_int n
     in if 65535 < n then Inl EINVAL
        else if host = ''*'' then Inr \<lparr>is_wildcard = True, addr_len = sizeof_sockaddr_in6,
               addr_storage = Sockaddr_In6 (htons port) (replicate 16 0)\<rparr>
        else (case pton AF_INET (c_str host) of
            PtonOk addr \<Rightarrow> Inr \<lparr>is_wildcard = False, addr_len = sizeof_sockaddr_in, addr_storage = Sockaddr_In (htons port) addr\<rparr>
          | PtonInvalid \<Rightarrow> Inl EINVAL | PtonError e \<Rightarrow> Inl e))"
proof -
  have e: "extractFamilyHostAndPort (host @ '':'' @ ds) hint =
      map_option (\<lambda>p. (AF_INET, host, p)) (if 65535 < digits_value 10 ds then None else Some (of_int (digits_value 10 ds)))"
    unfolding extractFamilyHostAndPort_def
      split_address_v4 [OF assms(2) decimal_no_colon [OF assms(1)] assms(3,4)]
    by (simp add: parse_port_decimal [OF assms(1)])
  have p: "parse pton (''tcp://'' @ s) hint = (case tryParseAsTcpAddress pton (''tcp://'' @ s) hint of
       Some r \<Rightarrow> r | None \<Rightarrow> Inl EINVAL)" for s
    by (simp add: parse_def tryParseAsUnixDomain_def tryParseAsAbstractUnixDomain_def)
  have t: "tryParseAsTcpAddress pton (''tcp://'' @ s) hint = Some (case extractFamilyHostAndPort s hint of
          None \<Rightarrow> Inl EINVAL
        | Some (family, host, port) \<Rightarrow>
            (case tryParseAsWildcard host port of
               Some result \<Rightarrow> Inr result
             | None \<Rightarrow>
                 (case pton family (c_str host) of
                    PtonOk addr \<Rightarrow>
                      Inr (if family = AF_INET6
                           then \<lparr>is_wildcard = False, addr_len = sizeof_sockaddr_in6, addr_storage = Sockaddr_In6 (htons port) addr\<rparr>
                           else \<lparr>is_wildcard = False, addr_len = sizeof_sockaddr_in, addr_storage = Sockaddr_In (htons port) addr\<rparr>)
                  | PtonInvalid \<Rightarrow> Inl EINVAL
                  | PtonError err \<Rightarrow> Inl err)))" for s
    by (simp add: tryParseAsTcpAddress_def)
  show ?thesis
    unfolding p t e by (simp add: tryParseAsWildcard_def Let_def split: pton_result.splits)
qed

text \<open>
  A decimal port in a \<open>tcp://host:port\<close> string is the port of the address, whatever the hint:
  a number above 65535 is refused however long it is, any other one gives the address with that port
  whenever the host is the wildcard or \<open>inet_pton\<close> accepts it.
\<close>

theorem tcp_port_parsed:
  assumes "decimal ds" and "CHR '':'' \<notin> set host" and "host \<noteq> []" and "host ! 0 \<noteq> CHR ''[''"
  shows "case parse pton (''tcp://'' @ host @ '':'' @ ds) hint of
      Inr a \<Rightarrow> digits_value 10 ds \<le> 65535 \<and> uint (getPort a) = digits_value 10 ds \<and>
               (host = ''*'' \<or> (\<exists>addr. pton AF_INET (c_str host) = PtonOk addr))
    | Inl e \<Rightarrow> 65535 < digits_value 10 ds \<or> host \<noteq> ''*'' \<and> (\<forall>addr. pton AF_INET (c_str host) \<noteq> PtonOk addr)"
  unfolding parse_tcp_port [OF assms] using decimal_value_nonneg [OF assms(1)]
  by (auto simp: Let_def getPort_def uint_word_of_int take_bit_int_eq_self
      split: pton_result.splits)

subsection \<open>Concrete addresses\<close>

definition sample_pton :: inet_pton where
  "sample_pton family host = (if family = AF_INET \<and> host = ''127.0.0.1'' then PtonOk [127, 0, 0, 1]
     else if family = AF_INET6 \<and> host = ''::1'' then PtonOk (replicate 15 0 @ [1]) else PtonInvalid)"

definition sample_printer :: printer where
  "sample_printer = \<lparr>inet_ntop = (\<lambda>family addr. if addr = [127, 0, 0, 1] then Some ''127.0.0.1'' else None),
     fmt_int = (\<lambda>n. if n = 9875 then ''9875'' else ''?'')\<rparr>"

lemma parse_well_formed_witness:
  "\<exists>a. parse sample_pton ''tcp://[::1]:0x2693'' 9875 = Inr a \<and> wf_address a \<and> getPort a = 9875"
proof -
  have "parse sample_pton ''tcp://[::1]:0x2693'' 9875 =
      Inr \<lparr>is_wildcard = False, addr_len = 28, addr_storage = Sockaddr_In6 (htons 9875) (replicate 15 0 @ [1])\<rparr>"
    by code_simp
  from parse_well_formed [OF this] this show ?thesis by (simp add: getPort_def)
qed

lemma parse_errors_witness:
  "parse sample_pton ''http://x'' 1 = Inl EINVAL"
  by (rule parse_errors [THEN conjunct2, THEN mp]) (simp add: starts_with_def)

lemma abstract_unix_roundtrip_witness:
  "toString sample_printer (projr (parse sample_pton (''unix-abstract:'' @ ''org.opencyphal'') 0)) =
     ''unix-abstract:'' @ ''org.opencyphal''"
  by (rule abstract_unix_roundtrip [of sample_pton "''org.opencyphal''" 0 sample_printer, THEN conjunct2, THEN mp]) simp

lemma unix_path_prints_null_witness:
  "\<exists>a. parse sample_pton ''unix:/tmp/x'' 0 = Inr a \<and> toString sample_printer a = ''unix:/tmp/x'' @ [NUL]"
  using unix_path_prints_null [of "''/tmp/x''" sample_pton 0 sample_printer] by fastforce

lemma tcp_port_parsed_witness:
  "case parse sample_pton (''tcp://'' @ ''127.0.0.1'' @ '':'' @ ''9875'') 0 of
      Inr a \<Rightarrow> digits_value 10 ''9875'' \<le> 65535 \<and> uint (getPort a) = digits_value 10 ''9875'' \<and>
               (''127.0.0.1'' = ''*'' \<or> (\<exists>addr. sample_pton AF_INET (c_str ''127.0.0.1'') = PtonOk addr))
    | Inl e \<Rightarrow> 65535 < digits_value 10 ''9875'' \<or>
        ''127.0.0.1'' \<noteq> ''*'' \<and> (\<forall>addr. sample_pton AF_INET (c_str ''127.0.0.1'') \<noteq> PtonOk addr)"
  by (rule tcp_port_parsed) (simp_all add: decimal_def)

end
