(* ===== verification/Sockets.thy ===== *)
theory Sockets
  imports Posix_Utils Socket_Address "HOL-Library.Monad_Syntax"
begin

text \<open>
  Sockets over the system calls: the owned descriptor (src/common/io/io.hpp and io.cpp) and the
  socket operations of src/common/io/socket_address.cpp. The kernel is an argument: its state is a
  type parameter and its calls are gathered in \<open>posix\<close>. A call that fails has a positive
  \<open>errno\<close>. What the code relies on, \<open>posix_fds\<close>, is how the calls change the set of open
  descriptors. An operation is a partial function, because the kernel may interrupt its calls for
  ever. Destructors of owned descriptors are written where the scope of the code ends.
\<close>

subsection \<open>The calls\<close>

datatype sock_option = SO_REUSEADDR | TCP_NODELAY | IPV6_V6ONLY

record 'k posix =
  sys_socket :: "int \<Rightarrow> int \<Rightarrow> ('k, int) syscall"
  sys_fcntl_nonblock :: "int \<Rightarrow> ('k, unit) syscall"
  sys_setsockopt :: "int \<Rightarrow> sock_option \<Rightarrow> int \<Rightarrow> ('k, unit) syscall"
  sys_bind :: "int \<Rightarrow> sockaddr \<Rightarrow> nat \<Rightarrow> ('k, unit) syscall"
  sys_connect :: "int \<Rightarrow> sockaddr \<Rightarrow> nat \<Rightarrow> ('k, unit) syscall"
  sys_listen :: "int \<Rightarrow> nat \<Rightarrow> ('k, unit) syscall"
  sys_accept :: "int \<Rightarrow> nat \<Rightarrow> ('k, int \<times> sockaddr \<times> nat) syscall"
  sys_so_error :: "int \<Rightarrow> ('k, int) syscall"
  sys_send :: "int \<Rightarrow> bytes \<Rightarrow> ('k, nat) syscall"
  sys_recv :: "int \<Rightarrow> nat \<Rightarrow> ('k, bytes) syscall"
  sys_close :: "int \<Rightarrow> ('k, unit) syscall"

definition SOCK_STREAM :: int where "SOCK_STREAM = 1"

subsection \<open>Owned descriptors\<close>

text \<open>\<open>reset()\<close>, which is also the destructor: one \<open>close\<close>, never repeated.\<close>

definition OwnFd_reset :: "'k posix \<Rightarrow> int \<Rightarrow> 'k \<Rightarrow> int \<times> 'k" where
  "OwnFd_reset P fd k = (if 0 \<le> fd then (- 1, snd (sys_close P fd k)) else (fd, k))"

definition OwnFd_destroy :: "'k posix \<Rightarrow> int \<Rightarrow> 'k \<Rightarrow> 'k" where
  "OwnFd_destroy P fd k = snd (OwnFd_reset P fd k)"

text \<open>Move assignment: the old descriptor goes, the other one is taken over.\<close>

definition OwnFd_assign :: "'k posix \<Rightarrow> int \<Rightarrow> int \<Rightarrow> 'k \<Rightarrow> int \<times> 'k" where
  "OwnFd_assign P fd other k = (other, OwnFd_destroy P fd k)"

subsection \<open>Operations of an address\<close>

definition configureNoDelay :: "'k posix \<Rightarrow> int \<Rightarrow> 'k \<Rightarrow> 'k option" where
  "configureNoDelay P fd k = map_option snd (posixSyscallError (sys_setsockopt P fd TCP_NODELAY 1) k)"

definition SocketAddress_socket :: "'k posix \<Rightarrow> socket_address \<Rightarrow> int \<Rightarrow> 'k \<Rightarrow> ((int + int) \<times> 'k) option" where
  "SocketAddress_socket P a socket_type k = do {
     (r, k) \<leftarrow> posixSyscall (sys_socket P (sa_family (addr_storage a)) socket_type) k;
     case r of
       Err err \<Rightarrow> Some (Inl err, k)
     | Ret out_fd \<Rightarrow> do {
         (err, k) \<leftarrow> posixSyscallError (sys_fcntl_nonblock P out_fd) k;
         if err \<noteq> 0 then Some (Inl err, OwnFd_destroy P out_fd k)
         else do {
           k \<leftarrow> (if socket_type = SOCK_STREAM \<and> isAnyInet a then configureNoDelay P out_fd k else Some k);
           Some (Inr out_fd, k)
         }
       }
   }"

definition SocketAddress_bind :: "'k posix \<Rightarrow> socket_address \<Rightarrow> int \<Rightarrow> 'k \<Rightarrow> (int \<times> 'k) option" where
  "SocketAddress_bind P a raw_fd k = do {
     (err, k) \<leftarrow> (if is_wildcard a then posixSyscallError (sys_setsockopt P raw_fd IPV6_V6ONLY 0) k
                  else Some (0, k));
     if err \<noteq> 0 then Some (err, k)
     else posixSyscallError (sys_bind P raw_fd (addr_storage a) (addr_len a)) k
   }"

definition SocketAddress_connect :: "'k posix \<Rightarrow> socket_address \<Rightarrow> int \<Rightarrow> 'k \<Rightarrow> (int \<times> 'k) option" where
  "SocketAddress_connect P a raw_fd k = do {
     (err, k) \<leftarrow> posixSyscallError (sys_connect P raw_fd (addr_storage a) (addr_len a)) k;
     Some (if err = 0 \<or> err = EINPROGRESS then 0 else err, k)
   }"

text \<open>The errors on which \<open>accept\<close> tries again.\<close>

definition accept_retries :: "int \<Rightarrow> bool" where
  "accept_retries err \<longleftrightarrow> err \<in> {EINTR, ENETDOWN, ETIMEDOUT, EHOSTDOWN, ENETUNREACH, ECONNABORTED, EHOSTUNREACH, EPROTO}"

definition accepted :: "'k posix \<Rightarrow> socket_address \<Rightarrow> int \<Rightarrow> 'k \<Rightarrow> (int option \<times> 'k) option" where
  "accepted P a client_fd k = do {
     (err, k) \<leftarrow> posixSyscallError (sys_fcntl_nonblock P client_fd) k;
     if err \<noteq> 0 then Some (None, OwnFd_destroy P client_fd k)
     else do {
       k \<leftarrow> (if isAnyInet a then configureNoDelay P client_fd k else Some k);
       Some (Some client_fd, k)
     }
   }"

partial_function (option) SocketAddress_accept ::
    "'k posix \<Rightarrow> socket_address \<Rightarrow> int \<Rightarrow> 'k \<Rightarrow> (int option \<times> socket_address \<times> 'k) option" where
  "SocketAddress_accept px a server_fd k =
     (case sys_accept px server_fd sizeof_storage k of
        (Ret (client_fd, storage, len), k1) \<Rightarrow>
          (let a1 = a\<lparr>addr_len := len, addr_storage := storage\<rparr>
           in map_option (\<lambda>(r, k2). (r, a1, k2)) (accepted px a1 client_fd k1))
      | (Err err, k1) \<Rightarrow>
          (let a1 = a\<lparr>addr_len := sizeof_storage\<rparr>
           in if err = EAGAIN \<or> err = EWOULDBLOCK then Some (None, a1, k1)
              else if accept_retries err then SocketAddress_accept px a1 server_fd k1
              else Some (None, a1, k1)))"

subsection \<open>Open descriptors\<close>

text \<open>
  A call keeps the set of open descriptors, except that \<open>socket\<close> and \<open>accept\<close>, when they
  succeed, open one that was not, and \<open>close\<close> closes the one it is given, even if it reports an
  error (as on Linux).
\<close>

definition keeps_fds :: "('k \<Rightarrow> int set) \<Rightarrow> ('k, 'a) syscall \<Rightarrow> bool" where
  "keeps_fds fds call \<longleftrightarrow> (\<forall>k. fds (snd (call k)) = fds k)"

definition opens_fd :: "('k \<Rightarrow> int set) \<Rightarrow> ('a \<Rightarrow> int) \<Rightarrow> ('k, 'a) syscall \<Rightarrow> bool" where
  "opens_fd fds fd_of call \<longleftrightarrow> (\<forall>k. case call k of
     (Ret a, k') \<Rightarrow> 0 \<le> fd_of a \<and> fd_of a \<notin> fds k \<and> fds k' = insert (fd_of a) (fds k)
   | (Err e, k') \<Rightarrow> 0 < e \<and> fds k' = fds k)"

definition posix_fds :: "'k posix \<Rightarrow> ('k \<Rightarrow> int set) \<Rightarrow> bool" where
  "posix_fds P fds \<longleftrightarrow>
     (\<forall>family ty. opens_fd fds id (sys_socket P family ty)) \<and>
     (\<forall>fd n. opens_fd fds fst (sys_accept P fd n)) \<and>
     (\<forall>fd k. fds (snd (sys_close P fd k)) = fds k - {fd}) \<and>
     (\<forall>fd. keeps_fds fds (sys_fcntl_nonblock P fd)) \<and>
     (\<forall>fd opt v. keeps_fds fds (sys_setsockopt P fd opt v)) \<and>
     (\<forall>fd sa n. keeps_fds fds (sys_bind P fd sa n) \<and> keeps_fds fds (sys_connect P fd sa n)) \<and>
     (\<forall>fd n. keeps_fds fds (sys_listen P fd n) \<and> keeps_fds fds (sys_recv P fd n)) \<and>
     (\<forall>fd bs. keeps_fds fds (sys_send P fd bs)) \<and>
     (\<forall>fd. keeps_fds fds (sys_so_error P fd))"

lemma posix_fdsD:
  assumes "posix_fds P fds"
  shows "opens_fd fds id (sys_socket P family ty)" and "opens_fd fds fst (sys_accept P fd n)"
    and "fds (snd (sys_close P fd k)) = fds k - {fd}"
    and "keeps_fds fds (sys_fcntl_nonblock P fd)" and "keeps_fds fds (sys_setsockopt P fd opt v)"
    and "keeps_fds fds (sys_bind P fd sa n)" and "keeps_fds fds (sys_connect P fd sa n)"
    and "keeps_fds fds (sys_listen P fd n)" and "keeps_fds fds (sys_recv P fd n)"
    and "keeps_fds fds (sys_send P fd bs)" and "keeps_fds fds (sys_so_error P fd)"
  using assms unfolding posix_fds_def by auto

subsection \<open>What an operation leaves open\<close>

lemma kernel_after_invariant:
  assumes "interrupted call n k" and "Q k"
    and "\<And>k k'. Q k \<Longrightarrow> call k = (Err EINTR, k') \<Longrightarrow> Q k'"
  shows "Q (kernel_after call n k)"
  using assms(1,2)
proof (induction n arbitrary: k)
  case (Suc n)
  then obtain k' where "call k = (Err EINTR, k')" by (cases "call k") auto
  with Suc assms(3) show ?case by auto
qed simp

lemma posixSyscall_invariant:
  assumes "posixSyscall call k = Some (r, k')" and "Q k"
    and "\<And>k k'. Q k \<Longrightarrow> call k = (Err EINTR, k') \<Longrightarrow> Q k'"
  shows "\<exists>k0. Q k0 \<and> call k0 = (r, k')"
proof -
  obtain n where n: "interrupted call n k"
    using posixSyscall_some_interrupted [OF assms(1)] by blast
  have "Q (kernel_after call n k)" by (rule kernel_after_invariant [where Q = Q, OF n assms(2)]) (rule assms(3))
  with assms(1) posixSyscall_interrupted [OF n] show ?thesis by auto
qed

lemma opens_fd_interrupted:
  assumes "opens_fd fds fd_of call" and "call k = (Err e, k')"
  shows "fds k' = fds k"
  using assms(1) [unfolded opens_fd_def, rule_format, of k] by (simp add: assms(2))

lemma keeps_fdsD: "keeps_fds fds call \<Longrightarrow> call k = (r, k') \<Longrightarrow> fds k' = fds k"
  unfolding keeps_fds_def by (metis snd_conv)

lemma posixSyscall_opens:
  assumes "opens_fd fds fd_of call" and "posixSyscall call k = Some (r, k')"
  shows "case r of Ret a \<Rightarrow> 0 \<le> fd_of a \<and> fd_of a \<notin> fds k \<and> fds k' = insert (fd_of a) (fds k)
                 | Err e \<Rightarrow> 0 < e \<and> fds k' = fds k"
proof -
  have "\<exists>k0. fds k0 = fds k \<and> call k0 = (r, k')"
    by (rule posixSyscall_invariant [OF assms(2) refl]) (simp add: opens_fd_interrupted [OF assms(1)])
  then obtain k0 where k0: "fds k0 = fds k" "call k0 = (r, k')" by blast
  from assms(1) [unfolded opens_fd_def, rule_format, of k0] show ?thesis by (simp only: k0 prod.case)
qed

lemma posixSyscall_keeps:
  assumes "keeps_fds fds call" and "posixSyscall call k = Some (r, k')"
  shows "fds k' = fds k"
proof -
  have "\<exists>k0. fds k0 = fds k \<and> call k0 = (r, k')"
    by (rule posixSyscall_invariant [OF assms(2) refl]) (simp add: keeps_fdsD [OF assms(1)])
  then show ?thesis using keeps_fdsD [OF assms(1)] by metis
qed

lemma posixSyscallError_keeps:
  "keeps_fds fds call \<Longrightarrow> posixSyscallError call k = Some (e, k') \<Longrightarrow> fds k' = fds k"
  by (auto simp: posixSyscallError_def dest: posixSyscall_keeps)

lemma configureNoDelay_keeps:
  "posix_fds P fds \<Longrightarrow> configureNoDelay P fd k = Some k' \<Longrightarrow> fds k' = fds k"
  by (auto simp: configureNoDelay_def dest: posixSyscallError_keeps [OF posix_fdsD(5)])

lemma OwnFd_destroy_fds: "posix_fds P fds \<Longrightarrow> fds (OwnFd_destroy P fd k) = (if 0 \<le> fd then fds k - {fd} else fds k)"
  by (simp add: OwnFd_destroy_def OwnFd_reset_def posix_fdsD(3))

text \<open>
  Creating a socket leaks nothing: on success exactly the new descriptor is open in addition,
  on every failure (the call's own, or making it non-blocking) exactly what was open before.
\<close>

lemma socket_no_leak:
  assumes "posix_fds P fds" and "SocketAddress_socket P a ty k = Some (r, k')"
  shows "case r of Inr fd \<Rightarrow> 0 \<le> fd \<and> fd \<notin> fds k \<and> fds k' = insert fd (fds k) | Inl e \<Rightarrow> e \<noteq> 0 \<and> fds k' = fds k"
proof -
  from assms(2) obtain r1 k1 where 1: "posixSyscall (sys_socket P (sa_family (addr_storage a)) ty) k = Some (r1, k1)"
    by (auto simp: SocketAddress_socket_def bind_eq_Some_conv)
  note opened = posixSyscall_opens [OF posix_fdsD(1) [OF assms(1)] 1]
  show ?thesis
  proof (cases r1)
    case (Err e)
    with assms(2) 1 opened show ?thesis by (auto simp: SocketAddress_socket_def)
  next
    case (Ret fd)
    with assms(2) 1 obtain e k2 where 2: "posixSyscallError (sys_fcntl_nonblock P fd) k1 = Some (e, k2)"
      by (auto simp: SocketAddress_socket_def bind_eq_Some_conv)
    have "fds k2 = fds k1" by (rule posixSyscallError_keeps [OF posix_fdsD(4) [OF assms(1)] 2])
    with assms(2) 1 2 Ret opened configureNoDelay_keeps [OF assms(1), of fd k2] show ?thesis
      by (auto simp: SocketAddress_socket_def OwnFd_destroy_fds [OF assms(1)] bind_eq_Some_conv split: if_splits)
  qed
qed

lemma SocketAddress_bind_keeps:
  assumes "posix_fds P fds" and "SocketAddress_bind P a fd k = Some (e, k')"
  shows "fds k' = fds k"
proof -
  from assms(2) obtain e1 k1 where
    1: "(if is_wildcard a then posixSyscallError (sys_setsockopt P fd IPV6_V6ONLY 0) k else Some (0, k)) = Some (e1, k1)"
    and 2: "(if e1 \<noteq> 0 then Some (e1, k1) else posixSyscallError (sys_bind P fd (addr_storage a) (addr_len a)) k1) = Some (e, k')"
    by (auto simp: SocketAddress_bind_def bind_eq_Some_conv)
  have "fds k1 = fds k"
    using 1 by (simp split: if_splits add: posixSyscallError_keeps [OF posix_fdsD(5) [OF assms(1)]])
  moreover have "fds k' = fds k1"
    using 2 by (simp split: if_splits add: posixSyscallError_keeps [OF posix_fdsD(6) [OF assms(1)]])
  ultimately show ?thesis by simp
qed

lemma SocketAddress_connect_keeps:
  "posix_fds P fds \<Longrightarrow> SocketAddress_connect P a fd k = Some (e, k') \<Longrightarrow> fds k' = fds k"
  by (auto simp: SocketAddress_connect_def bind_eq_Some_conv dest!: posixSyscallError_keeps [OF posix_fdsD(7)])

lemma accepted_fds:
  assumes "posix_fds P fds" and "accepted P a fd k = Some (r, k')" and "0 \<le> fd"
  shows "case r of None \<Rightarrow> fds k' = fds k - {fd} | Some fd' \<Rightarrow> fd' = fd \<and> fds k' = fds k"
proof -
  from assms(2) obtain e k1 where 1: "posixSyscallError (sys_fcntl_nonblock P fd) k = Some (e, k1)"
    by (auto simp: accepted_def bind_eq_Some_conv)
  have "fds k1 = fds k" by (rule posixSyscallError_keeps [OF posix_fdsD(4) [OF assms(1)] 1])
  with assms(2,3) 1 configureNoDelay_keeps [OF assms(1), of fd k1] show ?thesis
    by (auto simp: accepted_def OwnFd_destroy_fds [OF assms(1)] bind_eq_Some_conv split: if_splits)
qed

text \<open>
  However often accepting is retried, it opens one new descriptor when it gives one, and
  otherwise leaves open exactly what was open before.
\<close>

lemma accept_no_leak:
  assumes "posix_fds P fds" and "SocketAddress_accept P a server_fd k = Some (r, a', k')"
  shows "case r of None \<Rightarrow> fds k' = fds k
               | Some fd \<Rightarrow> 0 \<le> fd \<and> fd \<notin> fds k \<and> fds k' = insert fd (fds k)"
proof -
  let ?ok = "\<lambda>k r k'. case r of None \<Rightarrow> fds k' = fds k | Some fd \<Rightarrow> 0 \<le> fd \<and> fd \<notin> fds k \<and> fds k' = insert fd (fds k)"
  have "posix_fds P fds \<longrightarrow> (case (r, a', k') of (r, a', k') \<Rightarrow> ?ok k r k')"
  proof (rule SocketAddress_accept.raw_induct [where
        P = "\<lambda>P a server_fd k x. posix_fds P fds \<longrightarrow> (case x of (r, a', k') \<Rightarrow> ?ok k r k')", OF _ assms(2)])
    fix f px and a :: socket_address and server_fd :: int and k x
    assume IH: "\<And>px a server_fd k x. f px a server_fd k = Some x \<Longrightarrow>
          posix_fds px fds \<longrightarrow> (case x of (r, a', k') \<Rightarrow> ?ok k r k')"
      and eq: "(case sys_accept px server_fd sizeof_storage k of
        (Ret (client_fd, storage, len), k1) \<Rightarrow>
          (let a1 = a\<lparr>addr_len := len, addr_storage := storage\<rparr>
           in map_option (\<lambda>(r, k2). (r, a1, k2)) (accepted px a1 client_fd k1))
      | (Err err, k1) \<Rightarrow>
          (let a1 = a\<lparr>addr_len := sizeof_storage\<rparr>
           in if err = EAGAIN \<or> err = EWOULDBLOCK then Some (None, a1, k1)
              else if accept_retries err then f px a1 server_fd k1
              else Some (None, a1, k1))) = Some x"
    show "posix_fds px fds \<longrightarrow> (case x of (r, a', k') \<Rightarrow> ?ok k r k')"
    proof
      assume ok: "posix_fds px fds"
      obtain r k1 where c: "sys_accept px server_fd sizeof_storage k = (r, k1)" by fastforce
      note opened = posix_fdsD(2) [OF ok, of server_fd sizeof_storage, unfolded opens_fd_def, rule_format, of k]
      show "case x of (r, a', k') \<Rightarrow> ?ok k r k'"
      proof (cases r)
        case (Ret y)
        obtain fd storage len where y: "y = (fd, storage, len)" by (cases y)
        with eq c Ret obtain r2 k2 where 2: "accepted px (a\<lparr>addr_len := len, addr_storage := storage\<rparr>) fd k1 = Some (r2, k2)"
          and x: "x = (r2, a\<lparr>addr_len := len, addr_storage := storage\<rparr>, k2)"
          by (auto simp: Let_def)
        have "0 \<le> fd" using opened c Ret y by simp
        from accepted_fds [OF ok 2 this] opened c Ret y x show ?thesis by (auto split: option.splits)
      next
        case (Err e)
        with opened c have same: "fds k1 = fds k" by simp
        show ?thesis
        proof (cases "accept_retries e \<and> e \<noteq> EAGAIN")
          case True
          with eq c Err have "f px (a\<lparr>addr_len := sizeof_storage\<rparr>) server_fd k1 = Some x" by simp
          with IH ok have "case x of (r, a', k') \<Rightarrow> ?ok k1 r k'" by blast
          then show ?thesis by (simp only: same)
        next
          case False
          with eq c Err same show ?thesis by (auto simp: Let_def split: if_splits)
        qed
      qed
    qed
  qed
  with assms(1) show ?thesis by simp
qed
end
