(* ===== verification/Socket_Base.thy ===== *)
theory Socket_Base
  imports Sockets
begin

text \<open>
  Messages over a stream socket (src/common/ipc/pipe/socket_base.hpp and socket_base.cpp): a
  header with a signature and a size, then the payload. The header is laid out as the little-endian
  hosts the daemon runs on do. A socket's state is changed only by \<open>receiveMessage\<close>, which hands
  a complete payload to its action; the action may be stuck or run into undefined behaviour, which
  is \<open>None\<close>, as is a kernel that never stops interrupting a call.
\<close>

subsection \<open>State\<close>

datatype read_phase = Header | Payload

record socket_state =
  st_fd :: int
  read_msg_size :: nat
  read_phase :: read_phase

definition socket_state_default :: socket_state where
  "socket_state_default = \<lparr>st_fd = - 1, read_msg_size = 0, read_phase = Header\<rparr>"

definition MsgSignature :: nat where "MsgSignature = 0x5356434F"
definition MsgMaxSize :: nat where "MsgMaxSize = 1048576"

text \<open>The header in memory: two 32-bit fields; the size is cast to 32 bits.\<close>

definition msg_header :: "nat \<Rightarrow> bytes" where
  "msg_header total_size = le_bytes 4 MsgSignature @ le_bytes 4 total_size"

definition header_signature :: "bytes \<Rightarrow> nat" where "header_signature h = le_nat (take 4 h)"
definition header_size :: "bytes \<Rightarrow> nat" where "header_size h = le_nat (take 4 (drop 4 h))"

subsection \<open>Sending\<close>

text \<open>What a call reports to have sent is not looked at, only whether it failed.\<close>

fun send_fragments :: "'k posix \<Rightarrow> int \<Rightarrow> bytes list \<Rightarrow> 'k \<Rightarrow> (int \<times> 'k) option" where
  "send_fragments P fd [] k = Some (0, k)"
| "send_fragments P fd (payload # payloads) k = do {
     (err, k) \<leftarrow> posixSyscallError (sys_send P fd payload) k;
     if err \<noteq> 0 then Some (err, k) else send_fragments P fd payloads k
   }"

definition SocketBase_send :: "'k posix \<Rightarrow> socket_state \<Rightarrow> bytes list \<Rightarrow> 'k \<Rightarrow> (int \<times> 'k) option" where
  "SocketBase_send P st payloads k = do {
     let total_size = sum_list (map length payloads);
     (err, k) \<leftarrow> posixSyscallError (sys_send P (st_fd st) (msg_header total_size)) k;
     if err \<noteq> 0 then Some (err, k) else send_fragments P (st_fd st) payloads k
   }"

subsection \<open>Receiving\<close>

text \<open>Either the call is over with a result, or there is a payload for the action.\<close>

datatype received = Done int | Deliver bytes

definition valid_header :: "bytes \<Rightarrow> bool" where
  "valid_header h \<longleftrightarrow> length h = 8 \<and> header_signature h = MsgSignature \<and>
     header_size h \<noteq> 0 \<and> header_size h \<le> MsgMaxSize"

definition read_payload :: "'k posix \<Rightarrow> socket_state \<Rightarrow> 'k \<Rightarrow> (received \<times> socket_state \<times> 'k) option" where
  "read_payload P st k = do {
     (r, k) \<leftarrow> posixSyscall (sys_recv P (st_fd st) (read_msg_size st)) k;
     case r of
       Err err \<Rightarrow> Some (Done (if err = EAGAIN \<or> err = EWOULDBLOCK then 0 else err), st, k)
     | Ret buf \<Rightarrow>
         (if length buf \<noteq> read_msg_size st then Some (Done EINVAL, st, k)
          else Some (Deliver buf, st\<lparr>read_phase := Header\<rparr>, k))
   }"

definition read_message :: "'k posix \<Rightarrow> socket_state \<Rightarrow> 'k \<Rightarrow> (received \<times> socket_state \<times> 'k) option" where
  "read_message P st k =
     (if read_phase st = Header
      then do {
        (r, k) \<leftarrow> posixSyscall (sys_recv P (st_fd st) 8) k;
        case r of
          Err err \<Rightarrow> Some (Done (if err = EAGAIN \<or> err = EWOULDBLOCK then 0 else err), st, k)
        | Ret h \<Rightarrow>
            (if h = [] then Some (Done (- 1), st, k)
             else if \<not> valid_header h then Some (Done EINVAL, st, k)
             else read_payload P (st\<lparr>read_msg_size := header_size h, read_phase := Payload\<rparr>) k)
      }
      else read_payload P st k)"

text \<open>
  The \<open>State&\<close> the code is given is a place in the caller's world \<open>'w\<close>: \<open>rd\<close> reads it, with the
  kernel, and \<open>wr\<close> writes both back.
\<close>

definition receiveMessage ::
    "'k posix \<Rightarrow> ('w \<Rightarrow> socket_state \<times> 'k) \<Rightarrow> (socket_state \<times> 'k \<Rightarrow> 'w \<Rightarrow> 'w) \<Rightarrow>
     (bytes \<Rightarrow> 'w \<Rightarrow> (int \<times> 'w) option) \<Rightarrow> 'w \<Rightarrow> (int \<times> 'w) option" where
  "receiveMessage P rd wr action w = do {
     (r, st, k) \<leftarrow> (let (st, k) = rd w in read_message P st k);
     let w = wr (st, k) w;
     case r of Done err \<Rightarrow> Some (err, w) | Deliver payload \<Rightarrow> action payload w
   }"

subsection \<open>A stream\<close>

text \<open>
  What a kernel promises of a stream whose receive buffer \<open>inbox\<close> never fills up: sending on
  \<open>fd\<close> takes all the bytes and appends them to what the peer \<open>fd'\<close> can read; receiving gives
  what there is, up to the number asked for, and leaves the rest.
\<close>

definition stream_sends :: "'k posix \<Rightarrow> ('k \<Rightarrow> bytes) \<Rightarrow> int \<Rightarrow> bool" where
  "stream_sends P inbox fd \<longleftrightarrow>
     (\<forall>bs k. \<exists>k'. sys_send P fd bs k = (Ret (length bs), k') \<and> inbox k' = inbox k @ bs)"

definition stream_receives :: "'k posix \<Rightarrow> ('k \<Rightarrow> bytes) \<Rightarrow> int \<Rightarrow> bool" where
  "stream_receives P inbox fd \<longleftrightarrow>
     (\<forall>n k. 0 < n \<longrightarrow> (\<exists>k'. sys_recv P fd n k =
        (if inbox k = [] then Err EAGAIN else Ret (take n (inbox k)), k') \<and> inbox k' = drop n (inbox k)))"

lemma stream_send:
  "stream_sends P inbox fd \<Longrightarrow>
   \<exists>k'. posixSyscallError (sys_send P fd bs) k = Some (0, k') \<and> inbox k' = inbox k @ bs"
  unfolding stream_sends_def posixSyscallError_def
  by (metis (no_types, lifting) case_prod_conv option.simps(9) posixSyscall_Ret sysret_error_simps(1))

lemma stream_recv:
  assumes "stream_receives P inbox fd" and "0 < n"
  shows "\<exists>k'. posixSyscall (sys_recv P fd n) k =
      Some (if inbox k = [] then Err EAGAIN else Ret (take n (inbox k)), k') \<and> inbox k' = drop n (inbox k)"
proof -
  obtain k' where "sys_recv P fd n k = (if inbox k = [] then Err EAGAIN else Ret (take n (inbox k)), k')"
      "inbox k' = drop n (inbox k)"
    using assms by (auto simp: stream_receives_def)
  then show ?thesis by (intro exI [of _ k']) (auto intro!: posixSyscall_Ret posixSyscall_Err)
qed

lemma send_fragments_stream:
  assumes "stream_sends P inbox fd"
  shows "\<exists>k'. send_fragments P fd payloads k = Some (0, k') \<and> inbox k' = inbox k @ concat payloads"
proof (induction payloads arbitrary: k)
  case (Cons p ps)
  obtain k1 where 1: "posixSyscallError (sys_send P fd p) k = Some (0, k1)" "inbox k1 = inbox k @ p"
    using stream_send [OF assms] by blast
  from Cons.IH [of k1] obtain k' where "send_fragments P fd ps k1 = Some (0, k')" "inbox k' = inbox k1 @ concat ps"
    by blast
  with 1 show ?case by simp
qed simp

lemma SocketBase_send_stream:
  assumes "stream_sends P inbox (st_fd st)"
  shows "\<exists>k'. SocketBase_send P st payloads k = Some (0, k') \<and>
              inbox k' = inbox k @ msg_header (length (concat payloads)) @ concat payloads"
proof -
  let ?h = "msg_header (length (concat payloads))"
  obtain k1 where 1: "posixSyscallError (sys_send P (st_fd st) ?h) k = Some (0, k1)" "inbox k1 = inbox k @ ?h"
    using stream_send [OF assms] by blast
  obtain k' where "send_fragments P (st_fd st) payloads k1 = Some (0, k')" "inbox k' = inbox k1 @ concat payloads"
    using send_fragments_stream [OF assms] by blast
  with 1 show ?thesis by (simp add: SocketBase_send_def length_concat)
qed

subsection \<open>Headers\<close>

lemma length_msg_header [simp]: "length (msg_header n) = 8"
  by (simp add: msg_header_def)

lemma header_fields [simp]:
  "header_signature (msg_header n) = MsgSignature"
  "header_size (msg_header n) = n mod 2 ^ 32"
  by (simp_all add: header_signature_def header_size_def msg_header_def le_nat_le_bytes MsgSignature_def)

lemma valid_msg_header: "valid_header (msg_header n) \<longleftrightarrow> n mod 2 ^ 32 \<noteq> 0 \<and> n mod 2 ^ 32 \<le> MsgMaxSize"
  by (simp add: valid_header_def)

lemma MsgMaxSize_fits: "0 < n \<Longrightarrow> n \<le> MsgMaxSize \<Longrightarrow> n mod 2 ^ 32 = n"
  by (simp add: MsgMaxSize_def)

subsection \<open>Receiving from a stream\<close>

lemma read_payload_stream:
  assumes "stream_receives P inbox (st_fd st)" and "0 < read_msg_size st"
  shows "\<exists>k'. read_payload P st k = Some (
      if inbox k = [] then Done 0
      else if length (inbox k) < read_msg_size st then Done EINVAL
      else Deliver (take (read_msg_size st) (inbox k)),
      if length (inbox k) < read_msg_size st then st else st\<lparr>read_phase := Header\<rparr>, k') \<and>
    inbox k' = drop (read_msg_size st) (inbox k)"
proof -
  obtain k' where "posixSyscall (sys_recv P (st_fd st) (read_msg_size st)) k =
      Some (if inbox k = [] then Err EAGAIN else Ret (take (read_msg_size st) (inbox k)), k')"
      "inbox k' = drop (read_msg_size st) (inbox k)"
    using stream_recv [OF assms] by blast
  with assms(2) show ?thesis by (intro exI [of _ k']) (auto simp: read_payload_def min_def)
qed

text \<open>A header that has arrived, alone or with what follows it.\<close>

lemma read_message_header:
  assumes "stream_receives P inbox (st_fd st)" and "read_phase st = Header" and "inbox k = h @ rest"
    and "length h = 8"
  shows "\<exists>k'. inbox k' = rest \<and> read_message P st k =
     (if valid_header h then read_payload P (st\<lparr>read_msg_size := header_size h, read_phase := Payload\<rparr>) k'
      else Some (Done EINVAL, st, k'))"
proof -
  obtain k' where "posixSyscall (sys_recv P (st_fd st) 8) k =
      Some (if inbox k = [] then Err EAGAIN else Ret (take 8 (inbox k)), k')" "inbox k' = drop 8 (inbox k)"
    using stream_recv [OF assms(1), of 8] by auto
  moreover have "h \<noteq> []" using assms(4) by auto
  ultimately show ?thesis
    using assms(2-4) by (intro exI [of _ k']) (simp add: read_message_def)
qed

lemma read_message_frame:
  assumes "stream_receives P inbox (st_fd st)" and "read_phase st = Header"
    and "inbox k = msg_header (length body) @ body @ rest" and "body \<noteq> []" and "length body \<le> MsgMaxSize"
  shows "\<exists>k'. inbox k' = rest \<and> read_message P st k =
    Some (Deliver body, st\<lparr>read_msg_size := length body, read_phase := Header\<rparr>, k')"
proof -
  have n: "length body mod 2 ^ 32 = length body" using assms(4,5) by (intro MsgMaxSize_fits) auto
  let ?st = "st\<lparr>read_msg_size := length body, read_phase := Payload\<rparr>"
  obtain k1 where 1: "inbox k1 = body @ rest" "read_message P st k = read_payload P ?st k1"
    using read_message_header [OF assms(1-3)] assms(4,5) n by (auto simp: valid_msg_header)
  obtain k2 where "read_payload P ?st k1 = Some (Deliver body, ?st\<lparr>read_phase := Header\<rparr>, k2)" "inbox k2 = rest"
    using read_payload_stream [of P inbox ?st k1] assms(1,4) 1(1) by auto
  with 1(2) show ?thesis by (intro exI [of _ k2]) simp
qed

text \<open>
  A message of 1 byte to 1 MiB, sent in any number of fragments, is received as one payload
  with exactly those bytes, given to the action once, and the receiver is ready for the next header.
\<close>

theorem message_roundtrip:
  assumes "stream_sends P inbox (st_fd sta)" and "stream_receives P inbox (st_fd stb)"
    and "read_phase stb = Header" and "inbox k = []"
    and "concat payloads \<noteq> []" and "length (concat payloads) \<le> MsgMaxSize"
  shows "\<exists>k1 k2. SocketBase_send P sta payloads k = Some (0, k1) \<and> inbox k2 = [] \<and>
    (\<forall>rd wr action w. rd w = (stb, k1) \<longrightarrow> receiveMessage P rd wr action w =
      action (concat payloads) (wr (stb\<lparr>read_msg_size := length (concat payloads), read_phase := Header\<rparr>, k2) w))"
proof -
  obtain k1 where k1: "SocketBase_send P sta payloads k = Some (0, k1)"
      "inbox k1 = msg_header (length (concat payloads)) @ concat payloads @ []"
    using SocketBase_send_stream [OF assms(1), of payloads k] assms(4) by auto
  obtain k2 where "inbox k2 = []" "read_message P stb k1 =
      Some (Deliver (concat payloads), stb\<lparr>read_msg_size := length (concat payloads), read_phase := Header\<rparr>, k2)"
    using read_message_frame [OF assms(2,3) k1(2) assms(5,6)] by blast
  with k1(1) show ?thesis by (intro exI [of _ k1] exI [of _ k2]) (simp add: receiveMessage_def)
qed

text \<open>A number of sends, then a number of receives.\<close>

fun send_messages :: "'k posix \<Rightarrow> socket_state \<Rightarrow> bytes list list \<Rightarrow> 'k \<Rightarrow> 'k option" where
  "send_messages P st [] k = Some k"
| "send_messages P st (m # ms) k =
     do { (err, k) \<leftarrow> SocketBase_send P st m k; if err \<noteq> 0 then None else send_messages P st ms k }"

fun receive_messages :: "'k posix \<Rightarrow> nat \<Rightarrow> socket_state \<Rightarrow> 'k \<Rightarrow> (bytes list \<times> socket_state \<times> 'k) option" where
  "receive_messages P 0 st k = Some ([], st, k)"
| "receive_messages P (Suc n) st k = do {
     (r, st, k) \<leftarrow> read_message P st k;
     case r of
       Done e \<Rightarrow> None
     | Deliver p \<Rightarrow> do { (ps, st, k) \<leftarrow> receive_messages P n st k; Some (p # ps, st, k) }
   }"

definition wire :: "bytes list list \<Rightarrow> bytes" where
  "wire ms = concat (map (\<lambda>m. msg_header (length (concat m)) @ concat m) ms)"

lemma send_messages_stream:
  assumes "stream_sends P inbox (st_fd st)"
  shows "\<exists>k'. send_messages P st ms k = Some k' \<and> inbox k' = inbox k @ wire ms"
proof (induction ms arbitrary: k)
  case (Cons m ms)
  obtain k1 where 1: "SocketBase_send P st m k = Some (0, k1)"
      "inbox k1 = inbox k @ msg_header (length (concat m)) @ concat m"
    using SocketBase_send_stream [OF assms] by blast
  obtain k' where "send_messages P st ms k1 = Some k'" "inbox k' = inbox k1 @ wire ms"
    using Cons.IH by blast
  with 1 show ?case by (simp add: wire_def)
qed (simp add: wire_def)

lemma receive_messages_stream:
  assumes "stream_receives P inbox (st_fd st)" and "read_phase st = Header" and "inbox k = wire ms"
    and "\<forall>m \<in> set ms. concat m \<noteq> [] \<and> length (concat m) \<le> MsgMaxSize"
  shows "\<exists>st' k'. receive_messages P (length ms) st k = Some (map concat ms, st', k') \<and>
                  read_phase st' = Header \<and> inbox k' = []"
  using assms
proof (induction ms arbitrary: st k)
  case (Cons m ms)
  let ?st = "st\<lparr>read_msg_size := length (concat m), read_phase := Header\<rparr>"
  obtain k1 where 1: "inbox k1 = wire ms" "read_message P st k = Some (Deliver (concat m), ?st, k1)"
    using read_message_frame [OF Cons.prems(1,2), of k "concat m" "wire ms"] Cons.prems(3,4)
    by (auto simp: wire_def)
  obtain st' k' where "receive_messages P (length ms) ?st k1 = Some (map concat ms, st', k')"
      "read_phase st' = Header" "inbox k' = []"
    using Cons.IH [of ?st k1] Cons.prems 1(1) by auto
  with 1(2) show ?case by simp
qed (simp add: wire_def)

text \<open>
  C9. Messages keep their order and their boundaries: after any number of messages of admissible
  sizes has been sent, as many receives give back their payloads, in order, and nothing else.
\<close>

theorem messages_in_order:
  assumes "stream_sends P inbox (st_fd sta)" and "stream_receives P inbox (st_fd stb)"
    and "read_phase stb = Header" and "inbox k = []"
    and "\<forall>m \<in> set ms. concat m \<noteq> [] \<and> length (concat m) \<le> MsgMaxSize"
  shows "\<exists>k1 stb' k2. send_messages P sta ms k = Some k1 \<and>
    receive_messages P (length ms) stb k1 = Some (map concat ms, stb', k2) \<and>
    read_phase stb' = Header \<and> inbox k2 = []"
proof -
  obtain k1 where 1: "send_messages P sta ms k = Some k1" "inbox k1 = wire ms"
    using send_messages_stream [OF assms(1), of ms k] assms(4) by auto
  with receive_messages_stream [OF assms(2,3) 1(2) assms(5)] show ?thesis by blast
qed

text \<open>
  The sender does not check sizes: an empty message, or one over 1 MiB, is sent with success,
  and the receiver refuses it, so that the pipe it came through is closed.
\<close>

theorem bad_size_refused:
  assumes "stream_sends P inbox (st_fd sta)" and "stream_receives P inbox (st_fd stb)"
    and "read_phase stb = Header" and "inbox k = []"
    and "concat payloads = [] \<or> MsgMaxSize < length (concat payloads) \<and> length (concat payloads) < 2 ^ 32"
  shows "\<exists>k1 k2. SocketBase_send P sta payloads k = Some (0, k1) \<and>
                 read_message P stb k1 = Some (Done EINVAL, stb, k2)"
proof -
  let ?n = "length (concat payloads)"
  obtain k1 where k1: "SocketBase_send P sta payloads k = Some (0, k1)" "inbox k1 = msg_header ?n @ concat payloads"
    using SocketBase_send_stream [OF assms(1), of payloads k] assms(4) by auto
  have "\<not> valid_header (msg_header ?n)"
  proof (cases "concat payloads = []")
    case True
    show ?thesis unfolding valid_msg_header True by simp
  next
    case False
    with assms(5) have "MsgMaxSize < ?n" "?n mod 2 ^ 32 = ?n" by auto
    then show ?thesis by (simp only: valid_msg_header) simp
  qed
  with k1 read_message_header [OF assms(2,3) k1(2)] show ?thesis by auto
qed

text \<open>A receive of the first \<open>m\<close> bytes of a message, or of all of it with what follows.\<close>

lemma read_message_part:
  assumes "stream_receives P inbox (st_fd st)" and "read_phase st = Header"
    and "0 < n" and "n \<le> MsgMaxSize" and "inbox k = take m (msg_header n @ body) @ rest" and "length body = n"
    and "m < 8 + n \<Longrightarrow> rest = []"
  shows "\<exists>k'. inbox k' = rest \<and> read_message P st k = Some (
      if m = 0 then (Done 0, st, k')
      else if m < 8 then (Done EINVAL, st, k')
      else if m = 8 then (Done 0, st\<lparr>read_msg_size := n, read_phase := Payload\<rparr>, k')
      else if m < 8 + n then (Done EINVAL, st\<lparr>read_msg_size := n, read_phase := Payload\<rparr>, k')
      else (Deliver body, st\<lparr>read_msg_size := n, read_phase := Header\<rparr>, k'))"
proof (cases "m < 8")
  case True
  with assms(7) have rest: "rest = []" by simp
  obtain k' where k': "posixSyscall (sys_recv P (st_fd st) 8) k =
      Some (if inbox k = [] then Err EAGAIN else Ret (take 8 (inbox k)), k')" "inbox k' = drop 8 (inbox k)"
    using stream_recv [OF assms(1), of 8] by auto
  moreover have "\<not> valid_header (take m (msg_header n))"
    using True by (simp add: valid_header_def)
  moreover have "msg_header n \<noteq> []" by (metis length_msg_header list.size(3) zero_neq_numeral)
  ultimately show ?thesis
    using True assms(2,5) rest by (intro exI [of _ k']) (simp add: read_message_def)
next
  case False
  let ?st = "st\<lparr>read_msg_size := n, read_phase := Payload\<rparr>"
  have "inbox k = msg_header n @ take (m - 8) body @ rest" using False assms(5) by simp
  from read_message_header [OF assms(1,2) this] obtain k1
    where 1: "inbox k1 = take (m - 8) body @ rest" "read_message P st k = read_payload P ?st k1"
    using assms(3,4) MsgMaxSize_fits [OF assms(3,4)] by (auto simp: valid_msg_header)
  have "stream_receives P inbox (st_fd ?st)" "0 < read_msg_size ?st" using assms(1,3) by simp_all
  note received = read_payload_stream [OF this, of k1]
  show ?thesis
  proof (cases "m < 8 + n")
    case True
    with received 1 False assms(3,6,7) show ?thesis by (auto simp: min_def)
  next
    case False
    with 1(1) assms(6) have "inbox k1 = body @ rest" by simp
    with received 1(2) False \<open>\<not> m < 8\<close> assms(3,6) show ?thesis by auto
  qed
qed

text \<open>
  C34. A payload may arrive after its header, the receiver waits for it; but a payload that arrives
  in two pieces is refused, and so is a header that arrives in two pieces.
\<close>

theorem split_message:
  assumes "stream_receives P inbox (st_fd st)" and "read_phase st = Header"
    and "0 < n" and "n \<le> MsgMaxSize" and "inbox k = take m (msg_header n @ body)" and "length body = n"
  shows "\<exists>k'. read_message P st k = Some (
      if m = 0 then (Done 0, st, k')
      else if m < 8 then (Done EINVAL, st, k')
      else if m = 8 then (Done 0, st\<lparr>read_msg_size := n, read_phase := Payload\<rparr>, k')
      else if m < 8 + n then (Done EINVAL, st\<lparr>read_msg_size := n, read_phase := Payload\<rparr>, k')
      else (Deliver body, st\<lparr>read_msg_size := n, read_phase := Header\<rparr>, k'))"
  using read_message_part [OF assms(1-4), of k m body "[]"] assms(5,6) by auto

text \<open>
  Sending looks at failures only: a kernel that takes fewer bytes than it was given, even none,
  makes the send succeed all the same, with the message cut short on the wire.
\<close>

theorem short_send_succeeds:
  assumes "\<forall>bs k. \<exists>n k'. sys_send P (st_fd st) bs k = (Ret n, k')"
  shows "\<exists>k'. SocketBase_send P st payloads k = Some (0, k')"
proof -
  have ok: "\<exists>k'. posixSyscallError (sys_send P (st_fd st) bs) k = Some (0, k')" for bs k
    using assms unfolding posixSyscallError_def
    by (metis (no_types, lifting) case_prod_conv option.simps(9) posixSyscall_Ret sysret_error_simps(1))
  have "\<exists>k'. send_fragments P (st_fd st) ps k = Some (0, k')" for ps k
  proof (induction ps arbitrary: k)
    case (Cons p ps)
    obtain k1 where "posixSyscallError (sys_send P (st_fd st) p) k = Some (0, k1)" using ok by blast
    with Cons.IH [of k1] show ?case by simp
  qed simp
  moreover obtain k1 where "posixSyscallError (sys_send P (st_fd st) (msg_header (sum_list (map length payloads)))) k = Some (0, k1)"
    using ok by blast
  ultimately show ?thesis by (simp add: SocketBase_send_def)
qed

subsection \<open>Descriptors\<close>

lemma send_fragments_fds:
  "posix_fds P fds \<Longrightarrow> send_fragments P fd ps k = Some (e, k') \<Longrightarrow> fds k' = fds k"
proof (induction ps arbitrary: k)
  case (Cons p ps)
  from Cons.prems(2) obtain e1 k1 where 1: "posixSyscallError (sys_send P fd p) k = Some (e1, k1)"
    by (auto simp: bind_eq_Some_conv)
  have "fds k1 = fds k" by (rule posixSyscallError_keeps [OF posix_fdsD(10) [OF Cons.prems(1)] 1])
  with Cons.IH [OF Cons.prems(1), of k1] Cons.prems(2) 1 show ?case by (simp split: if_splits)
qed simp

lemma SocketBase_send_fds:
  assumes "posix_fds P fds" and "SocketBase_send P st ps k = Some (e, k')"
  shows "fds k' = fds k"
proof -
  from assms(2) obtain e1 k1 where
    1: "posixSyscallError (sys_send P (st_fd st) (msg_header (sum_list (map length ps)))) k = Some (e1, k1)"
    by (auto simp: SocketBase_send_def bind_eq_Some_conv)
  have "fds k1 = fds k" by (rule posixSyscallError_keeps [OF posix_fdsD(10) [OF assms(1)] 1])
  with assms 1 send_fragments_fds [OF assms(1), of "st_fd st" ps k1] show ?thesis
    by (simp add: SocketBase_send_def split: if_splits)
qed

lemma read_payload_fds:
  assumes "posix_fds P fds" and "read_payload P st k = Some (r, st', k')"
  shows "fds k' = fds k \<and> st_fd st' = st_fd st"
proof -
  from assms(2) obtain r1 k1 where 1: "posixSyscall (sys_recv P (st_fd st) (read_msg_size st)) k = Some (r1, k1)"
    by (auto simp: read_payload_def bind_eq_Some_conv)
  have "fds k1 = fds k" by (rule posixSyscall_keeps [OF posix_fdsD(9) [OF assms(1)] 1])
  with assms(2) 1 show ?thesis by (auto simp: read_payload_def split: sysret.splits if_splits)
qed

lemma read_message_fds:
  assumes "posix_fds P fds" and "read_message P st k = Some (r, st', k')"
  shows "fds k' = fds k \<and> st_fd st' = st_fd st"
proof (cases "read_phase st = Header")
  case True
  with assms(2) obtain r1 k1 where 1: "posixSyscall (sys_recv P (st_fd st) 8) k = Some (r1, k1)"
    by (auto simp: read_message_def bind_eq_Some_conv)
  have f: "fds k1 = fds k" by (rule posixSyscall_keeps [OF posix_fdsD(9) [OF assms(1)] 1])
  show ?thesis
  proof (cases r1)
    case (Err e)
    with assms(2) True 1 f show ?thesis by (simp add: read_message_def)
  next
    case (Ret h)
    with assms(2) True 1 f
      read_payload_fds [OF assms(1), of "st\<lparr>read_msg_size := header_size h, read_phase := Payload\<rparr>" k1 r st' k']
    show ?thesis by (auto simp: read_message_def split: if_splits)
  qed
next
  case False
  with assms(2) read_payload_fds [OF assms(1)] show ?thesis by (simp add: read_message_def)
qed

end
