(* ===== verification/Ipc_Types.thy ===== *)
theory Ipc_Types
  imports Prelude
begin

text \<open>
  The vocabulary of the IPC layer: the error codes and payload spans of
  src/common/ipc/ipc_types.hpp, the routing messages of the DSDL definitions under
  src/common/dsdl, the helpers of src/common/dsdl_helpers.hpp and the gateway interface of
  src/common/ipc/gateway.hpp. The DSDL (de)serializers are generated by Nunavut at build time, so
  they are arguments of the model, gathered in a \<open>codec\<close>.
\<close>

subsection \<open>Error codes\<close>

text \<open>\<open>enum class ErrorCode : int\<close> converts to and from any \<open>int\<close>, so it is one.\<close>

type_synonym error_code = int

definition ErrorCode_Success :: error_code where [simp]: "ErrorCode_Success = 0"
definition ErrorCode_NotConnected :: error_code where [simp]: "ErrorCode_NotConnected = ENOTCONN"
definition ErrorCode_Disconnected :: error_code where [simp]: "ErrorCode_Disconnected = ECONNRESET"
definition ErrorCode_Shutdown :: error_code where [simp]: "ErrorCode_Shutdown = ESHUTDOWN"

subsection \<open>Routing messages\<close>

datatype route =
    RouteEmpty
  | RouteConnect (version_major: u8) (version_minor: u8) (connect_error: int)
  | RouteChannelMsg (msg_tag: u64) (msg_sequence: u64) (msg_service_id: u64) (msg_payload_size: u64)
  | RouteChannelEnd (end_tag: u64) (end_error: int)

text \<open>The protocol version both routers announce (set by CMakeLists.txt).\<close>

definition VERSION_MAJOR :: u8 where "VERSION_MAJOR = 0"
definition VERSION_MINOR :: u8 where "VERSION_MINOR = 1"

record codec =
  serialize :: "route \<Rightarrow> bytes option"
  deserialize :: "bytes \<Rightarrow> route option"

text \<open>
  What the DSDL specification promises of generated code: a serialized representation
  deserializes to the value it came from, and bytes past its end are ignored (the implicit
  truncation rule).
\<close>

definition dsdl_codec :: "codec \<Rightarrow> bool" where
  "dsdl_codec c \<longleftrightarrow>
     (\<forall>r p rest. serialize c r = Some p \<longrightarrow> deserialize c (p @ rest) = Some r)"

lemma dsdl_codecD: "dsdl_codec c \<Longrightarrow> serialize c r = Some p \<Longrightarrow> deserialize c (p @ rest) = Some r"
  by (simp add: dsdl_codec_def)

subsection \<open>Helpers over serialized payloads\<close>

definition tryPerformOnSerialized ::
    "('m \<Rightarrow> bytes option) \<Rightarrow> 'm \<Rightarrow> (bytes \<Rightarrow> 'w \<Rightarrow> int \<times> 'w) \<Rightarrow> 'w \<Rightarrow> int \<times> 'w" where
  "tryPerformOnSerialized ser message action w =
     (case ser message of None \<Rightarrow> (EINVAL, w) | Some bs \<Rightarrow> action bs w)"

text \<open>
  \<open>payload.subspan(payload.size() - payload_size)\<close>: the subtraction wraps at 64 bits, and an
  offset past the end of a span is outside the contract of \<open>subspan\<close>, which is \<open>None\<close> here.
\<close>

definition subspan :: "bytes \<Rightarrow> u64 \<Rightarrow> bytes option" where
  "subspan payload offset = (if unat offset \<le> length payload then Some (drop (unat offset) payload) else None)"

definition real_payload :: "bytes \<Rightarrow> u64 \<Rightarrow> bytes option" where
  "real_payload payload payload_size = subspan payload (of_nat (length payload) - payload_size)"

lemma real_payload_suffix:
  assumes "length suffix < 2 ^ 64" and "length (prefix @ suffix) < 2 ^ 64"
  shows "real_payload (prefix @ suffix) (of_nat (length suffix)) = Some suffix"
proof -
  have "(of_nat (length (prefix @ suffix)) :: u64) - of_nat (length suffix) = of_nat (length prefix)"
    by simp
  moreover have "unat (of_nat (length prefix) :: u64) = length prefix"
    using assms(2) by (intro unat_of_nat_u64) simp
  ultimately show ?thesis by (simp add: real_payload_def subspan_def)
qed

text \<open>The span arithmetic is inside its contract exactly when the announced size fits.\<close>

lemma real_payload_defined_iff:
  assumes "length payload < 2 ^ 63"
  shows "real_payload payload n \<noteq> None \<longleftrightarrow> unat n \<le> length payload"
proof -
  have len: "unat (of_nat (length payload) :: u64) = length payload"
    using assms by (intro unat_of_nat_u64) simp
  show ?thesis
  proof (cases "unat n \<le> length payload")
    case True
    then have "unat (of_nat (length payload) - n) = length payload - unat n"
      by (subst unat_sub) (simp_all add: word_le_nat_alt len)
    with True show ?thesis by (simp add: real_payload_def subspan_def)
  next
    case False
    then have "unat (of_nat (length payload) - n) = 2 ^ 64 + length payload - unat n"
      by (simp add: unat_sub_if' len)
    moreover have "unat n < 2 ^ 64" using unsigned_less [of n, where ?'a = nat] by simp
    ultimately show ?thesis using False assms
      by (simp add: real_payload_def subspan_def)
  qed
qed

subsection \<open>Gateway events\<close>

datatype gateway_event = GConnected | GMessage u64 bytes | GCompleted error_code

type_synonym gateway_id = nat

subsection \<open>The gateway interface\<close>

text \<open>
  \<open>detail::Gateway\<close> as a channel sees it: \<open>live\<close> (the channel's shared pointer keeps the object
  alive), whether its router is connected and still lists it, the number of the next message,
  and \<open>send\<close>. Both routers implement it; the channel code relies on nothing else.
\<close>

locale gateway_interface =
  fixes live :: "gateway_id \<Rightarrow> 'w \<Rightarrow> bool"
    and connected :: "gateway_id \<Rightarrow> 'w \<Rightarrow> bool"
    and registered :: "gateway_id \<Rightarrow> 'w \<Rightarrow> bool"
    and next_seq :: "gateway_id \<Rightarrow> 'w \<Rightarrow> u64"
    and send :: "gateway_id \<Rightarrow> u64 \<Rightarrow> bytes \<Rightarrow> 'w \<Rightarrow> int \<times> 'w"
  assumes not_connected: "live g w \<Longrightarrow> \<not> connected g w \<Longrightarrow> send g s p w = (ErrorCode_NotConnected, w)"
    and shutdown: "live g w \<Longrightarrow> connected g w \<Longrightarrow> \<not> registered g w \<Longrightarrow> send g s p w = (ErrorCode_Shutdown, w)"
    and numbered: "live g w \<Longrightarrow> connected g w \<Longrightarrow> registered g w \<Longrightarrow>
          next_seq g (snd (send g s p w)) = next_seq g w + 1"
    and other_seq: "g' \<noteq> g \<Longrightarrow> next_seq g' (snd (send g s p w)) = next_seq g' w"
    and keeps: "live g' (snd (send g s p w)) = live g' w"
          "connected g' (snd (send g s p w)) = connected g' w"
          "registered g' (snd (send g s p w)) = registered g' w"
begin

fun send_all :: "gateway_id \<Rightarrow> u64 \<Rightarrow> bytes list \<Rightarrow> 'w \<Rightarrow> int list \<times> 'w" where
  "send_all g s [] w = ([], w)"
| "send_all g s (p # ps) w =
     (let (e, w') = send g s p w; (es, w'') = send_all g s ps w' in (e # es, w''))"

lemma send_all_Cons_snd: "snd (send_all g s (p # ps) w) = snd (send_all g s ps (snd (send g s p w)))"
  by (simp add: Let_def split: prod.splits)

lemma send_all_keeps:
  "live g' (snd (send_all g s ps w)) = live g' w"
  "connected g' (snd (send_all g s ps w)) = connected g' w"
  "registered g' (snd (send_all g s ps w)) = registered g' w"
  by (induction ps arbitrary: w) (simp_all add: send_all_Cons_snd keeps del: send_all.simps(2))

lemma send_all_seq:
  "live g w \<Longrightarrow> connected g w \<Longrightarrow> registered g w \<Longrightarrow>
   next_seq g (snd (send_all g s ps w)) = next_seq g w + of_nat (length ps)"
  by (induction ps arbitrary: w) (simp_all add: send_all_Cons_snd keeps numbered del: send_all.simps(2))

lemma send_refused:
  assumes "live g w" and "\<not> (connected g w \<and> registered g w)"
  shows "\<exists>e. e \<noteq> 0 \<and> send g s p w = (e, w)"
  using assms not_connected [of g w s p] shutdown [of g w s p] by (cases "connected g w") simp_all

lemma send_all_refused:
  assumes "live g w" and "\<not> (connected g w \<and> registered g w)"
  shows "snd (send_all g s ps w) = w \<and> 0 \<notin> set (fst (send_all g s ps w))"
proof (induction ps)
  case (Cons p ps)
  obtain e where "e \<noteq> 0" and "send g s p w = (e, w)"
    using send_refused [OF assms] by blast
  with Cons show ?case by (simp split: prod.split) auto
qed simp

end

end
