(* ===== verification/Server_Router.thy ===== *)
theory Server_Router
  imports Ipc_Types
begin

text \<open>
  The server-side IPC router: src/common/ipc/server_router.cpp and the channel registration of
  server_router.hpp. Gateways are heap objects with a use count: a router keeps only weak
  pointers, which are locked (use count incremented) while an event is delivered, and the
  destructor runs when the last strong pointer goes. The pipe, the generated serializers and the
  code behind a gateway's event handler and a channel factory are arguments, gathered in
  \<open>server_env\<close>; the state those handlers own is the field \<open>app\<close>.
\<close>

subsection \<open>State\<close>

type_synonym client_id = u64

record 'h server_gateway =
  sg_tag :: u64
  sg_client_id :: client_id
  sg_next_sequence :: u64
  sg_event_handler :: "'h option"
  sg_completion_error_code :: int
  sg_use_count :: nat

record ('f, 'h, 'p, 'a) server_router =
  client_id_to_map_of_gateways :: "client_id \<rightharpoonup> (u64 \<times> gateway_id) list"
  service_id_to_channel_factory :: "u64 \<rightharpoonup> 'f"
  gateways :: "gateway_id \<rightharpoonup> 'h server_gateway"
  next_gateway :: gateway_id
  server_pipe :: 'p
  app :: 'a

record ('f, 'h, 'p, 'a) server_env =
  pipe_send :: "client_id \<Rightarrow> bytes list \<Rightarrow> 'p \<Rightarrow> int \<times> 'p"
  env_codec :: codec
  run_handler :: "'h \<Rightarrow> gateway_event \<Rightarrow> ('f, 'h, 'p, 'a) server_router \<Rightarrow>
                  int \<times> ('f, 'h, 'p, 'a) server_router"
  run_factory :: "'f \<Rightarrow> gateway_id \<Rightarrow> bytes \<Rightarrow> ('f, 'h, 'p, 'a) server_router \<Rightarrow>
                  ('f, 'h, 'p, 'a) server_router"

datatype server_pipe_event =
    PipeConnected client_id
  | PipeMessage client_id bytes
  | PipeDisconnected client_id

definition ServerRouter_make :: "'p \<Rightarrow> 'a \<Rightarrow> ('f, 'h, 'p, 'a) server_router" where
  "ServerRouter_make pipe a =
     \<lparr>client_id_to_map_of_gateways = Map.empty, service_id_to_channel_factory = Map.empty,
      gateways = Map.empty, next_gateway = 0, server_pipe = pipe, app = a\<rparr>"

definition registerChannelFactory ::
    "u64 \<Rightarrow> 'f \<Rightarrow> ('f, 'h, 'p, 'a) server_router \<Rightarrow> ('f, 'h, 'p, 'a) server_router" where
  "registerChannelFactory service_id factory w =
     w\<lparr>service_id_to_channel_factory := (service_id_to_channel_factory w)(service_id \<mapsto> factory)\<rparr>"

subsection \<open>Queries\<close>

definition isConnected :: "client_id \<Rightarrow> ('f, 'h, 'p, 'a) server_router \<Rightarrow> bool" where
  "isConnected c w \<longleftrightarrow> client_id_to_map_of_gateways w c \<noteq> None"

definition find_gateway :: "client_id \<Rightarrow> u64 \<Rightarrow> ('f, 'h, 'p, 'a) server_router \<Rightarrow> gateway_id option" where
  "find_gateway c tag w =
     (case client_id_to_map_of_gateways w c of None \<Rightarrow> None | Some m \<Rightarrow> map_of m tag)"

definition isRegisteredGateway :: "client_id \<Rightarrow> u64 \<Rightarrow> ('f, 'h, 'p, 'a) server_router \<Rightarrow> bool" where
  "isRegisteredGateway c tag w \<longleftrightarrow> find_gateway c tag w \<noteq> None"

definition gateway_alive :: "gateway_id \<Rightarrow> ('f, 'h, 'p, 'a) server_router \<Rightarrow> bool" where
  "gateway_alive g w \<longleftrightarrow> gateways w g \<noteq> None"

subsection \<open>Shared and weak pointers to gateways\<close>

definition update_gateway ::
    "gateway_id \<Rightarrow> ('h server_gateway \<Rightarrow> 'h server_gateway) \<Rightarrow>
     ('f, 'h, 'p, 'a) server_router \<Rightarrow> ('f, 'h, 'p, 'a) server_router" where
  "update_gateway g f w = w\<lparr>gateways := (gateways w)(g := map_option f (gateways w g))\<rparr>"

definition gateway_share :: "gateway_id \<Rightarrow> ('f, 'h, 'p, 'a) server_router \<Rightarrow> ('f, 'h, 'p, 'a) server_router" where
  "gateway_share g = update_gateway g (\<lambda>gw. gw\<lparr>sg_use_count := sg_use_count gw + 1\<rparr>)"

definition GatewayImpl_create ::
    "client_id \<Rightarrow> u64 \<Rightarrow> ('f, 'h, 'p, 'a) server_router \<Rightarrow> gateway_id \<times> ('f, 'h, 'p, 'a) server_router" where
  "GatewayImpl_create c tag w =
     (next_gateway w,
      w\<lparr>gateways := (gateways w)(next_gateway w \<mapsto>
          \<lparr>sg_tag = tag, sg_client_id = c, sg_next_sequence = 0, sg_event_handler = None,
           sg_completion_error_code = 0, sg_use_count = 1\<rparr>),
        next_gateway := next_gateway w + 1\<rparr>)"

definition send_to_pipe ::
    "('f, 'h, 'p, 'a) server_env \<Rightarrow> client_id \<Rightarrow> bytes list \<Rightarrow>
     ('f, 'h, 'p, 'a) server_router \<Rightarrow> int \<times> ('f, 'h, 'p, 'a) server_router" where
  "send_to_pipe env c payloads w =
     (let (err, pipe) = pipe_send env c payloads (server_pipe w) in (err, w\<lparr>server_pipe := pipe\<rparr>))"

definition send_route ::
    "('f, 'h, 'p, 'a) server_env \<Rightarrow> client_id \<Rightarrow> route \<Rightarrow> bytes list \<Rightarrow>
     ('f, 'h, 'p, 'a) server_router \<Rightarrow> int \<times> ('f, 'h, 'p, 'a) server_router" where
  "send_route env c route suffix =
     tryPerformOnSerialized (serialize (env_codec env)) route
       (\<lambda>prefix. send_to_pipe env c (prefix # suffix))"

definition onGatewayDisposal ::
    "('f, 'h, 'p, 'a) server_env \<Rightarrow> client_id \<Rightarrow> u64 \<Rightarrow> int \<Rightarrow>
     ('f, 'h, 'p, 'a) server_router \<Rightarrow> ('f, 'h, 'p, 'a) server_router" where
  "onGatewayDisposal env c tag completion_err w =
     (case client_id_to_map_of_gateways w c of
        None \<Rightarrow> w
      | Some map_of_gws \<Rightarrow>
          (let was_registered = map_of map_of_gws tag \<noteq> None;
               w1 = w\<lparr>client_id_to_map_of_gateways :=
                      (client_id_to_map_of_gateways w)(c \<mapsto> AList.delete tag map_of_gws)\<rparr>
           in if was_registered \<and> isConnected c w1
              then snd (send_route env c (RouteChannelEnd tag completion_err) [] w1)
              else w1))"

text \<open>A strong pointer goes away; the last one runs \<open>~GatewayImpl\<close>.\<close>

definition gateway_release ::
    "('f, 'h, 'p, 'a) server_env \<Rightarrow> gateway_id \<Rightarrow> ('f, 'h, 'p, 'a) server_router \<Rightarrow>
     ('f, 'h, 'p, 'a) server_router" where
  "gateway_release env g w =
     (case gateways w g of
        None \<Rightarrow> w
      | Some gw \<Rightarrow>
          (if sg_use_count gw \<le> 1
           then onGatewayDisposal env (sg_client_id gw) (sg_tag gw) (sg_completion_error_code gw)
                  (w\<lparr>gateways := (gateways w)(g := None)\<rparr>)
           else update_gateway g (\<lambda>gw. gw\<lparr>sg_use_count := sg_use_count gw - 1\<rparr>) w))"

subsection \<open>The gateway's own operations\<close>

text \<open>
  A caller holds a strong pointer, so the object exists; the \<open>None\<close> branches below stand for
  a call through a dead pointer, which the reference-count invariant excludes.
\<close>

definition gateway_send ::
    "('f, 'h, 'p, 'a) server_env \<Rightarrow> gateway_id \<Rightarrow> u64 \<Rightarrow> bytes \<Rightarrow>
     ('f, 'h, 'p, 'a) server_router \<Rightarrow> int \<times> ('f, 'h, 'p, 'a) server_router" where
  "gateway_send env g service_id payload w =
     (case gateways w g of
        None \<Rightarrow> (0, w)
      | Some gw \<Rightarrow>
          (if \<not> isConnected (sg_client_id gw) w then (ErrorCode_NotConnected, w)
           else if \<not> isRegisteredGateway (sg_client_id gw) (sg_tag gw) w then (ErrorCode_Shutdown, w)
           else send_route env (sg_client_id gw)
                  (RouteChannelMsg (sg_tag gw) (sg_next_sequence gw) service_id (of_nat (length payload)))
                  [payload]
                  (update_gateway g (\<lambda>gw. gw\<lparr>sg_next_sequence := sg_next_sequence gw + 1\<rparr>) w)))"

definition gateway_complete ::
    "gateway_id \<Rightarrow> int \<Rightarrow> ('f, 'h, 'p, 'a) server_router \<Rightarrow> ('f, 'h, 'p, 'a) server_router" where
  "gateway_complete g error_code = update_gateway g (\<lambda>gw. gw\<lparr>sg_completion_error_code := error_code\<rparr>)"

definition gateway_event ::
    "('f, 'h, 'p, 'a) server_env \<Rightarrow> gateway_id \<Rightarrow> gateway_event \<Rightarrow>
     ('f, 'h, 'p, 'a) server_router \<Rightarrow> int \<times> ('f, 'h, 'p, 'a) server_router" where
  "gateway_event env g ev w =
     (case gateways w g of
        None \<Rightarrow> (0, w)
      | Some gw \<Rightarrow> (case sg_event_handler gw of None \<Rightarrow> (0, w) | Some h \<Rightarrow> run_handler env h ev w))"

text \<open>\<open>lock()\<close> of a weak pointer, the action, and the end of the locked pointer's scope.\<close>

definition with_locked ::
    "('f, 'h, 'p, 'a) server_env \<Rightarrow> gateway_id \<Rightarrow>
     (('f, 'h, 'p, 'a) server_router \<Rightarrow> int \<times> ('f, 'h, 'p, 'a) server_router) \<Rightarrow>
     ('f, 'h, 'p, 'a) server_router \<Rightarrow> int \<times> ('f, 'h, 'p, 'a) server_router" where
  "with_locked env g action w =
     (if gateway_alive g w
      then (let (r, w1) = action (gateway_share g w) in (r, gateway_release env g w1))
      else (0, w))"

definition findAndActOnRegisteredGateway ::
    "('f, 'h, 'p, 'a) server_env \<Rightarrow> client_id \<Rightarrow> u64 \<Rightarrow>
     (gateway_id \<Rightarrow> ('f, 'h, 'p, 'a) server_router \<Rightarrow> int \<times> ('f, 'h, 'p, 'a) server_router) \<Rightarrow>
     ('f, 'h, 'p, 'a) server_router \<Rightarrow> int \<times> ('f, 'h, 'p, 'a) server_router" where
  "findAndActOnRegisteredGateway env c tag action w =
     (case find_gateway c tag w of None \<Rightarrow> (0, w) | Some g \<Rightarrow> with_locked env g (action g) w)"

definition onGatewaySubscription ::
    "('f, 'h, 'p, 'a) server_env \<Rightarrow> client_id \<Rightarrow> u64 \<Rightarrow>
     ('f, 'h, 'p, 'a) server_router \<Rightarrow> ('f, 'h, 'p, 'a) server_router" where
  "onGatewaySubscription env c tag w =
     (if isConnected c w
      then snd (findAndActOnRegisteredGateway env c tag (\<lambda>g. gateway_event env g GConnected) w)
      else w)"

definition gateway_subscribe ::
    "('f, 'h, 'p, 'a) server_env \<Rightarrow> gateway_id \<Rightarrow> 'h option \<Rightarrow>
     ('f, 'h, 'p, 'a) server_router \<Rightarrow> ('f, 'h, 'p, 'a) server_router" where
  "gateway_subscribe env g handler w =
     (case gateways w g of
        None \<Rightarrow> w
      | Some gw \<Rightarrow> onGatewaySubscription env (sg_client_id gw) (sg_tag gw)
                     (update_gateway g (\<lambda>gw. gw\<lparr>sg_event_handler := handler\<rparr>) w))"

subsection \<open>Pipe events\<close>

definition handleRouteConnect ::
    "('f, 'h, 'p, 'a) server_env \<Rightarrow> client_id \<Rightarrow>
     ('f, 'h, 'p, 'a) server_router \<Rightarrow> int \<times> ('f, 'h, 'p, 'a) server_router" where
  "handleRouteConnect env c w =
     (let (err, w1) = send_route env c (RouteConnect VERSION_MAJOR VERSION_MINOR 0) [] w
      in (err,
          if err = 0 \<and> client_id_to_map_of_gateways w1 c = None
          then w1\<lparr>client_id_to_map_of_gateways := (client_id_to_map_of_gateways w1)(c \<mapsto> [])\<rparr>
          else w1))"

definition register_gateway ::
    "client_id \<Rightarrow> u64 \<Rightarrow> gateway_id \<Rightarrow> ('f, 'h, 'p, 'a) server_router \<Rightarrow> ('f, 'h, 'p, 'a) server_router" where
  "register_gateway c tag g w =
     w\<lparr>client_id_to_map_of_gateways := (client_id_to_map_of_gateways w)
         (c := map_option (AList.update tag g) (client_id_to_map_of_gateways w c))\<rparr>"

definition unregister_gateway ::
    "client_id \<Rightarrow> u64 \<Rightarrow> ('f, 'h, 'p, 'a) server_router \<Rightarrow> ('f, 'h, 'p, 'a) server_router" where
  "unregister_gateway c tag w =
     w\<lparr>client_id_to_map_of_gateways := (client_id_to_map_of_gateways w)
         (c := map_option (AList.delete tag) (client_id_to_map_of_gateways w c))\<rparr>"

text \<open>The very first message of a sequence opens a channel; any other one is ignored.\<close>

definition open_channel ::
    "('f, 'h, 'p, 'a) server_env \<Rightarrow> client_id \<Rightarrow> u64 \<Rightarrow> 'f \<Rightarrow> bytes \<Rightarrow>
     ('f, 'h, 'p, 'a) server_router \<Rightarrow> ('f, 'h, 'p, 'a) server_router" where
  "open_channel env c tag factory payload w =
     (let (g, w1) = GatewayImpl_create c tag w;
          w2 = run_factory env factory g payload (register_gateway c tag g w1)
      in gateway_release env g w2)"

definition lock_registered ::
    "client_id \<Rightarrow> u64 \<Rightarrow> ('f, 'h, 'p, 'a) server_router \<Rightarrow> gateway_id option" where
  "lock_registered c tag w =
     (case find_gateway c tag w of
        None \<Rightarrow> None | Some g \<Rightarrow> (if gateway_alive g w then Some g else None))"

definition route_real_payload ::
    "('f, 'h, 'p, 'a) server_env \<Rightarrow> client_id \<Rightarrow> u64 \<Rightarrow> u64 \<Rightarrow> u64 \<Rightarrow> bytes \<Rightarrow>
     ('f, 'h, 'p, 'a) server_router \<Rightarrow> int \<times> ('f, 'h, 'p, 'a) server_router" where
  "route_real_payload env c tag sequence service_id msg_real_payload w =
     (if \<not> isConnected c w then (0, w)
      else (case lock_registered c tag w of
          Some g \<Rightarrow> with_locked env g (gateway_event env g (GMessage sequence msg_real_payload)) w
        | None \<Rightarrow>
            (if sequence = 0
             then (case service_id_to_channel_factory w service_id of
                     Some factory \<Rightarrow> (0, open_channel env c tag factory msg_real_payload w)
                   | None \<Rightarrow> (0, w))
             else (0, w))))"

definition handleRouteChannelMsg ::
    "('f, 'h, 'p, 'a) server_env \<Rightarrow> client_id \<Rightarrow> u64 \<Rightarrow> u64 \<Rightarrow> u64 \<Rightarrow> u64 \<Rightarrow> bytes \<Rightarrow>
     ('f, 'h, 'p, 'a) server_router \<Rightarrow> (int \<times> ('f, 'h, 'p, 'a) server_router) option" where
  "handleRouteChannelMsg env c tag sequence service_id payload_size payload w =
     (case real_payload payload payload_size of
        None \<Rightarrow> None
      | Some msg_real_payload \<Rightarrow>
          Some (route_real_payload env c tag sequence service_id msg_real_payload w))"

definition handleRouteChannelEnd ::
    "('f, 'h, 'p, 'a) server_env \<Rightarrow> client_id \<Rightarrow> u64 \<Rightarrow> int \<Rightarrow>
     ('f, 'h, 'p, 'a) server_router \<Rightarrow> int \<times> ('f, 'h, 'p, 'a) server_router" where
  "handleRouteChannelEnd env c tag error_code w =
     (if isConnected c w
      then findAndActOnRegisteredGateway env c tag
             (\<lambda>g w1. gateway_event env g (GCompleted error_code) (unregister_gateway c tag w1)) w
      else (0, w))"

fun complete_all ::
    "('f, 'h, 'p, 'a) server_env \<Rightarrow> (u64 \<times> gateway_id) list \<Rightarrow>
     ('f, 'h, 'p, 'a) server_router \<Rightarrow> ('f, 'h, 'p, 'a) server_router" where
  "complete_all env [] w = w"
| "complete_all env ((tag, g) # gws) w =
     complete_all env gws
       (snd (with_locked env g (gateway_event env g (GCompleted ErrorCode_Disconnected)) w))"

definition handlePipeDisconnected ::
    "('f, 'h, 'p, 'a) server_env \<Rightarrow> client_id \<Rightarrow>
     ('f, 'h, 'p, 'a) server_router \<Rightarrow> int \<times> ('f, 'h, 'p, 'a) server_router" where
  "handlePipeDisconnected env c w =
     (case client_id_to_map_of_gateways w c of
        None \<Rightarrow> (0, w)
      | Some local_map_of_gateways \<Rightarrow>
          (0, complete_all env local_map_of_gateways
                (w\<lparr>client_id_to_map_of_gateways := (client_id_to_map_of_gateways w)(c := None)\<rparr>)))"

definition handlePipeMessage ::
    "('f, 'h, 'p, 'a) server_env \<Rightarrow> client_id \<Rightarrow> bytes \<Rightarrow>
     ('f, 'h, 'p, 'a) server_router \<Rightarrow> (int \<times> ('f, 'h, 'p, 'a) server_router) option" where
  "handlePipeMessage env c payload w =
     (case deserialize (env_codec env) payload of
        None \<Rightarrow> Some (EINVAL, w)
      | Some RouteEmpty \<Rightarrow> Some (EINVAL, w)
      | Some (RouteConnect major minor err) \<Rightarrow> Some (handleRouteConnect env c w)
      | Some (RouteChannelMsg tag sequence service_id payload_size) \<Rightarrow>
          handleRouteChannelMsg env c tag sequence service_id payload_size payload w
      | Some (RouteChannelEnd tag err) \<Rightarrow> Some (handleRouteChannelEnd env c tag err w))"

text \<open>The handler \<open>start\<close> gives the pipe; \<open>None\<close> is a span taken outside its contract.\<close>

fun handlePipeEvent ::
    "('f, 'h, 'p, 'a) server_env \<Rightarrow> server_pipe_event \<Rightarrow>
     ('f, 'h, 'p, 'a) server_router \<Rightarrow> (int \<times> ('f, 'h, 'p, 'a) server_router) option" where
  "handlePipeEvent env (PipeConnected c) w = Some (0, w)"
| "handlePipeEvent env (PipeMessage c payload) w = handlePipeMessage env c payload w"
| "handlePipeEvent env (PipeDisconnected c) w = Some (handlePipeDisconnected env c w)"

subsection \<open>Channel factories\<close>

text \<open>
  The factory \<open>registerChannel\<close> registers: deserialize the first payload, and only then make a
  channel (one more strong pointer to the gateway) and hand it to the service's handler.
\<close>

definition registerChannel_factory ::
    "(bytes \<Rightarrow> 'i option) \<Rightarrow>
     (gateway_id \<Rightarrow> 'i \<Rightarrow> ('f, 'h, 'p, 'a) server_router \<Rightarrow> ('f, 'h, 'p, 'a) server_router) \<Rightarrow>
     gateway_id \<Rightarrow> bytes \<Rightarrow> ('f, 'h, 'p, 'a) server_router \<Rightarrow> ('f, 'h, 'p, 'a) server_router" where
  "registerChannel_factory deserialize_input new_ch_handler g payload w =
     (case deserialize_input payload of
        None \<Rightarrow> w
      | Some input \<Rightarrow> new_ch_handler g input (gateway_share g w))"

subsection \<open>The well-formedness invariant\<close>

text \<open>
  \<open>owners\<close> counts the channels the application state holds for a gateway, \<open>H\<close> the strong
  pointers held on the call stack. Every registration names a live gateway with that very tag and
  client, and use counts are exact: nothing dangles and nothing leaks.
\<close>

definition registrations_ok :: "('f, 'h, 'p, 'a) server_router \<Rightarrow> bool" where
  "registrations_ok w \<longleftrightarrow>
     (\<forall>c m. client_id_to_map_of_gateways w c = Some m \<longrightarrow> distinct_keys m) \<and>
     (\<forall>c tag g. find_gateway c tag w = Some g \<longrightarrow>
        (\<exists>gw. gateways w g = Some gw \<and> sg_tag gw = tag \<and> sg_client_id gw = c))"

definition use_counts_ok ::
    "('a \<Rightarrow> gateway_id \<Rightarrow> nat) \<Rightarrow> (gateway_id \<Rightarrow> nat) \<Rightarrow> ('f, 'h, 'p, 'a) server_router \<Rightarrow> bool" where
  "use_counts_ok owners H w \<longleftrightarrow>
     (\<forall>g. case gateways w g of
            None \<Rightarrow> H g + owners (app w) g = 0
          | Some gw \<Rightarrow> sg_use_count gw = H g + owners (app w) g \<and> 0 < sg_use_count gw) \<and>
     (\<forall>g. next_gateway w \<le> g \<longrightarrow> gateways w g = None)"

definition server_inv ::
    "('a \<Rightarrow> gateway_id \<Rightarrow> nat) \<Rightarrow> (gateway_id \<Rightarrow> nat) \<Rightarrow> ('f, 'h, 'p, 'a) server_router \<Rightarrow> bool" where
  "server_inv owners H w \<longleftrightarrow> registrations_ok w \<and> use_counts_ok owners H w"

end
