(* ===== verification/Server_Router_Inv.thy ===== *)
theory Server_Router_Inv
  imports Server_Router
begin

text \<open>
  What the server router promises for every pipe event, whatever the services behind it do, as
  long as they keep their side of the contract (locale \<open>server_app\<close>): registrations stay
  unique and live, and use counts stay exact. Then the per-branch behaviour of each operation.
\<close>

subsection \<open>Frames\<close>

lemma send_to_pipe_frame [simp]:
  "client_id_to_map_of_gateways (snd (send_to_pipe env c ps w)) = client_id_to_map_of_gateways w"
  "service_id_to_channel_factory (snd (send_to_pipe env c ps w)) = service_id_to_channel_factory w"
  "gateways (snd (send_to_pipe env c ps w)) = gateways w"
  "next_gateway (snd (send_to_pipe env c ps w)) = next_gateway w"
  "app (snd (send_to_pipe env c ps w)) = app w"
  by (simp_all add: send_to_pipe_def split: prod.split)

lemma send_route_frame [simp]:
  "client_id_to_map_of_gateways (snd (send_route env c r ps w)) = client_id_to_map_of_gateways w"
  "service_id_to_channel_factory (snd (send_route env c r ps w)) = service_id_to_channel_factory w"
  "gateways (snd (send_route env c r ps w)) = gateways w"
  "next_gateway (snd (send_route env c r ps w)) = next_gateway w"
  "app (snd (send_route env c r ps w)) = app w"
  by (simp_all add: send_route_def tryPerformOnSerialized_def split: option.split)

lemma update_gateway_frame [simp]:
  "client_id_to_map_of_gateways (update_gateway g f w) = client_id_to_map_of_gateways w"
  "service_id_to_channel_factory (update_gateway g f w) = service_id_to_channel_factory w"
  "gateways (update_gateway g f w) = (gateways w)(g := map_option f (gateways w g))"
  "next_gateway (update_gateway g f w) = next_gateway w"
  "server_pipe (update_gateway g f w) = server_pipe w"
  "app (update_gateway g f w) = app w"
  by (simp_all add: update_gateway_def)

lemma find_gateway_frame [simp]:
  "find_gateway c t (w\<lparr>gateways := x\<rparr>) = find_gateway c t w"
  "find_gateway c t (w\<lparr>server_pipe := y\<rparr>) = find_gateway c t w"
  "find_gateway c t (w\<lparr>app := z\<rparr>) = find_gateway c t w"
  "find_gateway c t (update_gateway g f w) = find_gateway c t w"
  "find_gateway c t (gateway_share g w) = find_gateway c t w"
  by (simp_all add: find_gateway_def gateway_share_def)

lemma find_gateway_cong:
  "client_id_to_map_of_gateways w' = client_id_to_map_of_gateways w \<Longrightarrow> find_gateway c t w' = find_gateway c t w"
  by (simp add: find_gateway_def)

lemma isConnected_cong:
  "client_id_to_map_of_gateways w' = client_id_to_map_of_gateways w \<Longrightarrow> isConnected c w' = isConnected c w"
  by (simp add: isConnected_def)

subsection \<open>The invariant under the pointer operations\<close>

lemma server_invI:
  assumes "\<And>c m. client_id_to_map_of_gateways w c = Some m \<Longrightarrow> distinct_keys m"
    and "\<And>c tag g. find_gateway c tag w = Some g \<Longrightarrow>
           \<exists>gw. gateways w g = Some gw \<and> sg_tag gw = tag \<and> sg_client_id gw = c"
    and "\<And>g. gateways w g = None \<Longrightarrow> H g + owners (app w) g = 0"
    and "\<And>g gw. gateways w g = Some gw \<Longrightarrow>
           sg_use_count gw = H g + owners (app w) g \<and> 0 < sg_use_count gw"
    and "\<And>g. next_gateway w \<le> g \<Longrightarrow> gateways w g = None"
  shows "server_inv owners H w"
proof -
  have "case gateways w g of None \<Rightarrow> H g + owners (app w) g = 0
      | Some gw \<Rightarrow> sg_use_count gw = H g + owners (app w) g \<and> 0 < sg_use_count gw" for g
  proof (cases "gateways w g")
    case None
    with assms(3) show ?thesis by simp
  next
    case (Some gw)
    show ?thesis unfolding Some option.case by (rule assms(4) [OF Some])
  qed
  with assms(1,2,5) show ?thesis
    unfolding server_inv_def registrations_ok_def use_counts_ok_def by blast
qed

lemma server_invD:
  assumes "server_inv owners H w"
  shows "client_id_to_map_of_gateways w c = Some m \<Longrightarrow> distinct_keys m"
    and "find_gateway c tag w = Some g \<Longrightarrow>
           \<exists>gw. gateways w g = Some gw \<and> sg_tag gw = tag \<and> sg_client_id gw = c"
    and "gateways w g = None \<Longrightarrow> H g = 0 \<and> owners (app w) g = 0"
    and "gateways w g = Some gw \<Longrightarrow> sg_use_count gw = H g + owners (app w) g \<and> 0 < sg_use_count gw"
    and "next_gateway w \<le> g \<Longrightarrow> gateways w g = None"
proof -
  note inv = assms [unfolded server_inv_def registrations_ok_def use_counts_ok_def]
  show "client_id_to_map_of_gateways w c = Some m \<Longrightarrow> distinct_keys m"
    and "find_gateway c tag w = Some g \<Longrightarrow>
           \<exists>gw. gateways w g = Some gw \<and> sg_tag gw = tag \<and> sg_client_id gw = c"
    and "next_gateway w \<le> g \<Longrightarrow> gateways w g = None"
    using inv by blast+
  from inv have c: "case gateways w g of None \<Rightarrow> H g + owners (app w) g = 0
      | Some gw \<Rightarrow> sg_use_count gw = H g + owners (app w) g \<and> 0 < sg_use_count gw" by blast
  from c show "gateways w g = None \<Longrightarrow> H g = 0 \<and> owners (app w) g = 0" by simp
  show "sg_use_count gw = H g + owners (app w) g \<and> 0 < sg_use_count gw" if "gateways w g = Some gw"
    using c unfolding that option.case .
qed

text \<open>The invariant reads the registrations, the heap and the application only.\<close>

lemma server_inv_cong:
  assumes "server_inv owners H w"
    and "client_id_to_map_of_gateways w' = client_id_to_map_of_gateways w"
    and "gateways w' = gateways w" and "next_gateway w' = next_gateway w"
    and "owners (app w') = owners (app w)"
  shows "server_inv owners H w'"
proof (rule server_invI)
  note inv = server_invD [OF assms(1)]
  show "\<exists>gw. gateways w' g = Some gw \<and> sg_tag gw = tag \<and> sg_client_id gw = c"
    if "find_gateway c tag w' = Some g" for c tag g
    using that inv(2) assms(3) by (simp add: find_gateway_cong [OF assms(2)])
  show "distinct_keys m" if "client_id_to_map_of_gateways w' c = Some m" for c m
    using that inv(1) assms(2) by simp
  show "H g + owners (app w') g = 0" if "gateways w' g = None" for g
    using that inv(3) assms(3,5) by simp
  show "sg_use_count gw = H g + owners (app w') g \<and> 0 < sg_use_count gw"
    if "gateways w' g = Some gw" for g gw
    using that inv(4) [of g gw] unfolding assms(3,5) by blast
  show "gateways w' g = None" if "next_gateway w' \<le> g" for g
    using that inv(5) assms(3,4) by simp
qed

text \<open>It also survives any loss of registrations.\<close>

lemma server_inv_fewer:
  assumes inv: "server_inv owners H w"
    and reg: "\<And>c m. client_id_to_map_of_gateways w' c = Some m \<Longrightarrow> distinct_keys m"
      "\<And>c t g. find_gateway c t w' = Some g \<Longrightarrow> find_gateway c t w = Some g"
    and same: "gateways w' = gateways w" "next_gateway w' = next_gateway w" "app w' = app w"
  shows "server_inv owners H w'"
proof (rule server_invI)
  note inv' = server_invD [OF inv]
  show "distinct_keys m" if "client_id_to_map_of_gateways w' c = Some m" for c m
    using that by (rule reg(1))
  show "\<exists>gw. gateways w' g = Some gw \<and> sg_tag gw = tag \<and> sg_client_id gw = c"
    if "find_gateway c tag w' = Some g" for c tag g
    using inv'(2) [OF reg(2) [OF that]] same by simp
  show "H g + owners (app w') g = 0" if "gateways w' g = None" for g
    using that inv'(3) same by simp
  show "sg_use_count gw = H g + owners (app w') g \<and> 0 < sg_use_count gw"
    if "gateways w' g = Some gw" for g gw
    using that inv'(4) [of g gw] unfolding same by blast
  show "gateways w' g = None" if "next_gateway w' \<le> g" for g
    using that inv'(5) same by simp
qed

lemma send_route_inv [inv_intros]: "server_inv owners H w \<Longrightarrow> server_inv owners H (snd (send_route env c r ps w))"
  by (rule server_inv_cong) simp_all

lemma held_alive: "server_inv owners H w \<Longrightarrow> 0 < H g \<Longrightarrow> gateway_alive g w"
  unfolding gateway_alive_def using server_invD(3) by force

lemma registered_alive: "server_inv owners H w \<Longrightarrow> find_gateway c tag w = Some g \<Longrightarrow> gateway_alive g w"
  unfolding gateway_alive_def using server_invD(2) by fastforce

lemma update_gateway_inv:
  assumes "server_inv owners H w"
    and "\<And>gw. sg_tag (f gw) = sg_tag gw \<and> sg_client_id (f gw) = sg_client_id gw \<and> sg_use_count (f gw) = sg_use_count gw"
  shows "server_inv owners H (update_gateway g f w)"
proof (rule server_invI)
  note inv = server_invD [OF assms(1)]
  show "distinct_keys m" if "client_id_to_map_of_gateways (update_gateway g f w) c = Some m" for c m
    using inv(1) that by simp
  show "\<exists>gw. gateways (update_gateway g f w) g' = Some gw \<and> sg_tag gw = tag \<and> sg_client_id gw = c"
    if "find_gateway c tag (update_gateway g f w) = Some g'" for c tag g'
  proof -
    from that have "find_gateway c tag w = Some g'" by (simp add: find_gateway_def)
    with inv(2) assms(2) show ?thesis by fastforce
  qed
  show "H g' + owners (app (update_gateway g f w)) g' = 0" if "gateways (update_gateway g f w) g' = None" for g'
    using inv(3) [of g'] that by (auto split: if_splits)
  show "sg_use_count gw = H g' + owners (app (update_gateway g f w)) g' \<and> 0 < sg_use_count gw"
    if "gateways (update_gateway g f w) g' = Some gw" for g' gw
    using inv(4) [of g'] that assms(2) by (auto split: if_splits)
  show "gateways (update_gateway g f w) g' = None" if "next_gateway (update_gateway g f w) \<le> g'" for g'
    using inv(5) [of g'] that by auto
qed

lemma gateway_share_inv [inv_intros]:
  assumes "server_inv owners H w" and "gateway_alive g w"
  shows "server_inv owners (H(g := H g + 1)) (gateway_share g w)"
proof (rule server_invI)
  note inv = server_invD [OF assms(1)]
  show "distinct_keys m" if "client_id_to_map_of_gateways (gateway_share g w) c = Some m" for c m
    using inv(1) that by (simp add: gateway_share_def)
  show "\<exists>gw. gateways (gateway_share g w) g' = Some gw \<and> sg_tag gw = tag \<and> sg_client_id gw = c"
    if "find_gateway c tag (gateway_share g w) = Some g'" for c tag g'
  proof -
    from that have "find_gateway c tag w = Some g'" by (simp add: find_gateway_def gateway_share_def)
    with inv(2) show ?thesis by (fastforce simp: gateway_share_def)
  qed
  show "(H(g := H g + 1)) g' + owners (app (gateway_share g w)) g' = 0" if "gateways (gateway_share g w) g' = None" for g'
    using inv(3) [of g'] that assms(2) by (auto simp: gateway_share_def gateway_alive_def split: if_splits)
  show "sg_use_count gw = (H(g := H g + 1)) g' + owners (app (gateway_share g w)) g' \<and> 0 < sg_use_count gw"
    if "gateways (gateway_share g w) g' = Some gw" for g' gw
    using inv(4) [of g'] that by (auto simp: gateway_share_def split: if_splits)
  show "gateways (gateway_share g w) g' = None" if "next_gateway (gateway_share g w) \<le> g'" for g'
    using inv(5) [of g'] that by (auto simp: gateway_share_def)
qed

subsection \<open>Disposal\<close>

lemma onGatewayDisposal_frame [simp]:
  "gateways (onGatewayDisposal env c t e w) = gateways w"
  "next_gateway (onGatewayDisposal env c t e w) = next_gateway w"
  "app (onGatewayDisposal env c t e w) = app w"
  "service_id_to_channel_factory (onGatewayDisposal env c t e w) = service_id_to_channel_factory w"
  by (simp_all add: onGatewayDisposal_def Let_def split: option.split)

lemma onGatewayDisposal_maps:
  "client_id_to_map_of_gateways (onGatewayDisposal env c t e w) =
   (client_id_to_map_of_gateways w)(c := map_option (AList.delete t) (client_id_to_map_of_gateways w c))"
  by (auto simp: onGatewayDisposal_def Let_def split: option.split)

lemma find_gateway_delete:
  "client_id_to_map_of_gateways w' =
     (client_id_to_map_of_gateways w)(c := map_option (AList.delete t) (client_id_to_map_of_gateways w c)) \<Longrightarrow>
   find_gateway c' t' w' = (if c' = c \<and> t' = t then None else find_gateway c' t' w)"
  by (auto simp: find_gateway_def split: option.splits)

lemmas find_gateway_disposed = find_gateway_delete [OF onGatewayDisposal_maps]

lemma gateway_release_last_inv:
  assumes inv: "server_inv owners H w" and gw: "gateways w g = Some gw"
    and one: "H g = 1" "owners (app w) g = 0"
  shows "server_inv owners (H(g := 0))
           (onGatewayDisposal env (sg_client_id gw) (sg_tag gw) e (w\<lparr>gateways := (gateways w)(g := None)\<rparr>))"
    (is "server_inv _ _ (onGatewayDisposal _ _ _ _ ?w)")
proof (rule server_invI)
  note inv' = server_invD [OF inv]
  let ?d = "onGatewayDisposal env (sg_client_id gw) (sg_tag gw) e ?w"
  show "distinct_keys m" if "client_id_to_map_of_gateways ?d c = Some m" for c m
    using inv'(1) that by (auto simp: onGatewayDisposal_maps split: if_splits)
  show "\<exists>gw. gateways ?d g' = Some gw \<and> sg_tag gw = tag \<and> sg_client_id gw = c"
    if "find_gateway c tag ?d = Some g'" for c tag g'
  proof -
    have "client_id_to_map_of_gateways ?d = (client_id_to_map_of_gateways w)
        (sg_client_id gw := map_option (AList.delete (sg_tag gw)) (client_id_to_map_of_gateways w (sg_client_id gw)))"
      by (simp add: onGatewayDisposal_maps)
    from that [unfolded find_gateway_delete [OF this]]
    have f: "find_gateway c tag w = Some g'" and ne: "\<not> (c = sg_client_id gw \<and> tag = sg_tag gw)"
      by (simp_all split: if_splits)
    from inv'(2) [OF f] gw ne have "g' \<noteq> g" by auto
    with inv'(2) [OF f] show ?thesis by simp
  qed
  show "(H(g := 0)) g' + owners (app ?d) g' = 0" if "gateways ?d g' = None" for g'
    using inv'(3) [of g'] that one by (auto split: if_splits)
  show "sg_use_count gw' = (H(g := 0)) g' + owners (app ?d) g' \<and> 0 < sg_use_count gw'"
    if "gateways ?d g' = Some gw'" for g' gw'
    using inv'(4) [of g'] that by (auto split: if_splits)
  show "gateways ?d g' = None" if "next_gateway ?d \<le> g'" for g'
    using inv'(5) [of g'] that by auto
qed

lemma gateway_release_inv [inv_intros]:
  assumes inv: "server_inv owners H w" and held: "0 < H g"
  shows "server_inv owners (H(g := H g - 1)) (gateway_release env g w)"
proof -
  note inv' = server_invD [OF inv]
  obtain gw where gw: "gateways w g = Some gw"
    using held_alive [OF inv held] by (auto simp: gateway_alive_def)
  have count: "sg_use_count gw = H g + owners (app w) g" using inv'(4) [OF gw] by simp
  show ?thesis
  proof (cases "sg_use_count gw \<le> 1")
    case True
    with count held have "H g = 1" "owners (app w) g = 0" by simp_all
    with gateway_release_last_inv [OF inv gw this] True gw show ?thesis
      by (simp add: gateway_release_def)
  next
    case False
    let ?w = "update_gateway g (\<lambda>gw. gw\<lparr>sg_use_count := sg_use_count gw - 1\<rparr>) w"
    have "server_inv owners (H(g := H g - 1)) ?w"
    proof (rule server_invI)
      show "distinct_keys m" if "client_id_to_map_of_gateways ?w c = Some m" for c m
        using inv'(1) that by simp
      show "\<exists>gw. gateways ?w g' = Some gw \<and> sg_tag gw = tag \<and> sg_client_id gw = c"
        if "find_gateway c tag ?w = Some g'" for c tag g'
        using inv'(2) [of c tag g'] that by (fastforce simp: find_gateway_def)
      show "(H(g := H g - 1)) g' + owners (app ?w) g' = 0" if "gateways ?w g' = None" for g'
        using inv'(3) [of g'] that gw by (auto split: if_splits)
      show "sg_use_count gw' = (H(g := H g - 1)) g' + owners (app ?w) g' \<and> 0 < sg_use_count gw'"
        if "gateways ?w g' = Some gw'" for g' gw'
        using inv'(4) [of g'] that gw False held by (auto split: if_splits)
      show "gateways ?w g' = None" if "next_gateway ?w \<le> g'" for g'
        using inv'(5) [of g'] that by auto
    qed
    with False gw show ?thesis by (simp add: gateway_release_def)
  qed
qed

end
