(* ===== verification/Server_App.thy ===== *)
theory Server_App
  imports Server_Router_Inv
begin

text \<open>
  The contract between the server router and the services it hosts, as a locale: a service's
  event handler and channel factory keep the router's invariant (in particular they release
  exactly the strong pointers they own). Under it every pipe event keeps the invariant. Then the
  behaviour of the router's operations branch by branch, which needs no contract.
\<close>

subsection \<open>Operations that run no service code\<close>

lemma gateway_send_inv [inv_intros]:
  "server_inv owners H w \<Longrightarrow> server_inv owners H (snd (gateway_send env g s p w))"
  unfolding gateway_send_def
  by (auto split: option.split intro!: send_route_inv update_gateway_inv)

lemma gateway_complete_inv [inv_intros]:
  "server_inv owners H w \<Longrightarrow> server_inv owners H (gateway_complete g e w)"
  unfolding gateway_complete_def by (rule update_gateway_inv) simp_all

lemma set_handler_inv:
  "server_inv owners H w \<Longrightarrow> server_inv owners H (update_gateway g (\<lambda>gw. gw\<lparr>sg_event_handler := h\<rparr>) w)"
  by (rule update_gateway_inv) simp_all

lemma handleRouteConnect_inv [inv_intros]:
  assumes inv: "server_inv owners H w"
  shows "server_inv owners H (snd (handleRouteConnect env c w))"
proof -
  obtain err w1 where s: "send_route env c (RouteConnect VERSION_MAJOR VERSION_MINOR 0) [] w = (err, w1)"
    by fastforce
  with send_route_inv [OF inv] have i1: "server_inv owners H w1" by (metis snd_conv)
  note inv1 = server_invD [OF i1]
  show ?thesis
  proof (cases "err = 0 \<and> client_id_to_map_of_gateways w1 c = None")
    case True
    let ?w = "w1\<lparr>client_id_to_map_of_gateways := (client_id_to_map_of_gateways w1)(c \<mapsto> [])\<rparr>"
    have f: "find_gateway c' t ?w = find_gateway c' t w1" for c' t
      using True by (simp add: find_gateway_def)
    have "server_inv owners H ?w"
      by (rule server_inv_fewer [OF i1]) (use inv1(1) in \<open>auto simp: f split: if_splits\<close>)
    with True s show ?thesis by (simp add: handleRouteConnect_def)
  next
    case False
    with i1 s show ?thesis by (auto simp: handleRouteConnect_def)
  qed
qed

lemma find_unregistered:
  "find_gateway c' t' (unregister_gateway c t w) = (if c' = c \<and> t' = t then None else find_gateway c' t' w)"
  by (rule find_gateway_delete) (simp add: unregister_gateway_def)

lemma unregister_frame [simp]:
  "gateways (unregister_gateway c t w) = gateways w"
  "next_gateway (unregister_gateway c t w) = next_gateway w"
  "app (unregister_gateway c t w) = app w"
  "server_pipe (unregister_gateway c t w) = server_pipe w"
  "isConnected c' (unregister_gateway c t w) = isConnected c' w"
  by (auto simp: unregister_gateway_def isConnected_def)

lemma unregister_inv [inv_intros]:
  assumes inv: "server_inv owners H w"
  shows "server_inv owners H (unregister_gateway c t w)"
proof (rule server_inv_fewer [OF inv])
  show "distinct_keys m" if "client_id_to_map_of_gateways (unregister_gateway c t w) c' = Some m" for c' m
    using server_invD(1) [OF inv] that by (auto simp: unregister_gateway_def split: if_splits)
qed (simp_all add: find_unregistered split: if_splits)

lemma drop_client_inv:
  assumes inv: "server_inv owners H w"
  shows "server_inv owners H (w\<lparr>client_id_to_map_of_gateways := (client_id_to_map_of_gateways w)(c := None)\<rparr>)"
    (is "server_inv _ _ ?w")
proof (rule server_inv_fewer [OF inv])
  show "distinct_keys m" if "client_id_to_map_of_gateways ?w c' = Some m" for c' m
    using server_invD(1) [OF inv] that by (auto split: if_splits)
  show "find_gateway c' t w = Some g" if "find_gateway c' t ?w = Some g" for c' t g
    using that by (simp add: find_gateway_def split: if_splits)
qed simp_all

text \<open>A fresh gateway, registered, held by the caller.\<close>

lemma create_and_register_inv:
  assumes inv: "server_inv owners H w" and con: "isConnected c w"
    and new: "GatewayImpl_create c tag w = (g, w1)"
  shows "server_inv owners (H(g := H g + 1)) (register_gateway c tag g w1)" (is "server_inv _ _ ?w")
    and "H g = 0"
proof -
  note inv' = server_invD [OF inv]
  have g: "g = next_gateway w" and w1: "w1 = w\<lparr>gateways := (gateways w)(g \<mapsto>
          \<lparr>sg_tag = tag, sg_client_id = c, sg_next_sequence = 0, sg_event_handler = None,
           sg_completion_error_code = 0, sg_use_count = 1\<rparr>), next_gateway := next_gateway w + 1\<rparr>"
    using new by (auto simp: GatewayImpl_create_def)
  have none: "gateways w g = None" using inv'(5) g by simp
  then show H: "H g = 0" using inv'(3) by simp
  have own: "owners (app w) g = 0" using inv'(3) none by simp
  have f: "find_gateway c' t ?w = (if c' = c \<and> t = tag then Some g else find_gateway c' t w)" for c' t
    using con by (auto simp: find_gateway_def register_gateway_def w1 isConnected_def split: option.splits)
  show "server_inv owners (H(g := H g + 1)) ?w"
  proof (rule server_invI)
    show "distinct_keys m" if "client_id_to_map_of_gateways ?w c' = Some m" for c' m
      using inv'(1) that by (auto simp: register_gateway_def w1 split: if_splits)
    show "\<exists>gw. gateways ?w g' = Some gw \<and> sg_tag gw = t \<and> sg_client_id gw = c'"
      if "find_gateway c' t ?w = Some g'" for c' t g'
      using inv'(2) [of c' t g'] that [unfolded f] none
      by (auto simp: register_gateway_def w1 split: if_splits)
    show "(H(g := H g + 1)) g' + owners (app ?w) g' = 0" if "gateways ?w g' = None" for g'
      using inv'(3) [of g'] that by (auto simp: register_gateway_def w1 split: if_splits)
    show "sg_use_count gw = (H(g := H g + 1)) g' + owners (app ?w) g' \<and> 0 < sg_use_count gw"
      if "gateways ?w g' = Some gw" for g' gw
      using inv'(4) [of g'] that H own by (auto simp: register_gateway_def w1 split: if_splits)
    show "gateways ?w g' = None" if "next_gateway ?w \<le> g'" for g'
      using inv'(5) [of g'] that g by (auto simp: register_gateway_def w1)
  qed
qed

subsection \<open>The service contract\<close>

locale server_app =
  fixes env :: "('f, 'h, 'p, 'a) server_env"
    and owners :: "'a \<Rightarrow> gateway_id \<Rightarrow> nat"
  assumes handler_inv: "server_inv owners H w \<Longrightarrow> server_inv owners H (snd (run_handler env h ev w))"
    and factory_inv: "server_inv owners H w \<Longrightarrow> 0 < H g \<Longrightarrow> server_inv owners H (run_factory env f g payload w)"
begin

lemma gateway_event_inv: "server_inv owners H w \<Longrightarrow> server_inv owners H (snd (gateway_event env g ev w))"
  unfolding gateway_event_def by (auto split: option.split intro: handler_inv)

lemma with_locked_inv:
  assumes inv: "server_inv owners H w"
    and act: "\<And>w. server_inv owners (H(g := H g + 1)) w \<Longrightarrow> server_inv owners (H(g := H g + 1)) (snd (action w))"
  shows "server_inv owners H (snd (with_locked env g action w))"
proof (cases "gateway_alive g w")
  case True
  obtain r w1 where a: "action (gateway_share g w) = (r, w1)" by fastforce
  from act [OF gateway_share_inv [OF inv True]] a
  have "server_inv owners (H(g := H g + 1)) w1" by simp
  from gateway_release_inv [OF this, of g env] have "server_inv owners H (gateway_release env g w1)"
    by simp
  with True a show ?thesis by (simp add: with_locked_def)
next
  case False
  with inv show ?thesis by (simp add: with_locked_def)
qed

lemma findAndAct_inv:
  assumes "server_inv owners H w"
    and "\<And>g w. server_inv owners (H(g := H g + 1)) w \<Longrightarrow> server_inv owners (H(g := H g + 1)) (snd (action g w))"
  shows "server_inv owners H (snd (findAndActOnRegisteredGateway env c tag action w))"
  using assms by (auto simp: findAndActOnRegisteredGateway_def split: option.split intro!: with_locked_inv)

lemma gateway_subscribe_inv:
  assumes "server_inv owners H w"
  shows "server_inv owners H (gateway_subscribe env g h w)"
  using assms by (auto simp: gateway_subscribe_def onGatewaySubscription_def split: option.split
      intro!: findAndAct_inv gateway_event_inv set_handler_inv)

lemma complete_all_inv: "server_inv owners H w \<Longrightarrow> server_inv owners H (complete_all env gws w)"
proof (induction gws arbitrary: w)
  case (Cons x gws)
  obtain tag g where x: "x = (tag, g)" by fastforce
  from Cons.IH [OF with_locked_inv [OF Cons.prems gateway_event_inv]] show ?case by (simp add: x)
qed simp

lemma handlePipeDisconnected_inv:
  "server_inv owners H w \<Longrightarrow> server_inv owners H (snd (handlePipeDisconnected env c w))"
  by (auto simp: handlePipeDisconnected_def split: option.split intro!: complete_all_inv drop_client_inv)

lemma handleRouteChannelEnd_inv:
  "server_inv owners H w \<Longrightarrow> server_inv owners H (snd (handleRouteChannelEnd env c tag e w))"
  by (auto simp: handleRouteChannelEnd_def intro!: findAndAct_inv gateway_event_inv unregister_inv)

lemma open_channel_inv:
  assumes inv: "server_inv owners H w" and con: "isConnected c w"
  shows "server_inv owners H (open_channel env c tag f payload w)"
proof -
  obtain g w1 where new: "GatewayImpl_create c tag w = (g, w1)" by fastforce
  note r = create_and_register_inv [OF inv con new]
  have "server_inv owners (H(g := H g + 1)) (run_factory env f g payload (register_gateway c tag g w1))"
    by (rule factory_inv [OF r(1)]) simp
  from gateway_release_inv [OF this, of g env] show ?thesis
    by (simp add: open_channel_def new)
qed

lemma route_real_payload_inv:
  assumes inv: "server_inv owners H w"
  shows "server_inv owners H (snd (route_real_payload env c tag sequence service_id p w))"
proof -
  have "server_inv owners H (snd (with_locked env g (gateway_event env g ev) w))" for g ev
    by (rule with_locked_inv [OF inv gateway_event_inv])
  moreover have "isConnected c w \<Longrightarrow> server_inv owners H (open_channel env c tag f p w)" for f
    by (rule open_channel_inv [OF inv])
  ultimately show ?thesis
    using inv by (simp add: route_real_payload_def split: option.split)
qed

lemma handleRouteChannelMsg_inv:
  "server_inv owners H w \<Longrightarrow>
   handleRouteChannelMsg env c tag sequence service_id psize payload w = Some x \<Longrightarrow>
   server_inv owners H (snd x)"
  by (auto simp: handleRouteChannelMsg_def route_real_payload_inv split: option.splits)

lemma handlePipeMessage_inv:
  "server_inv owners H w \<Longrightarrow> handlePipeMessage env c payload w = Some x \<Longrightarrow> server_inv owners H (snd x)"
  by (auto simp: handlePipeMessage_def handleRouteConnect_inv handleRouteChannelEnd_inv
      dest: handleRouteChannelMsg_inv split: option.splits route.splits)

lemma handlePipeEvent_inv:
  assumes inv: "server_inv owners H w" and step: "handlePipeEvent env ev w = Some (r, w')"
  shows "server_inv owners H w'"
proof (cases ev)
  case (PipeMessage c payload)
  with step show ?thesis by (auto dest: handlePipeMessage_inv [OF inv])
next
  case (PipeDisconnected c)
  with step handlePipeDisconnected_inv [OF inv, of c] show ?thesis by simp
qed (use inv step in simp)

end

end
