(* ===== verification/Socket_Server.thy ===== *)
theory Socket_Server
  imports Socket_Base Server_App
begin

text \<open>
  The server end of the pipe (src/common/ipc/pipe/socket_server.cpp, client_context.hpp) under the
  server router that owns it: the world of its handlers is a router whose pipe is a socket server,
  and the event handler \<open>start\<close> is given is the router's \<open>handlePipeEvent\<close>. The executor's
  registrations are the descriptors its callbacks wait for. A client whose id is not known where
  the code asserts that it is makes the result \<open>None\<close>.
\<close>

subsection \<open>State\<close>

record client_context =
  ctx_state :: socket_state
  ctx_callback :: int

record 'k socket_server =
  server_fd :: int
  server_address :: socket_address
  unique_client_id_counter :: client_id
  accept_callback :: "int option"
  client_id_to_context :: "client_id \<rightharpoonup> client_context"
  ss_kernel :: 'k

definition SocketServer_make :: "socket_address \<Rightarrow> 'k \<Rightarrow> 'k socket_server" where
  "SocketServer_make address k =
     \<lparr>server_fd = - 1, server_address = address, unique_client_id_counter = 0, accept_callback = None,
      client_id_to_context = Map.empty, ss_kernel = k\<rparr>"

definition tryFindClientContext :: "client_id \<Rightarrow> 'k socket_server \<Rightarrow> client_context option" where
  "tryFindClientContext c s = client_id_to_context s c"

subsection \<open>Operations of the pipe\<close>

definition server_makeSocketHandle :: "'k posix \<Rightarrow> 'k socket_server \<Rightarrow> (int \<times> 'k socket_server) option" where
  "server_makeSocketHandle P s = do {
     (maybe_socket, k) \<leftarrow> SocketAddress_socket P (server_address s) SOCK_STREAM (ss_kernel s);
     case maybe_socket of
       Inl err \<Rightarrow> Some (err, s\<lparr>ss_kernel := k\<rparr>)
     | Inr socket_fd \<Rightarrow> do {
         (err, k) \<leftarrow> posixSyscallError (sys_setsockopt P socket_fd SO_REUSEADDR 1) k;
         if err \<noteq> 0 then Some (err, s\<lparr>ss_kernel := OwnFd_destroy P socket_fd k\<rparr>)
         else do {
           (err, k) \<leftarrow> SocketAddress_bind P (server_address s) socket_fd k;
           if err \<noteq> 0 then Some (err, s\<lparr>ss_kernel := OwnFd_destroy P socket_fd k\<rparr>)
           else do {
             let (fd, k) = OwnFd_assign P (server_fd s) socket_fd k;
             Some (0, s\<lparr>server_fd := fd, ss_kernel := k\<rparr>)
           }
         }
       }
   }"

definition MaxConnections :: nat where "MaxConnections = 32"

definition SocketServer_start :: "'k posix \<Rightarrow> 'k socket_server \<Rightarrow> (int \<times> 'k socket_server) option" where
  "SocketServer_start P s = do {
     (err, s) \<leftarrow> server_makeSocketHandle P s;
     if err \<noteq> 0 then Some (err, s)
     else do {
       (err, k) \<leftarrow> posixSyscallError (sys_listen P (server_fd s) MaxConnections) (ss_kernel s);
       let s = s\<lparr>ss_kernel := k\<rparr>;
       if err \<noteq> 0 then Some (err, s) else Some (0, s\<lparr>accept_callback := Some (server_fd s)\<rparr>)
     }
   }"

definition SocketServer_send ::
    "'k posix \<Rightarrow> client_id \<Rightarrow> bytes list \<Rightarrow> 'k socket_server \<Rightarrow> (int \<times> 'k socket_server) option" where
  "SocketServer_send P c payloads s =
     (case tryFindClientContext c s of
        Some context \<Rightarrow> do {
          (err, k) \<leftarrow> SocketBase_send P (ctx_state context) payloads (ss_kernel s);
          Some (err, s\<lparr>ss_kernel := k\<rparr>)
        }
      | None \<Rightarrow> Some (EINVAL, s))"

text \<open>A context goes with its callback and its descriptor.\<close>

definition ClientContext_destroy :: "'k posix \<Rightarrow> client_context \<Rightarrow> 'k \<Rightarrow> 'k" where
  "ClientContext_destroy P context k = OwnFd_destroy P (st_fd (ctx_state context)) k"

definition erase_context :: "'k posix \<Rightarrow> client_id \<Rightarrow> 'k socket_server \<Rightarrow> 'k socket_server" where
  "erase_context P c s =
     (case client_id_to_context s c of
        None \<Rightarrow> s
      | Some context \<Rightarrow>
          s\<lparr>client_id_to_context := (client_id_to_context s)(c := None),
            ss_kernel := ClientContext_destroy P context (ss_kernel s)\<rparr>)"

text \<open>\<open>emplace\<close> leaves an entry that is already there alone, and the new context goes.\<close>

definition emplace_context :: "'k posix \<Rightarrow> client_id \<Rightarrow> client_context \<Rightarrow> 'k socket_server \<Rightarrow> 'k socket_server" where
  "emplace_context P c context s =
     (case client_id_to_context s c of
        None \<Rightarrow> s\<lparr>client_id_to_context := (client_id_to_context s)(c \<mapsto> context)\<rparr>
      | Some old \<Rightarrow> s\<lparr>ss_kernel := ClientContext_destroy P context (ss_kernel s)\<rparr>)"

definition new_context :: "int \<Rightarrow> client_context" where
  "new_context fd = \<lparr>ctx_state = socket_state_default\<lparr>st_fd := fd\<rparr>, ctx_callback = fd\<rparr>"

definition accept_client :: "'k posix \<Rightarrow> 'k socket_server \<Rightarrow> (client_id option \<times> 'k socket_server) option" where
  "accept_client P s = do {
     (client_fd, client_address, k) \<leftarrow> SocketAddress_accept P socket_address_default (server_fd s) (ss_kernel s);
     let s = s\<lparr>ss_kernel := k\<rparr>;
     case client_fd of
       None \<Rightarrow> Some (None, s)
     | Some fd \<Rightarrow> do {
         let new_client_id = unique_client_id_counter s + 1;
         Some (Some new_client_id,
               emplace_context P new_client_id (new_context fd) (s\<lparr>unique_client_id_counter := new_client_id\<rparr>))
       }
   }"

subsection \<open>Operations under the router\<close>

type_synonym ('f, 'h, 'k, 'a) server_world = "('f, 'h, 'k socket_server, 'a) server_router"

definition over_pipe :: "('p \<Rightarrow> 'p) \<Rightarrow> ('f, 'h, 'p, 'a) server_router \<Rightarrow> ('f, 'h, 'p, 'a) server_router" where
  "over_pipe f w = w\<lparr>server_pipe := f (server_pipe w)\<rparr>"

definition ServerRouter_start :: "'k posix \<Rightarrow> ('f, 'h, 'k, 'a) server_world \<Rightarrow> (int \<times> ('f, 'h, 'k, 'a) server_world) option" where
  "ServerRouter_start P w = map_option (\<lambda>(err, s). (err, w\<lparr>server_pipe := s\<rparr>)) (SocketServer_start P (server_pipe w))"

definition handleAccept ::
    "'k posix \<Rightarrow> ('f, 'h, 'k socket_server, 'a) server_env \<Rightarrow> ('f, 'h, 'k, 'a) server_world \<Rightarrow>
     ('f, 'h, 'k, 'a) server_world option" where
  "handleAccept P env w = do {
     (new_client, s) \<leftarrow> accept_client P (server_pipe w);
     let w = w\<lparr>server_pipe := s\<rparr>;
     case new_client of
       None \<Rightarrow> Some w
     | Some c \<Rightarrow> map_option snd (handlePipeEvent env (PipeConnected c) w)
   }"

text \<open>The state of a client's context, with the kernel, as the reference \<open>state\<close>.\<close>

definition read_context :: "client_id \<Rightarrow> ('f, 'h, 'k, 'a) server_world \<Rightarrow> socket_state \<times> 'k" where
  "read_context c w =
     (case client_id_to_context (server_pipe w) c of
        None \<Rightarrow> (socket_state_default, ss_kernel (server_pipe w))
      | Some context \<Rightarrow> (ctx_state context, ss_kernel (server_pipe w)))"

definition write_context ::
    "client_id \<Rightarrow> socket_state \<times> 'k \<Rightarrow> ('f, 'h, 'k, 'a) server_world \<Rightarrow> ('f, 'h, 'k, 'a) server_world" where
  "write_context c stk = over_pipe (\<lambda>s.
     s\<lparr>client_id_to_context := (client_id_to_context s)(c := map_option (\<lambda>context. context\<lparr>ctx_state := fst stk\<rparr>)
         (client_id_to_context s c)),
       ss_kernel := snd stk\<rparr>)"

definition handleClientRequest ::
    "'k posix \<Rightarrow> ('f, 'h, 'k socket_server, 'a) server_env \<Rightarrow> client_id \<Rightarrow>
     ('f, 'h, 'k, 'a) server_world \<Rightarrow> ('f, 'h, 'k, 'a) server_world option" where
  "handleClientRequest P env c w =
     (if tryFindClientContext c (server_pipe w) = None then None
      else do {
        (err, w) \<leftarrow> receiveMessage P (read_context c) (write_context c)
                      (\<lambda>payload. handlePipeEvent env (PipeMessage c payload)) w;
        if err \<noteq> 0
        then map_option snd (handlePipeEvent env (PipeDisconnected c) (over_pipe (erase_context P c) w))
        else Some w
      })"

subsection \<open>Runs\<close>

text \<open>
  What can happen to the server: its own callbacks, as long as they are registered, and whatever
  else runs in the daemon, which only sends (\<open>other\<close>).
\<close>

inductive server_run ::
    "'k posix \<Rightarrow> ('f, 'h, 'k socket_server, 'a) server_env \<Rightarrow>
     (('f, 'h, 'k, 'a) server_world \<Rightarrow> ('f, 'h, 'k, 'a) server_world \<Rightarrow> bool) \<Rightarrow>
     ('f, 'h, 'k, 'a) server_world \<Rightarrow> ('f, 'h, 'k, 'a) server_world \<Rightarrow> bool"
  for P env other w0 where
  run_start: "ServerRouter_start P w0 = Some (0, w) \<Longrightarrow> server_run P env other w0 w"
| run_accept: "server_run P env other w0 w \<Longrightarrow> accept_callback (server_pipe w) \<noteq> None \<Longrightarrow>
     handleAccept P env w = Some w' \<Longrightarrow> server_run P env other w0 w'"
| run_request: "server_run P env other w0 w \<Longrightarrow> tryFindClientContext c (server_pipe w) \<noteq> None \<Longrightarrow>
     handleClientRequest P env c w = Some w' \<Longrightarrow> server_run P env other w0 w'"
| run_other: "server_run P env other w0 w \<Longrightarrow> other w w' \<Longrightarrow> server_run P env other w0 w'"

end
