(* ===== verification/Server_Gateway.thy ===== *)
theory Server_Gateway
  imports Server_App
begin

text \<open>
  The behaviour of the server router's operations branch by branch, for any services behind it:
  the gateway as an implementation of \<open>gateway_interface\<close>, what reaches the pipe, which gateway a
  message reaches, and what a gateway's end sends to the client.
\<close>

subsection \<open>The gateway interface\<close>

definition sgw_connected :: "gateway_id \<Rightarrow> ('f, 'h, 'p, 'a) server_router \<Rightarrow> bool" where
  "sgw_connected g w = (case gateways w g of None \<Rightarrow> False | Some gw \<Rightarrow> isConnected (sg_client_id gw) w)"

definition sgw_registered :: "gateway_id \<Rightarrow> ('f, 'h, 'p, 'a) server_router \<Rightarrow> bool" where
  "sgw_registered g w =
     (case gateways w g of None \<Rightarrow> False | Some gw \<Rightarrow> isRegisteredGateway (sg_client_id gw) (sg_tag gw) w)"

definition sgw_next_sequence :: "gateway_id \<Rightarrow> ('f, 'h, 'p, 'a) server_router \<Rightarrow> u64" where
  "sgw_next_sequence g w = (case gateways w g of None \<Rightarrow> 0 | Some gw \<Rightarrow> sg_next_sequence gw)"

lemma isRegistered_cong:
  "client_id_to_map_of_gateways w' = client_id_to_map_of_gateways w \<Longrightarrow>
   isRegisteredGateway c t w' = isRegisteredGateway c t w"
  by (simp add: isRegisteredGateway_def find_gateway_def)

lemma gateway_send_frame [simp]:
  "client_id_to_map_of_gateways (snd (gateway_send env g s p w)) = client_id_to_map_of_gateways w"
  "service_id_to_channel_factory (snd (gateway_send env g s p w)) = service_id_to_channel_factory w"
  "next_gateway (snd (gateway_send env g s p w)) = next_gateway w"
  "app (snd (gateway_send env g s p w)) = app w"
  by (simp_all add: gateway_send_def split: option.split)

lemma gateway_send_gateways:
  "gateways (snd (gateway_send env g s p w)) =
   (if sgw_connected g w \<and> sgw_registered g w
    then (gateways w)(g := map_option (\<lambda>gw. gw\<lparr>sg_next_sequence := sg_next_sequence gw + 1\<rparr>) (gateways w g))
    else gateways w)"
  by (auto simp: gateway_send_def sgw_connected_def sgw_registered_def split: option.splits)

interpretation sgw: gateway_interface gateway_alive sgw_connected sgw_registered sgw_next_sequence
  "gateway_send env" for env
proof unfold_locales
  fix g g' :: gateway_id and w and s :: u64 and p
  show "gateway_alive g w \<Longrightarrow> \<not> sgw_connected g w \<Longrightarrow> gateway_send env g s p w = (ErrorCode_NotConnected, w)"
    by (auto simp: gateway_send_def sgw_connected_def gateway_alive_def)
  show "gateway_alive g w \<Longrightarrow> sgw_connected g w \<Longrightarrow> \<not> sgw_registered g w \<Longrightarrow>
        gateway_send env g s p w = (ErrorCode_Shutdown, w)"
    by (auto simp: gateway_send_def sgw_connected_def sgw_registered_def gateway_alive_def)
  show "gateway_alive g w \<Longrightarrow> sgw_connected g w \<Longrightarrow> sgw_registered g w \<Longrightarrow>
        sgw_next_sequence g (snd (gateway_send env g s p w)) = sgw_next_sequence g w + 1"
    by (auto simp: sgw_next_sequence_def gateway_send_gateways gateway_alive_def split: option.split)
  show "g' \<noteq> g \<Longrightarrow> sgw_next_sequence g' (snd (gateway_send env g s p w)) = sgw_next_sequence g' w"
    by (simp add: sgw_next_sequence_def gateway_send_gateways)
  show "gateway_alive g' (snd (gateway_send env g s p w)) = gateway_alive g' w"
    by (simp add: gateway_alive_def gateway_send_gateways)
  show "sgw_connected g' (snd (gateway_send env g s p w)) = sgw_connected g' w"
    by (auto simp: sgw_connected_def gateway_send_gateways isConnected_def split: option.split)
  show "sgw_registered g' (snd (gateway_send env g s p w)) = sgw_registered g' w"
    by (auto simp: sgw_registered_def gateway_send_gateways isRegisteredGateway_def find_gateway_def
        split: option.split)
qed

subsection \<open>What a gateway sends\<close>

text \<open>
  \<open>channel_frames\<close> are the frames a channel's payloads become on the wire: each one the routing
  prefix with the next sequence number, then the payload.
\<close>

fun channel_frames :: "(route \<Rightarrow> bytes) \<Rightarrow> u64 \<Rightarrow> u64 \<Rightarrow> u64 \<Rightarrow> bytes list \<Rightarrow> bytes list list" where
  "channel_frames ser tag sequence service_id [] = []"
| "channel_frames ser tag sequence service_id (p # ps) =
     [ser (RouteChannelMsg tag sequence service_id (of_nat (length p))), p] #
     channel_frames ser tag (sequence + 1) service_id ps"

fun pipe_sends :: "('f, 'h, 'p, 'a) server_env \<Rightarrow> client_id \<Rightarrow> bytes list list \<Rightarrow> 'p \<Rightarrow> 'p" where
  "pipe_sends env c [] p = p"
| "pipe_sends env c (f # fs) p = pipe_sends env c fs (snd (pipe_send env c f p))"

lemma send_route_pipe:
  "serialize (env_codec env) r = Some prefix \<Longrightarrow>
   server_pipe (snd (send_route env c r suffix w)) = snd (pipe_send env c (prefix # suffix) (server_pipe w))"
  by (simp add: send_route_def tryPerformOnSerialized_def send_to_pipe_def split: prod.split)

lemma send_route_result:
  "serialize (env_codec env) r = Some prefix \<Longrightarrow>
   fst (send_route env c r suffix w) = fst (pipe_send env c (prefix # suffix) (server_pipe w))"
  by (simp add: send_route_def tryPerformOnSerialized_def send_to_pipe_def split: prod.split)

lemma gateway_send_step:
  assumes "gateways w g = Some gw" and "sgw_connected g w" and "sgw_registered g w"
    and "\<And>sq n. serialize (env_codec env) (RouteChannelMsg (sg_tag gw) sq s n) =
            Some (ser (RouteChannelMsg (sg_tag gw) sq s n))"
  shows "server_pipe (snd (gateway_send env g s p w)) =
         snd (pipe_send env (sg_client_id gw)
           [ser (RouteChannelMsg (sg_tag gw) (sg_next_sequence gw) s (of_nat (length p))), p] (server_pipe w))"
  using assms by (simp add: gateway_send_def sgw_connected_def sgw_registered_def send_route_pipe)

text \<open>
  A channel's messages reach the pipe in the order they were sent, one frame each, numbered
  consecutively from the gateway's next sequence number (modulo 2^64), and nothing else is sent.
\<close>

theorem server_sends_numbered_frames:
  assumes "gateways w g = Some gw" and "sgw_connected g w" and "sgw_registered g w"
    and "\<And>sq n. serialize (env_codec env) (RouteChannelMsg (sg_tag gw) sq s n) =
            Some (ser (RouteChannelMsg (sg_tag gw) sq s n))"
  shows "server_pipe (snd (sgw.send_all env g s ps w)) =
         pipe_sends env (sg_client_id gw)
           (channel_frames ser (sg_tag gw) (sg_next_sequence gw) s ps) (server_pipe w)"
  using assms
proof (induction ps arbitrary: w gw)
  case (Cons p ps)
  let ?w = "snd (gateway_send env g s p w)"
  let ?gw = "gw\<lparr>sg_next_sequence := sg_next_sequence gw + 1\<rparr>"
  from Cons.prems have "gateways ?w g = Some ?gw" "sgw_connected g ?w" "sgw_registered g ?w"
    by (simp_all add: gateway_send_gateways sgw.keeps)
  from Cons.IH [OF this] Cons.prems(4) gateway_send_step [OF Cons.prems, of p] show ?case
    by (simp add: sgw.send_all_Cons_snd del: sgw.send_all.simps(2))
qed simp

subsection \<open>Which gateway a message reaches\<close>

lemma find_connected: "find_gateway c tag w = Some g \<Longrightarrow> isConnected c w"
  by (auto simp: find_gateway_def isConnected_def split: option.splits)

lemma with_locked_event:
  assumes "gateways w g = Some gw" and "sg_event_handler gw = Some h"
  shows "with_locked env g (gateway_event env g ev) w =
         (let (r, w1) = run_handler env h ev (gateway_share g w) in (r, gateway_release env g w1))"
  using assms by (simp add: with_locked_def gateway_alive_def gateway_event_def gateway_share_def)

text \<open>
  C27. Whatever a client appends to a well-formed routing prefix is what the gateway registered
  for that client and tag receives: the same bytes, the same sequence number, once, with the
  gateway kept alive for the length of the call.
\<close>

theorem server_delivers_payload:
  assumes codec: "dsdl_codec (env_codec env)"
    and prefix: "serialize (env_codec env) (RouteChannelMsg tag sequence service_id (of_nat (length payload))) = Some prefix"
    and len: "length (prefix @ payload) < 2 ^ 64"
    and gw: "find_gateway c tag w = Some g" "gateways w g = Some gw" "sg_event_handler gw = Some h"
  shows "handlePipeEvent env (PipeMessage c (prefix @ payload)) w =
         Some (let (r, w1) = run_handler env h (GMessage sequence payload) (gateway_share g w)
               in (r, gateway_release env g w1))"
proof -
  have "real_payload (prefix @ payload) (of_nat (length payload)) = Some payload"
    using len by (intro real_payload_suffix) simp_all
  moreover have "lock_registered c tag w = Some g"
    using gw by (simp add: lock_registered_def gateway_alive_def)
  ultimately show ?thesis
    using find_connected [OF gw(1)] gw with_locked_event [OF gw(2,3)]
    by (simp add: handlePipeMessage_def dsdl_codecD [OF codec prefix] handleRouteChannelMsg_def
        route_real_payload_def)
qed

text \<open>
  A channel message from a client that is not connected, or for a tag with no registered
  gateway that cannot open a channel (not the first of its sequence, or of an unknown service),
  is ignored: success, and no state changes.
\<close>

theorem server_ignores_unsolicited:
  assumes "deserialize (env_codec env) payload = Some (RouteChannelMsg tag sequence service_id n)"
    and "unat n \<le> length payload" and "length payload < 2 ^ 63"
    and "\<not> isConnected c w \<or>
         find_gateway c tag w = None \<and> (sequence \<noteq> 0 \<or> service_id_to_channel_factory w service_id = None)"
  shows "handlePipeEvent env (PipeMessage c payload) w = Some (0, w)"
proof -
  obtain p where "real_payload payload n = Some p"
    using real_payload_defined_iff [OF assms(3), of n] assms(2) by blast
  with assms(1,4) show ?thesis
    by (auto simp: handlePipeMessage_def handleRouteChannelMsg_def route_real_payload_def lock_registered_def)
qed

text \<open>
  C37. The handler takes a span outside its contract exactly when a channel message announces a
  payload longer than the message itself: the router does not check the size it was sent, and
  takes the span even when the client is not connected.
\<close>

theorem server_span_fault_iff:
  assumes "length payload < 2 ^ 63"
  shows "handlePipeEvent env (PipeMessage c payload) w = None \<longleftrightarrow>
    (\<exists>tag sequence service_id n.
       deserialize (env_codec env) payload = Some (RouteChannelMsg tag sequence service_id n) \<and>
       length payload < unat n)"
proof -
  have defined: "length payload < unat n \<longleftrightarrow> real_payload payload n = None" for n
    using real_payload_defined_iff [OF assms, of n] by auto
  then have "handleRouteChannelMsg env c tag sequence service_id n payload w = None \<longleftrightarrow>
             length payload < unat n" for tag sequence service_id n
    by (auto simp: handleRouteChannelMsg_def defined split: option.split)
  then show ?thesis
    by (auto simp: handlePipeMessage_def split: option.splits route.splits)
qed

subsection \<open>Handshake\<close>

text \<open>
  A connect request answers with the protocol version; the client becomes connected exactly
  when the answer could be sent (or it already was), and no registration of any client is lost
  or gained, also when a client repeats the request.
\<close>

theorem server_handshake:
  fixes w :: "('f, 'h, 'p, 'a) server_router"
  assumes "deserialize (env_codec env) payload = Some (RouteConnect major minor e)"
    and "handlePipeEvent env (PipeMessage c payload) w = Some (err, w')"
  shows "(isConnected c w' \<longleftrightarrow> isConnected c w \<or> err = 0) \<and>
         (\<forall>c'. c' = c \<or> isConnected c' w' = isConnected c' w) \<and>
         (\<forall>c' t. find_gateway c' t w' = find_gateway c' t w) \<and>
         gateways w' = gateways w"
proof -
  obtain err1 w1 where s: "send_route env c (RouteConnect VERSION_MAJOR VERSION_MINOR 0) [] w = (err1, w1)"
    by fastforce
  have same: "client_id_to_map_of_gateways w1 = client_id_to_map_of_gateways w" "gateways w1 = gateways w"
    using send_route_frame [of env c "RouteConnect VERSION_MAJOR VERSION_MINOR 0" "[]" w] by (simp_all add: s)
  have "handleRouteConnect env c w = (err, w')"
    using assms by (simp add: handlePipeMessage_def)
  with s same show ?thesis
    by (auto simp: handleRouteConnect_def isConnected_def find_gateway_def split: if_splits)
qed

subsection \<open>The end of a gateway\<close>

lemma onGatewayDisposal_pipe:
  assumes "serialize (env_codec env) (RouteChannelEnd tag e) = Some frame"
  shows "server_pipe (onGatewayDisposal env c tag e w) =
         (if find_gateway c tag w = None then server_pipe w else snd (pipe_send env c [frame] (server_pipe w)))"
  using assms
  by (auto simp: onGatewayDisposal_def Let_def find_gateway_def isConnected_def send_route_pipe
      split: option.splits)

lemma onGatewayDisposal_unregistered:
  "find_gateway c tag w = None \<Longrightarrow> server_pipe (onGatewayDisposal env c tag e w) = server_pipe w"
  by (auto simp: onGatewayDisposal_def Let_def find_gateway_def split: option.splits)

text \<open>
  C26. When the last strong pointer to a gateway goes, its client is told exactly once, with the
  completion code the channel left, if and only if the gateway is still registered; otherwise
  (the client ended the channel or went away) nothing is sent. Either way the tag is free again.
\<close>

theorem server_channel_end:
  assumes "gateways w g = Some gw" and "sg_use_count gw = 1"
    and "serialize (env_codec env) (RouteChannelEnd (sg_tag gw) (sg_completion_error_code gw)) = Some frame"
  shows "gateways (gateway_release env g w) = (gateways w)(g := None) \<and>
         find_gateway (sg_client_id gw) (sg_tag gw) (gateway_release env g w) = None \<and>
         server_pipe (gateway_release env g w) =
           (if find_gateway (sg_client_id gw) (sg_tag gw) w = None then server_pipe w
            else snd (pipe_send env (sg_client_id gw) [frame] (server_pipe w)))"
  using assms
  by (simp add: gateway_release_def onGatewayDisposal_pipe find_gateway_disposed)

text \<open>
  A first message whose payload does not deserialize opens no channel, leaves every
  registration and gateway as it was, and yet tells the client that its channel ended with
  error code 0, success.
\<close>

theorem server_invalid_first_payload:
  fixes w :: "('f, 'h, 'p, 'a) server_router"
  assumes "run_factory env f = registerChannel_factory deserialize_input new_ch_handler"
    and "deserialize_input payload = None"
    and "isConnected c w" and "find_gateway c tag w = None" and "gateways w (next_gateway w) = None"
    and "serialize (env_codec env) (RouteChannelEnd tag ErrorCode_Success) = Some frame"
  shows "gateways (open_channel env c tag f payload w) = gateways w \<and>
         app (open_channel env c tag f payload w) = app w \<and>
         find_gateway c' t' (open_channel env c tag f payload w) = find_gateway c' t' w \<and>
         server_pipe (open_channel env c tag f payload w) = snd (pipe_send env c [frame] (server_pipe w))"
proof -
  obtain g w1 where new: "GatewayImpl_create c tag w = (g, w1)" by fastforce
  let ?w = "register_gateway c tag g w1"
  have o: "open_channel env c tag f payload w = gateway_release env g ?w"
    by (simp add: open_channel_def new assms(1,2) registerChannel_factory_def)
  obtain gw where gw: "gateways ?w g = Some gw" "sg_use_count gw = 1" "sg_tag gw = tag"
      "sg_client_id gw = c" "sg_completion_error_code gw = 0"
    using new by (auto simp: GatewayImpl_create_def register_gateway_def)
  have g: "gateways ?w = (gateways w)(g \<mapsto> gw)" "gateways w g = None" "app ?w = app w" "server_pipe ?w = server_pipe w"
    using new gw(1) assms(5) by (auto simp: GatewayImpl_create_def register_gateway_def)
  have f: "find_gateway c' t ?w = (if c' = c \<and> t = tag then Some g else find_gateway c' t w)" for c' t
    using new assms(3)
    by (auto simp: GatewayImpl_create_def find_gateway_def register_gateway_def isConnected_def split: option.splits)
  let ?d = "onGatewayDisposal env c tag 0 (?w\<lparr>gateways := (gateways ?w)(g := None)\<rparr>)"
  have r: "gateway_release env g ?w = ?d" using gw by (simp add: gateway_release_def)
  have m: "client_id_to_map_of_gateways ?d = (client_id_to_map_of_gateways ?w)
      (c := map_option (AList.delete tag) (client_id_to_map_of_gateways ?w c))"
    by (simp add: onGatewayDisposal_maps)
  have "find_gateway c' t' ?d = find_gateway c' t' w"
    using assms(4) by (simp add: find_gateway_delete [OF m] f)
  moreover have "server_pipe ?d = snd (pipe_send env c [frame] (server_pipe w))"
    using assms(6) f [of c tag] by (subst onGatewayDisposal_pipe [where frame = frame])
       (simp_all add: find_gateway_def g)
  moreover have "gateways ?d = gateways w" using g by auto
  ultimately show ?thesis using g by (simp add: o r)
qed

end
