(* ===== verification/Channel.thy ===== *)
theory Channel
  imports Ipc_Types
begin

text \<open>
  The typed channel over a gateway (src/common/ipc/channel.hpp) and the payload helpers it uses
  (src/common/dsdl_helpers.hpp). A channel is its gateway's identity and a service id; its
  operations take the gateway's operations as arguments, so that both routers instantiate them.
  The (de)serializers of the message types are generated code, hence arguments.
\<close>

datatype 'i channel_event = ChConnected | ChInput 'i | ChCompleted error_code

record channel =
  ch_gateway :: gateway_id
  ch_service_id :: u64

text \<open>The service id is the CRC-64/WE of the name; the CRC is a library's.\<close>

definition getServiceDesc :: "(string \<Rightarrow> u64) \<Rightarrow> string \<Rightarrow> string \<Rightarrow> u64 \<times> string" where
  "getServiceDesc crc64 full_name_and_version service_name =
     (let srv_or_msg_name = (if service_name \<noteq> [] then service_name else full_name_and_version)
      in (crc64 srv_or_msg_name, srv_or_msg_name))"

definition channel_send ::
    "(gateway_id \<Rightarrow> u64 \<Rightarrow> bytes \<Rightarrow> 'w \<Rightarrow> int \<times> 'w) \<Rightarrow> ('o \<Rightarrow> bytes option) \<Rightarrow>
     channel \<Rightarrow> 'o \<Rightarrow> 'w \<Rightarrow> int \<times> 'w" where
  "channel_send send ser ch output =
     tryPerformOnSerialized ser output (\<lambda>payload. send (ch_gateway ch) (ch_service_id ch) payload)"

definition channel_complete :: "(gateway_id \<Rightarrow> int \<Rightarrow> 'w \<Rightarrow> 'w) \<Rightarrow> channel \<Rightarrow> int \<Rightarrow> 'w \<Rightarrow> 'w" where
  [simp]: "channel_complete complete ch error_code = complete (ch_gateway ch) error_code"

text \<open>
  A handler is an identity: what it does, the adapter below around the subscriber's own function, is
  an equation of the environment. Without one the gateway's subscription is taken back.
\<close>

definition channel_subscribe :: "(gateway_id \<Rightarrow> 'h option \<Rightarrow> 'w \<Rightarrow> 'w) \<Rightarrow> channel \<Rightarrow> 'h option \<Rightarrow> 'w \<Rightarrow> 'w" where
  [simp]: "channel_subscribe subscribe ch event_handler = subscribe (ch_gateway ch) event_handler"

text \<open>\<open>Channel::Adapter\<close>: a gateway event becomes a channel event, or \<open>EINVAL\<close>.\<close>

fun channel_adapter ::
    "(bytes \<Rightarrow> 'i option) \<Rightarrow> ('i channel_event \<Rightarrow> 'w \<Rightarrow> 'w) \<Rightarrow> gateway_event \<Rightarrow> 'w \<Rightarrow> int \<times> 'w" where
  "channel_adapter deser ch_event_handler GConnected w = (0, ch_event_handler ChConnected w)"
| "channel_adapter deser ch_event_handler (GMessage sequence payload) w =
     (case deser payload of
        None \<Rightarrow> (EINVAL, w)
      | Some input \<Rightarrow> (0, ch_event_handler (ChInput input) w))"
| "channel_adapter deser ch_event_handler (GCompleted error_code) w =
     (0, ch_event_handler (ChCompleted error_code) w)"

end
