(* ===== verification/Engine_Helpers.thy ===== *)
theory Engine_Helpers
  imports Prelude
begin

text \<open>
  src/daemon/engine/engine_helpers.hpp: the failures of the Cyphal library become \<open>errno\<close>
  values. The failure variants are unions of these alternatives; the platform error's code is
  the library's 32-bit value, converted to \<open>int\<close>.
\<close>

datatype cy_error =
    MemoryError
  | CapacityError
  | ArgumentError
  | AnonymousError
  | NunavutError
  | AlreadyExistsError
  | PlatformError u32
  | ResponsePromiseExpired
  | TooManyPendingRequestsError

fun errorToCode :: "cy_error \<Rightarrow> int" where
  "errorToCode MemoryError = ENOMEM"
| "errorToCode CapacityError = ENOMEM"
| "errorToCode ArgumentError = EINVAL"
| "errorToCode AnonymousError = EINVAL"
| "errorToCode NunavutError = EINVAL"
| "errorToCode AlreadyExistsError = EEXIST"
| "errorToCode (PlatformError code) = sint code"
| "errorToCode ResponsePromiseExpired = ETIMEDOUT"
| "errorToCode TooManyPendingRequestsError = EBUSY"

lemma sint_u32_zero_iff: "sint (code :: u32) = 0 \<longleftrightarrow> code = 0"
  by (rule signed_eq_0_iff)

lemma errorToCode_zero_iff: "errorToCode e = 0 \<longleftrightarrow> e = PlatformError 0"
  by (cases e) (simp_all add: sint_u32_zero_iff)

end
