(* ===== verification/Exec_Cmd_Service.thy ===== *)
theory Exec_Cmd_Service
  imports Server_Gateway Channel Engine_Helpers
begin

text \<open>
  The daemon's 'Node: Execute Command' service
  (src/daemon/engine/svc/node/exec_cmd_service.cpp) on top of the server router. Each request
  channel owns a finite state machine; the machine sends one Cyphal request per distinct node,
  forwards each response and ends the channel when the last node has answered. The Cyphal
  library (clients, promises, the clock), the generated serializers, the pipe and the iteration
  order of an unordered set are arguments, gathered in \<open>exec_params\<close>.
\<close>

subsection \<open>Data\<close>

text \<open>common/dsdl/ocvsmd/common/svc/node: the request and the response of a session.\<close>

record exec_request =
  timeout_us :: u64
  node_ids :: "u16 list"
  req_command :: u16
  req_parameter :: bytes

record exec_response =
  res_node_id :: u16
  res_status :: u8
  res_output :: bytes

record ('c, 'r) fsm =
  fsm_channel :: channel
  node_id_to_op :: "(u16 \<times> 'c \<times> 'r) list"

text \<open>\<open>'c\<close>, \<open>'r\<close>, \<open>'cy\<close>: the library's clients, response promises and own state.\<close>

record ('c, 'r, 'cy) exec_cmd_service =
  next_fsm_id :: u64
  id_to_fsm :: "u64 \<rightharpoonup> ('c, 'r) fsm"
  presentation :: 'cy

type_synonym ('c, 'r, 'p, 'cy) daemon = "(u64, u64, 'p, ('c, 'r, 'cy) exec_cmd_service) server_router"

type_synonym ('c, 'r, 'p, 'cy) daemon_env = "(u64, u64, 'p, ('c, 'r, 'cy) exec_cmd_service) server_env"

record ('c, 'r, 'p, 'cy) exec_params =
  xp_pipe_send :: "client_id \<Rightarrow> bytes list \<Rightarrow> 'p \<Rightarrow> int \<times> 'p"
  xp_codec :: codec
  xp_des_request :: "bytes \<Rightarrow> exec_request option"
  xp_ser_response :: "exec_response \<Rightarrow> bytes option"
  xp_set_order :: "u16 list \<Rightarrow> u16 list"
  cy_now :: "'cy \<Rightarrow> u64"
  cy_makeClient :: "u16 \<Rightarrow> 'cy \<Rightarrow> (cy_error + 'c) \<times> 'cy"
  cy_request :: "'c \<Rightarrow> u64 \<Rightarrow> u16 \<Rightarrow> bytes \<Rightarrow> 'cy \<Rightarrow> (cy_error + 'r) \<times> 'cy"
  cy_dropPromise :: "'r \<Rightarrow> 'cy \<Rightarrow> 'cy"
  cy_dropClient :: "'c \<Rightarrow> 'cy \<Rightarrow> 'cy"

text \<open>What iterating over an \<open>unordered_set\<close> built from a list promises.\<close>

definition set_order_ok :: "(u16 list \<Rightarrow> u16 list) \<Rightarrow> bool" where
  "set_order_ok order \<longleftrightarrow> (\<forall>xs. distinct (order xs) \<and> set (order xs) = set xs)"

subsection \<open>Lenses\<close>

definition update_app ::
    "('a \<Rightarrow> 'a) \<Rightarrow> ('f, 'h, 'p, 'a) server_router \<Rightarrow> ('f, 'h, 'p, 'a) server_router" where
  "update_app f w = w\<lparr>app := f (app w)\<rparr>"

definition update_cyphal :: "('cy \<Rightarrow> 'cy) \<Rightarrow> ('c, 'r, 'p, 'cy) daemon \<Rightarrow> ('c, 'r, 'p, 'cy) daemon" where
  "update_cyphal f = update_app (\<lambda>a. a\<lparr>presentation := f (presentation a)\<rparr>)"

definition update_fsms ::
    "((u64 \<rightharpoonup> ('c, 'r) fsm) \<Rightarrow> (u64 \<rightharpoonup> ('c, 'r) fsm)) \<Rightarrow>
     ('c, 'r, 'p, 'cy) daemon \<Rightarrow> ('c, 'r, 'p, 'cy) daemon" where
  "update_fsms f = update_app (\<lambda>a. a\<lparr>id_to_fsm := f (id_to_fsm a)\<rparr>)"

definition find_fsm :: "u64 \<Rightarrow> ('c, 'r, 'p, 'cy) daemon \<Rightarrow> ('c, 'r) fsm option" where
  "find_fsm fsm_id w = id_to_fsm (app w) fsm_id"

subsection \<open>The environment of the router, in two layers\<close>

text \<open>
  Releasing, sending and completing a gateway run no service code, so they are taken over
  \<open>exec_env0\<close>; the full environments follow once the handler and the factory are defined.
\<close>

definition exec_env0 :: "('c, 'r, 'p, 'cy) exec_params \<Rightarrow> ('c, 'r, 'p, 'cy) daemon_env" where
  "exec_env0 X = \<lparr>pipe_send = xp_pipe_send X, env_codec = xp_codec X,
                  run_handler = (\<lambda>_ _ w. (0, w)), run_factory = (\<lambda>_ _ _ w. w)\<rparr>"

subsection \<open>Operations of the state machine\<close>

text \<open>\<open>~CyNodeOp\<close>: members go in reverse order, the promise (its request is cancelled) first.\<close>

definition drop_op :: "('c, 'r, 'p, 'cy) exec_params \<Rightarrow> 'c \<times> 'r \<Rightarrow> 'cy \<Rightarrow> 'cy" where
  "drop_op X op cy = cy_dropClient X (fst op) (cy_dropPromise X (snd op) cy)"

definition drop_ops ::
    "('c, 'r, 'p, 'cy) exec_params \<Rightarrow> (u16 \<times> 'c \<times> 'r) list \<Rightarrow>
     ('c, 'r, 'p, 'cy) daemon \<Rightarrow> ('c, 'r, 'p, 'cy) daemon" where
  "drop_ops X ops = update_cyphal (fold (drop_op X) (List.map snd ops))"

text \<open>\<open>~Fsm\<close>: pending operations go, then the channel lets its gateway go.\<close>

definition Fsm_destroy ::
    "('c, 'r, 'p, 'cy) exec_params \<Rightarrow> ('c, 'r) fsm \<Rightarrow> ('c, 'r, 'p, 'cy) daemon \<Rightarrow> ('c, 'r, 'p, 'cy) daemon" where
  "Fsm_destroy X fsm w = gateway_release (exec_env0 X) (ch_gateway (fsm_channel fsm)) (drop_ops X (node_id_to_op fsm) w)"

text \<open>
  \<open>complete\<close>: cancel what is pending, leave the code with the gateway, and leave the map of
  machines. The map holds the machine's pointer, so this destroys it; while \<open>start\<close> runs, the
  caller's copy keeps it alive, but \<open>start\<close> and the caller return without touching it.
\<close>

definition releaseFsmBy ::
    "('c, 'r, 'p, 'cy) exec_params \<Rightarrow> u64 \<Rightarrow> ('c, 'r, 'p, 'cy) daemon \<Rightarrow> ('c, 'r, 'p, 'cy) daemon" where
  "releaseFsmBy X fsm_id w =
     (case find_fsm fsm_id w of
        None \<Rightarrow> w
      | Some fsm \<Rightarrow> Fsm_destroy X fsm (update_fsms (\<lambda>m. m(fsm_id := None)) w))"

definition Fsm_complete ::
    "('c, 'r, 'p, 'cy) exec_params \<Rightarrow> u64 \<Rightarrow> int \<Rightarrow> ('c, 'r, 'p, 'cy) daemon \<Rightarrow> ('c, 'r, 'p, 'cy) daemon" where
  "Fsm_complete X fsm_id err w =
     (case find_fsm fsm_id w of
        None \<Rightarrow> w
      | Some fsm \<Rightarrow>
          (let w1 = update_fsms (\<lambda>m. m(fsm_id \<mapsto> fsm\<lparr>node_id_to_op := []\<rparr>)) (drop_ops X (node_id_to_op fsm) w);
               w2 = channel_complete gateway_complete (fsm_channel fsm) err w1
           in releaseFsmBy X fsm_id w2))"

fun Fsm_handleEvent ::
    "('c, 'r, 'p, 'cy) exec_params \<Rightarrow> u64 \<Rightarrow> exec_request channel_event \<Rightarrow>
     ('c, 'r, 'p, 'cy) daemon \<Rightarrow> ('c, 'r, 'p, 'cy) daemon" where
  "Fsm_handleEvent X fsm_id ChConnected w = w"
| "Fsm_handleEvent X fsm_id (ChInput request) w = w"
| "Fsm_handleEvent X fsm_id (ChCompleted error_code) w = Fsm_complete X fsm_id ECANCELED w"

text \<open>\<open>emplace\<close> keeps the entry that is already there; then the new operation goes.\<close>

definition emplace_op ::
    "('c, 'r, 'p, 'cy) exec_params \<Rightarrow> u64 \<Rightarrow> u16 \<Rightarrow> 'c \<times> 'r \<Rightarrow> ('c, 'r, 'p, 'cy) daemon \<Rightarrow> ('c, 'r, 'p, 'cy) daemon" where
  "emplace_op X fsm_id node_id op w =
     (case find_fsm fsm_id w of
        None \<Rightarrow> w
      | Some fsm \<Rightarrow>
          (if map_of (node_id_to_op fsm) node_id = None
           then update_fsms (\<lambda>m. m(fsm_id \<mapsto> fsm\<lparr>node_id_to_op := node_id_to_op fsm @ [(node_id, op)]\<rparr>)) w
           else drop_ops X [(node_id, op)] w))"

definition makeCyphalSvcCallFor ::
    "('c, 'r, 'p, 'cy) exec_params \<Rightarrow> u64 \<Rightarrow> u64 \<Rightarrow> u16 \<Rightarrow> u16 \<times> bytes \<Rightarrow>
     ('c, 'r, 'p, 'cy) daemon \<Rightarrow> int \<times> ('c, 'r, 'p, 'cy) daemon" where
  "makeCyphalSvcCallFor X fsm_id deadline node_id cy_req w =
     (case cy_makeClient X node_id (presentation (app w)) of
        (Inl cy_failure, cy) \<Rightarrow> (errorToCode cy_failure, update_cyphal (\<lambda>_. cy) w)
      | (Inr client, cy) \<Rightarrow>
          (case cy_request X client deadline (fst cy_req) (snd cy_req) cy of
             (Inl cy_failure, cy') \<Rightarrow> (errorToCode cy_failure, update_cyphal (\<lambda>_. cy_dropClient X client cy') w)
           | (Inr promise, cy') \<Rightarrow>
               (0, emplace_op X fsm_id node_id (client, promise) (update_cyphal (\<lambda>_. cy') w))))"

text \<open>The loop of \<open>start\<close> over the distinct nodes, left at the first error.\<close>

fun call_nodes ::
    "('c, 'r, 'p, 'cy) exec_params \<Rightarrow> u64 \<Rightarrow> u64 \<Rightarrow> u16 \<times> bytes \<Rightarrow> u16 list \<Rightarrow>
     ('c, 'r, 'p, 'cy) daemon \<Rightarrow> ('c, 'r, 'p, 'cy) daemon" where
  "call_nodes X fsm_id deadline cy_req [] w = w"
| "call_nodes X fsm_id deadline cy_req (node_id # nodes) w =
     (let (err, w1) = makeCyphalSvcCallFor X fsm_id deadline node_id cy_req w
      in if err \<noteq> 0 then Fsm_complete X fsm_id err w1
         else call_nodes X fsm_id deadline cy_req nodes w1)"

definition Fsm_start ::
    "('c, 'r, 'p, 'cy) exec_params \<Rightarrow> u64 \<Rightarrow> exec_request \<Rightarrow>
     ('c, 'r, 'p, 'cy) daemon \<Rightarrow> ('c, 'r, 'p, 'cy) daemon" where
  "Fsm_start X fsm_id request w =
     (if node_ids request = [] then Fsm_complete X fsm_id 0 w
      else (let unique_node_ids = xp_set_order X (node_ids request);
                deadline = cy_now X (presentation (app w)) + timeout_us request
            in call_nodes X fsm_id deadline (req_command request, req_parameter request) unique_node_ids w))"

text \<open>
  The callback of a node's promise, for a failure or a success (status and output). The library
  calls it at most once, and never after the promise is destroyed, hence the \<open>None\<close> branches.
\<close>

definition erase_op ::
    "('c, 'r, 'p, 'cy) exec_params \<Rightarrow> u64 \<Rightarrow> u16 \<Rightarrow> ('c, 'r, 'p, 'cy) daemon \<Rightarrow> ('c, 'r, 'p, 'cy) daemon" where
  "erase_op X fsm_id node_id w =
     (case find_fsm fsm_id w of
        None \<Rightarrow> w
      | Some fsm \<Rightarrow>
          drop_ops X (filter (\<lambda>(n, op). n = node_id) (node_id_to_op fsm))
            (update_fsms (\<lambda>m. m(fsm_id \<mapsto> fsm\<lparr>node_id_to_op := AList.delete node_id (node_id_to_op fsm)\<rparr>)) w))"

definition forward_response ::
    "('c, 'r, 'p, 'cy) exec_params \<Rightarrow> channel \<Rightarrow> u16 \<Rightarrow> cy_error + u8 \<times> bytes \<Rightarrow>
     ('c, 'r, 'p, 'cy) daemon \<Rightarrow> ('c, 'r, 'p, 'cy) daemon" where
  "forward_response X ch node_id result w =
     (case result of
        Inl cy_failure \<Rightarrow> w
      | Inr (status, output) \<Rightarrow>
          snd (channel_send (gateway_send (exec_env0 X)) (xp_ser_response X) ch
                 \<lparr>res_node_id = node_id, res_status = status, res_output = output\<rparr> w))"

definition on_promise ::
    "('c, 'r, 'p, 'cy) exec_params \<Rightarrow> u64 \<Rightarrow> u16 \<Rightarrow> cy_error + u8 \<times> bytes \<Rightarrow>
     ('c, 'r, 'p, 'cy) daemon \<Rightarrow> ('c, 'r, 'p, 'cy) daemon" where
  "on_promise X fsm_id node_id result w =
     (case find_fsm fsm_id w of
        None \<Rightarrow> w
      | Some fsm \<Rightarrow>
          (case map_of (node_id_to_op fsm) node_id of
             None \<Rightarrow> w
           | Some op \<Rightarrow>
               (let w1 = erase_op X fsm_id node_id (forward_response X (fsm_channel fsm) node_id result w)
                in if AList.delete node_id (node_id_to_op fsm) = [] then Fsm_complete X fsm_id 0 w1 else w1)))"

subsection \<open>The service\<close>

text \<open>The event handler the machine subscribes: the channel's adapter around \<open>handleEvent\<close>.\<close>

definition exec_handler ::
    "('c, 'r, 'p, 'cy) exec_params \<Rightarrow> u64 \<Rightarrow> gateway_event \<Rightarrow>
     ('c, 'r, 'p, 'cy) daemon \<Rightarrow> int \<times> ('c, 'r, 'p, 'cy) daemon" where
  "exec_handler X fsm_id = channel_adapter (xp_des_request X) (Fsm_handleEvent X fsm_id)"

definition exec_env1 :: "('c, 'r, 'p, 'cy) exec_params \<Rightarrow> ('c, 'r, 'p, 'cy) daemon_env" where
  "exec_env1 X = (exec_env0 X)\<lparr>run_handler := exec_handler X\<rparr>"

text \<open>The constructor takes the channel and subscribes.\<close>

definition Fsm_make ::
    "('c, 'r, 'p, 'cy) exec_params \<Rightarrow> u64 \<Rightarrow> channel \<Rightarrow> ('c, 'r, 'p, 'cy) daemon \<Rightarrow> ('c, 'r) fsm \<times> ('c, 'r, 'p, 'cy) daemon" where
  [simp]: "Fsm_make X fsm_id ch w =
     (\<lparr>fsm_channel = ch, node_id_to_op = []\<rparr>, channel_subscribe (gateway_subscribe (exec_env1 X)) ch (Some fsm_id) w)"

text \<open>\<open>id_to_fsm_[fsm_id] = fsm\<close>: an entry already there (after 2^64 sessions) is destroyed.\<close>

definition insert_fsm ::
    "('c, 'r, 'p, 'cy) exec_params \<Rightarrow> u64 \<Rightarrow> ('c, 'r) fsm \<Rightarrow>
     ('c, 'r, 'p, 'cy) daemon \<Rightarrow> ('c, 'r, 'p, 'cy) daemon" where
  "insert_fsm X fsm_id fsm w = update_fsms (\<lambda>m. m(fsm_id \<mapsto> fsm)) (releaseFsmBy X fsm_id w)"

definition ExecCmdServiceImpl_call ::
    "('c, 'r, 'p, 'cy) exec_params \<Rightarrow> channel \<Rightarrow> exec_request \<Rightarrow>
     ('c, 'r, 'p, 'cy) daemon \<Rightarrow> ('c, 'r, 'p, 'cy) daemon" where
  "ExecCmdServiceImpl_call X ch request w =
     (let fsm_id = next_fsm_id (app w);
          w1 = update_app (\<lambda>a. a\<lparr>next_fsm_id := next_fsm_id a + 1\<rparr>) w;
          (fsm, w2) = Fsm_make X fsm_id ch w1;
          w3 = insert_fsm X fsm_id fsm w2
      in Fsm_start X fsm_id request w3)"

text \<open>
  The factory \<open>registerWithContext\<close> gives the router, by the service id it is registered under,
  and the whole environment.
\<close>

definition exec_factory ::
    "('c, 'r, 'p, 'cy) exec_params \<Rightarrow> u64 \<Rightarrow> gateway_id \<Rightarrow> bytes \<Rightarrow>
     ('c, 'r, 'p, 'cy) daemon \<Rightarrow> ('c, 'r, 'p, 'cy) daemon" where
  "exec_factory X svc_id =
     registerChannel_factory (xp_des_request X)
       (\<lambda>g. ExecCmdServiceImpl_call X \<lparr>ch_gateway = g, ch_service_id = svc_id\<rparr>)"

definition exec_env :: "('c, 'r, 'p, 'cy) exec_params \<Rightarrow> ('c, 'r, 'p, 'cy) daemon_env" where
  "exec_env X = (exec_env1 X)\<lparr>run_factory := exec_factory X\<rparr>"

definition svc_full_name :: string where
  "svc_full_name = ''ocvsmd.svc.node.exec_cmd''"

text \<open>The CRC of the service name is the library's.\<close>

definition registerWithContext ::
    "(string \<Rightarrow> u64) \<Rightarrow> string \<Rightarrow> ('c, 'r, 'p, 'cy) daemon \<Rightarrow> ('c, 'r, 'p, 'cy) daemon" where
  "registerWithContext crc64 full_name_and_version w =
     (let svc_id = fst (getServiceDesc crc64 full_name_and_version svc_full_name)
      in registerChannelFactory svc_id svc_id w)"

subsection \<open>The daemon as a state machine\<close>

text \<open>
  The executor runs one callback at a time: a pipe event, or the callback of a pending promise.
\<close>

datatype daemon_event =
    FromPipe server_pipe_event
  | FromNode u64 u16 "cy_error + u8 \<times> bytes"

fun daemon_step ::
    "('c, 'r, 'p, 'cy) exec_params \<Rightarrow> daemon_event \<Rightarrow>
     ('c, 'r, 'p, 'cy) daemon \<Rightarrow> ('c, 'r, 'p, 'cy) daemon option" where
  "daemon_step X (FromPipe ev) w = map_option snd (handlePipeEvent (exec_env X) ev w)"
| "daemon_step X (FromNode fsm_id node_id result) w = Some (on_promise X fsm_id node_id result w)"

inductive daemon_reachable ::
    "('c, 'r, 'p, 'cy) exec_params \<Rightarrow> ('c, 'r, 'p, 'cy) daemon \<Rightarrow> ('c, 'r, 'p, 'cy) daemon \<Rightarrow> bool"
  for X w0 where
    start: "daemon_reachable X w0 w0"
  | step: "daemon_reachable X w0 w \<Longrightarrow> daemon_step X ev w = Some w' \<Longrightarrow> daemon_reachable X w0 w'"

text \<open>What the sessions own of the router's gateways: one strong pointer each.\<close>

definition fsm_owners :: "('c, 'r, 'cy) exec_cmd_service \<Rightarrow> gateway_id \<Rightarrow> nat" where
  "fsm_owners a g = card {i. \<exists>f. id_to_fsm a i = Some f \<and> ch_gateway (fsm_channel f) = g}"

end
