(* ===== verification/Exec_Cmd_Inv.thy ===== *)
theory Exec_Cmd_Inv
  imports Exec_Cmd_Service
begin

text \<open>
  The 'Execute Command' service keeps its side of the contract \<open>server_app\<close>: every pointer its
  sessions take they give back. The interpretation at the end carries the router's invariant to
  every event of the daemon.
\<close>

subsection \<open>The layers of the environment agree\<close>

lemma exec_env_simps [simp]:
  "pipe_send (exec_env0 X) = xp_pipe_send X" "env_codec (exec_env0 X) = xp_codec X"
  "pipe_send (exec_env1 X) = xp_pipe_send X" "env_codec (exec_env1 X) = xp_codec X"
  "pipe_send (exec_env X) = xp_pipe_send X" "env_codec (exec_env X) = xp_codec X"
  "run_handler (exec_env1 X) = exec_handler X" "run_handler (exec_env X) = exec_handler X"
  "run_factory (exec_env X) = exec_factory X"
  by (simp_all add: exec_env0_def exec_env1_def exec_env_def)

lemma send_route_env:
  assumes "pipe_send env = pipe_send env'" and "env_codec env = env_codec env'"
  shows "send_route env = send_route env'"
proof -
  have "send_to_pipe env = send_to_pipe env'"
    by (intro ext) (simp add: send_to_pipe_def assms)
  then show ?thesis by (intro ext) (simp add: send_route_def assms)
qed

lemma gateway_release_env:
  assumes "pipe_send env = pipe_send env'" and "env_codec env = env_codec env'"
  shows "gateway_release env = gateway_release env'"
proof -
  have "onGatewayDisposal env = onGatewayDisposal env'"
    by (intro ext) (simp only: onGatewayDisposal_def send_route_env [OF assms])
  then show ?thesis by (intro ext) (simp only: gateway_release_def)
qed

lemma gateway_release_exec [simp]:
  "gateway_release (exec_env X) = gateway_release (exec_env0 X)"
  "gateway_release (exec_env1 X) = gateway_release (exec_env0 X)"
  by (rule gateway_release_env; simp)+

subsection \<open>Frames of the lenses\<close>

lemma update_app_frame [simp]:
  "client_id_to_map_of_gateways (update_app f w) = client_id_to_map_of_gateways w"
  "service_id_to_channel_factory (update_app f w) = service_id_to_channel_factory w"
  "gateways (update_app f w) = gateways w" "next_gateway (update_app f w) = next_gateway w"
  "server_pipe (update_app f w) = server_pipe w" "app (update_app f w) = f (app w)"
  "find_gateway c t (update_app f w) = find_gateway c t w"
  by (simp_all add: update_app_def)

lemma update_cyphal_frame [simp]:
  "client_id_to_map_of_gateways (update_cyphal f w) = client_id_to_map_of_gateways w"
  "service_id_to_channel_factory (update_cyphal f w) = service_id_to_channel_factory w"
  "gateways (update_cyphal f w) = gateways w" "next_gateway (update_cyphal f w) = next_gateway w"
  "server_pipe (update_cyphal f w) = server_pipe w"
  "app (update_cyphal f w) = (app w)\<lparr>presentation := f (presentation (app w))\<rparr>"
  "find_gateway c t (update_cyphal f w) = find_gateway c t w"
  "find_fsm i (update_cyphal f w) = find_fsm i w"
  by (simp_all add: update_cyphal_def find_fsm_def)

lemma update_fsms_frame [simp]:
  "client_id_to_map_of_gateways (update_fsms f w) = client_id_to_map_of_gateways w"
  "service_id_to_channel_factory (update_fsms f w) = service_id_to_channel_factory w"
  "gateways (update_fsms f w) = gateways w" "next_gateway (update_fsms f w) = next_gateway w"
  "server_pipe (update_fsms f w) = server_pipe w"
  "app (update_fsms f w) = (app w)\<lparr>id_to_fsm := f (id_to_fsm (app w))\<rparr>"
  "find_gateway c t (update_fsms f w) = find_gateway c t w"
  "find_fsm i (update_fsms f w) = f (id_to_fsm (app w)) i"
  by (simp_all add: update_fsms_def find_fsm_def)

subsection \<open>Counting owners\<close>

lemma fsm_owners_cong: "id_to_fsm a' = id_to_fsm a \<Longrightarrow> fsm_owners a' = fsm_owners a"
  by (intro ext) (simp add: fsm_owners_def)

lemma fsm_owners_insert:
  assumes "id_to_fsm a i = None"
  shows "fsm_owners (a\<lparr>id_to_fsm := (id_to_fsm a)(i \<mapsto> f)\<rparr>) g =
         fsm_owners a g + (if ch_gateway (fsm_channel f) = g then 1 else 0)"
proof -
  let ?S = "{i. \<exists>f. id_to_fsm a i = Some f \<and> ch_gateway (fsm_channel f) = g}"
  have "{j. \<exists>f'. ((id_to_fsm a)(i \<mapsto> f)) j = Some f' \<and> ch_gateway (fsm_channel f') = g} =
        (if ch_gateway (fsm_channel f) = g then insert i ?S else ?S)"
    using assms by auto
  moreover have "i \<notin> ?S" using assms by simp
  ultimately show ?thesis by (simp add: fsm_owners_def)
qed

lemma fsm_owners_delete:
  assumes "id_to_fsm a i = Some f"
  shows "fsm_owners a g = fsm_owners (a\<lparr>id_to_fsm := (id_to_fsm a)(i := None)\<rparr>) g +
         (if ch_gateway (fsm_channel f) = g then 1 else 0)"
proof -
  have "id_to_fsm a = ((id_to_fsm a)(i := None))(i \<mapsto> f)" using assms by auto
  then show ?thesis
    using fsm_owners_insert [of "a\<lparr>id_to_fsm := (id_to_fsm a)(i := None)\<rparr>" i f g]
    by (simp add: fsm_owners_def)
qed

lemma fsm_owners_update:
  assumes "id_to_fsm a i = Some f" and "fsm_channel f' = fsm_channel f"
  shows "fsm_owners (a\<lparr>id_to_fsm := (id_to_fsm a)(i \<mapsto> f')\<rparr>) = fsm_owners a"
proof
  fix g
  have "{j. \<exists>f''. ((id_to_fsm a)(i \<mapsto> f')) j = Some f'' \<and> ch_gateway (fsm_channel f'') = g} =
        {i. \<exists>f. id_to_fsm a i = Some f \<and> ch_gateway (fsm_channel f) = g}"
    using assms by auto
  then show "fsm_owners (a\<lparr>id_to_fsm := (id_to_fsm a)(i \<mapsto> f')\<rparr>) g = fsm_owners a g"
    by (simp add: fsm_owners_def)
qed

text \<open>A pointer may move between the call stack and the sessions.\<close>

lemma server_inv_move:
  assumes inv: "server_inv owners H w"
    and own: "\<And>g. H' g + owners' (app w') g = H g + owners (app w) g"
    and same: "client_id_to_map_of_gateways w' = client_id_to_map_of_gateways w"
      "gateways w' = gateways w" "next_gateway w' = next_gateway w"
  shows "server_inv owners' H' w'"
proof (rule server_invI)
  note inv' = server_invD [OF inv]
  show "distinct_keys m" if "client_id_to_map_of_gateways w' c = Some m" for c m
    using that inv'(1) same by simp
  show "\<exists>gw. gateways w' g = Some gw \<and> sg_tag gw = tag \<and> sg_client_id gw = c"
    if "find_gateway c tag w' = Some g" for c tag g
    using that inv'(2) same by (simp add: find_gateway_cong [OF same(1)])
  show "H' g + owners' (app w') g = 0" if "gateways w' g = None" for g
    using that inv'(3) [of g] same own [of g] by simp
  show "sg_use_count gw = H' g + owners' (app w') g \<and> 0 < sg_use_count gw"
    if "gateways w' g = Some gw" for g gw
    unfolding own using that inv'(4) [of g gw] unfolding same by blast
  show "gateways w' g = None" if "next_gateway w' \<le> g" for g
    using that inv'(5) same by simp
qed

subsection \<open>The service's operations keep the invariant\<close>

lemma update_cyphal_inv: "server_inv fsm_owners H w \<Longrightarrow> server_inv fsm_owners H (update_cyphal f w)"
  by (erule server_inv_cong) (simp_all cong: fsm_owners_cong)

lemma drop_ops_inv: "server_inv fsm_owners H w \<Longrightarrow> server_inv fsm_owners H (drop_ops X ops w)"
  unfolding drop_ops_def by (rule update_cyphal_inv)

lemma update_fsm_inv:
  "server_inv fsm_owners H w \<Longrightarrow> find_fsm i w = Some f \<Longrightarrow> fsm_channel f' = fsm_channel f \<Longrightarrow>
   server_inv fsm_owners H (update_fsms (\<lambda>m. m(i \<mapsto> f')) w)"
  by (erule server_inv_cong) (simp_all add: fsm_owners_update find_fsm_def)

lemma releaseFsmBy_inv:
  assumes inv: "server_inv fsm_owners H w"
  shows "server_inv fsm_owners H (releaseFsmBy X fsm_id w)"
proof (cases "find_fsm fsm_id w")
  case (Some f)
  let ?g = "ch_gateway (fsm_channel f)"
  let ?w = "update_fsms (\<lambda>m. m(fsm_id := None)) w"
  have "id_to_fsm (app w) fsm_id = Some f" using Some by (simp add: find_fsm_def)
  note del = fsm_owners_delete [OF this]
  have "server_inv fsm_owners (H(?g := H ?g + 1)) ?w"
    by (rule server_inv_move [OF inv]) (simp_all add: del)
  then have "server_inv fsm_owners (H(?g := H ?g + 1)) (drop_ops X (node_id_to_op f) ?w)"
    by (rule drop_ops_inv)
  from gateway_release_inv [OF this, of ?g "exec_env0 X"] show ?thesis
    by (simp add: releaseFsmBy_def Some Fsm_destroy_def)
qed (simp add: inv releaseFsmBy_def)

lemma Fsm_complete_inv:
  assumes inv: "server_inv fsm_owners H w"
  shows "server_inv fsm_owners H (Fsm_complete X fsm_id err w)"
proof (cases "find_fsm fsm_id w")
  case (Some f)
  then have "find_fsm fsm_id (drop_ops X (node_id_to_op f) w) = Some f" by (simp add: drop_ops_def)
  from update_fsm_inv [OF drop_ops_inv [OF inv] this, of "f\<lparr>node_id_to_op := []\<rparr>"] show ?thesis
    by (simp add: Fsm_complete_def Some releaseFsmBy_inv gateway_complete_inv)
qed (simp add: inv Fsm_complete_def)

lemma emplace_op_inv: "server_inv fsm_owners H w \<Longrightarrow> server_inv fsm_owners H (emplace_op X i n op w)"
  by (auto simp: emplace_op_def split: option.split intro: update_fsm_inv drop_ops_inv)

lemma makeCyphalSvcCallFor_inv:
  "server_inv fsm_owners H w \<Longrightarrow> server_inv fsm_owners H (snd (makeCyphalSvcCallFor X i d n cy w))"
  by (auto simp: makeCyphalSvcCallFor_def split: prod.split sum.split intro!: emplace_op_inv update_cyphal_inv)

lemma call_nodes_inv:
  "server_inv fsm_owners H w \<Longrightarrow> server_inv fsm_owners H (call_nodes X i d cy ns w)"
proof (induction ns arbitrary: w)
  case (Cons n ns)
  obtain err w1 where m: "makeCyphalSvcCallFor X i d n cy w = (err, w1)" by fastforce
  with makeCyphalSvcCallFor_inv [OF Cons.prems, of X i d n cy] have "server_inv fsm_owners H w1" by simp
  then show ?case by (simp add: m Cons.IH Fsm_complete_inv)
qed simp

lemma Fsm_start_inv: "server_inv fsm_owners H w \<Longrightarrow> server_inv fsm_owners H (Fsm_start X i r w)"
  by (simp add: Fsm_start_def Fsm_complete_inv call_nodes_inv)

lemma forward_response_inv:
  "server_inv fsm_owners H w \<Longrightarrow> server_inv fsm_owners H (forward_response X ch n r w)"
  by (auto simp: forward_response_def channel_send_def tryPerformOnSerialized_def gateway_send_inv
      split: sum.split prod.split option.split)

lemma erase_op_inv: "server_inv fsm_owners H w \<Longrightarrow> server_inv fsm_owners H (erase_op X i n w)"
  by (auto simp: erase_op_def split: option.split intro!: drop_ops_inv update_fsm_inv)

lemma on_promise_inv: "server_inv fsm_owners H w \<Longrightarrow> server_inv fsm_owners H (on_promise X i n r w)"
  by (simp add: on_promise_def Let_def Fsm_complete_inv erase_op_inv forward_response_inv split: option.split)

lemma exec_handler_inv:
  "server_inv fsm_owners H w \<Longrightarrow> server_inv fsm_owners H (snd (exec_handler X i ev w))"
  by (cases ev) (simp_all add: exec_handler_def Fsm_complete_inv split: option.split)

interpretation exec_handlers: server_app "exec_env0 X\<lparr>run_handler := exec_handler X\<rparr>" fsm_owners for X
proof unfold_locales
  show "server_inv fsm_owners H w \<Longrightarrow>
        server_inv fsm_owners H (snd (run_handler (exec_env0 X\<lparr>run_handler := exec_handler X\<rparr>) h ev w))" for H w h ev
    by (simp add: exec_handler_inv)
  show "server_inv fsm_owners H w \<Longrightarrow>
        server_inv fsm_owners H (run_factory (exec_env0 X\<lparr>run_handler := exec_handler X\<rparr>) f g payload w)" for H w f g payload
    by (simp add: exec_env0_def)
qed

lemma insert_fsm_inv:
  assumes inv: "server_inv fsm_owners (H(g := H g + 1)) w" and g: "ch_gateway (fsm_channel f) = g"
  shows "server_inv fsm_owners H (insert_fsm X i f w)"
proof -
  let ?w = "releaseFsmBy X i w"
  have inv': "server_inv fsm_owners (H(g := H g + 1)) ?w" by (rule releaseFsmBy_inv [OF inv])
  have "find_fsm i ?w = None"
    by (simp add: releaseFsmBy_def find_fsm_def Fsm_destroy_def gateway_release_def drop_ops_def split: option.split)
  then have "id_to_fsm (app ?w) i = None" by (simp add: find_fsm_def)
  note ins = fsm_owners_insert [OF this, of f]
  show ?thesis unfolding insert_fsm_def
    by (rule server_inv_move [OF inv']) (simp_all add: ins g)
qed

lemma exec_factory_inv:
  assumes inv: "server_inv fsm_owners H w" and held: "0 < H g"
  shows "server_inv fsm_owners H (exec_factory X s g payload w)"
proof (cases "xp_des_request X payload")
  case (Some request)
  have shared: "server_inv fsm_owners (H(g := H g + 1)) (gateway_share g w)"
    by (rule gateway_share_inv [OF inv held_alive [OF inv held]])
  let ?w = "update_app (\<lambda>a. a\<lparr>next_fsm_id := next_fsm_id a + 1\<rparr>) (gateway_share g w)"
  have "server_inv fsm_owners (H(g := H g + 1)) ?w"
    by (rule server_inv_cong [OF shared]) (simp_all cong: fsm_owners_cong)
  then have "server_inv fsm_owners (H(g := H g + 1)) (gateway_subscribe (exec_env1 X) g h ?w)" for h
    unfolding exec_env1_def by (rule exec_handlers.gateway_subscribe_inv)
  then have "server_inv fsm_owners H
      (insert_fsm X i \<lparr>fsm_channel = \<lparr>ch_gateway = g, ch_service_id = s\<rparr>, node_id_to_op = []\<rparr>
        (gateway_subscribe (exec_env1 X) g h ?w))" for i h
    by (rule insert_fsm_inv) simp
  then show ?thesis
    by (simp add: exec_factory_def registerChannel_factory_def Some ExecCmdServiceImpl_call_def Let_def
        Fsm_start_inv)
qed (simp add: inv exec_factory_def registerChannel_factory_def)

interpretation exec: server_app "exec_env X" fsm_owners for X
  by unfold_locales (simp_all add: exec_handler_inv exec_factory_inv)

lemma daemon_step_inv:
  "server_inv fsm_owners H w \<Longrightarrow> daemon_step X ev w = Some w' \<Longrightarrow> server_inv fsm_owners H w'"
  by (cases ev) (auto intro: on_promise_inv exec.handlePipeEvent_inv)

end
