(* ===== verification/Server_Pipe_Use.thy ===== *)
theory Server_Pipe_Use
  imports Exec_Cmd_Inv
begin

text \<open>
  The router and the service it hosts touch the pipe only by sending through it, and which clients
  are connected changes only in the router's own handlers: what sending keeps of the pipe and of
  the set of connected clients, every pipe event and every answer of a node keeps. The locale
  states it of a service once; its interpretation is the 'Execute Command' service.
\<close>

named_theorems pipe_intros \<open>operations that only send\<close>

definition sends_keep :: "('f, 'h, 'p, 'a) server_env \<Rightarrow> ('p \<Rightarrow> client_id set \<Rightarrow> bool) \<Rightarrow> bool" where
  "sends_keep env I \<longleftrightarrow> (\<forall>c payloads p D. I p D \<longrightarrow> I (snd (pipe_send env c payloads p)) D)"

definition pipe_inv :: "('p \<Rightarrow> client_id set \<Rightarrow> bool) \<Rightarrow> ('f, 'h, 'p, 'a) server_router \<Rightarrow> bool" where
  "pipe_inv I w = I (server_pipe w) (dom (client_id_to_map_of_gateways w))"

lemma dom_upd_map_option [simp]: "dom (m(c := map_option f (m c))) = dom m"
  by (auto split: if_splits)

lemma pipe_inv_frame [simp]:
  "pipe_inv I (w\<lparr>gateways := x\<rparr>) = pipe_inv I w"
  "pipe_inv I (update_gateway g f w) = pipe_inv I w"
  "pipe_inv I (gateway_share g w) = pipe_inv I w"
  "pipe_inv I (gateway_complete g e w) = pipe_inv I w"
  "pipe_inv I (unregister_gateway c t w) = pipe_inv I w"
  "pipe_inv I (register_gateway c t g w) = pipe_inv I w"
  "pipe_inv I (snd (GatewayImpl_create c t w)) = pipe_inv I w"
  by (simp_all add: pipe_inv_def update_gateway_def gateway_share_def gateway_complete_def
      unregister_gateway_def register_gateway_def GatewayImpl_create_def del: dom_fun_upd)

subsection \<open>Operations that run no service code\<close>

lemma send_route_keep [pipe_intros]:
  assumes "sends_keep env I" and "pipe_inv I w"
  shows "pipe_inv I (snd (send_route env c r ps w))"
proof (cases "serialize (env_codec env) r")
  case None
  with assms(2) show ?thesis by (simp add: send_route_def tryPerformOnSerialized_def)
next
  case (Some prefix)
  with assms show ?thesis
    by (simp add: send_route_def tryPerformOnSerialized_def send_to_pipe_def sends_keep_def pipe_inv_def split: prod.split)
       (metis snd_conv)
qed

lemma onGatewayDisposal_keep [pipe_intros]:
  assumes "sends_keep env I" and "pipe_inv I w"
  shows "pipe_inv I (onGatewayDisposal env c t e w)"
proof (cases "client_id_to_map_of_gateways w c")
  case (Some m)
  then have "pipe_inv I (w\<lparr>client_id_to_map_of_gateways := (client_id_to_map_of_gateways w)(c \<mapsto> AList.delete t m)\<rparr>)"
    using assms(2) by (simp add: pipe_inv_def insert_absorb domIff)
  with Some assms(1) show ?thesis by (simp add: onGatewayDisposal_def Let_def send_route_keep)
qed (use assms(2) in \<open>simp add: onGatewayDisposal_def\<close>)

lemma gateway_release_keep [pipe_intros]:
  "sends_keep env I \<Longrightarrow> pipe_inv I w \<Longrightarrow> pipe_inv I (gateway_release env g w)"
  by (auto simp: gateway_release_def split: option.split intro!: onGatewayDisposal_keep)

lemma gateway_send_keep [pipe_intros]:
  "sends_keep env I \<Longrightarrow> pipe_inv I w \<Longrightarrow> pipe_inv I (snd (gateway_send env g s p w))"
  by (auto simp: gateway_send_def split: option.split intro!: send_route_keep)

lemma handleRouteConnect_keep [pipe_intros]:
  assumes "sends_keep env I" and "pipe_inv I w" and "\<And>p D. I p D \<Longrightarrow> I p (insert c D)"
  shows "pipe_inv I (snd (handleRouteConnect env c w))"
proof -
  obtain err w1 where s: "send_route env c (RouteConnect VERSION_MAJOR VERSION_MINOR 0) [] w = (err, w1)"
    by fastforce
  then have "pipe_inv I w1" by (metis send_route_keep [OF assms(1,2)] snd_conv)
  with assms(3) s show ?thesis by (simp add: handleRouteConnect_def pipe_inv_def)
qed

subsection \<open>The contract\<close>

locale sends_only =
  fixes env :: "('f, 'h, 'p, 'a) server_env"
  assumes handler_keep: "sends_keep env I \<Longrightarrow> pipe_inv I w \<Longrightarrow> pipe_inv I (snd (run_handler env h ev w))"
    and factory_keep: "sends_keep env I \<Longrightarrow> pipe_inv I w \<Longrightarrow> pipe_inv I (run_factory env f g payload w)"
begin

lemma gateway_event_keep:
  "sends_keep env I \<Longrightarrow> pipe_inv I w \<Longrightarrow> pipe_inv I (snd (gateway_event env g ev w))"
  by (auto simp: gateway_event_def split: option.split intro: handler_keep)

lemma with_locked_keep:
  assumes "sends_keep env I" and "pipe_inv I w"
    and "\<And>w. pipe_inv I w \<Longrightarrow> pipe_inv I (snd (action w))"
  shows "pipe_inv I (snd (with_locked env g action w))"
proof -
  have "pipe_inv I (snd (action (gateway_share g w)))" using assms(2,3) by simp
  then have "pipe_inv I (gateway_release env g (snd (action (gateway_share g w))))"
    by (rule gateway_release_keep [OF assms(1)])
  with assms(2) show ?thesis by (simp add: with_locked_def split: prod.split) (metis snd_conv)
qed

lemma event_locked_keep:
  "sends_keep env I \<Longrightarrow> pipe_inv I w \<Longrightarrow> pipe_inv I (snd (with_locked env g (gateway_event env g ev) w))"
  by (rule with_locked_keep) (auto intro: gateway_event_keep)

lemma complete_all_keep:
  "sends_keep env I \<Longrightarrow> pipe_inv I w \<Longrightarrow> pipe_inv I (complete_all env gws w)"
proof (induction gws arbitrary: w)
  case (Cons x gws)
  obtain tag g where "x = (tag, g)" by fastforce
  with Cons event_locked_keep [OF Cons.prems] show ?case by simp
qed simp

lemma open_channel_keep:
  assumes "sends_keep env I" and "pipe_inv I w"
  shows "pipe_inv I (open_channel env c tag f payload w)"
proof -
  obtain g w1 where new: "GatewayImpl_create c tag w = (g, w1)" by fastforce
  then have "pipe_inv I w1" using assms(2) pipe_inv_frame(7) [of I c tag w] by simp
  with assms(1) show ?thesis by (simp add: open_channel_def new gateway_release_keep factory_keep)
qed

lemma handlePipeMessage_keep:
  assumes keep: "sends_keep env I" and I: "pipe_inv I w" and con: "\<And>p D. I p D \<Longrightarrow> I p (insert c D)"
    and step: "handlePipeEvent env (PipeMessage c payload) w = Some (r, w')"
  shows "pipe_inv I w'"
proof -
  have msg: "pipe_inv I (snd (route_real_payload env c t sq sid p w))" for t sq sid p
    using event_locked_keep [OF keep I] open_channel_keep [OF keep I] I
    by (simp add: route_real_payload_def split: option.split)
  have "pipe_inv I (snd (gateway_event env g (GCompleted e) (unregister_gateway c t w1)))" if "pipe_inv I w1" for g e t w1
    using that by (intro gateway_event_keep [OF keep]) simp
  then have fin: "pipe_inv I (snd (handleRouteChannelEnd env c t e w))" for t e
    using I by (auto simp: handleRouteChannelEnd_def findAndActOnRegisteredGateway_def split: option.split
        intro!: with_locked_keep [OF keep I])
  show ?thesis
    using step I by (auto simp: handlePipeMessage_def handleRouteChannelMsg_def split: option.splits route.splits)
      (metis msg fin handleRouteConnect_keep [OF keep I con] snd_conv)+
qed

lemma handlePipeDisconnected_keep:
  assumes "sends_keep env I" and "I (server_pipe w) (dom (client_id_to_map_of_gateways w) - {c})"
    and "handlePipeEvent env (PipeDisconnected c) w = Some (r, w')"
  shows "pipe_inv I w'"
proof (cases "client_id_to_map_of_gateways w c")
  case None
  with assms(2,3) show ?thesis by (simp add: handlePipeDisconnected_def pipe_inv_def domIff)
next
  case (Some gws)
  have "pipe_inv I (w\<lparr>client_id_to_map_of_gateways := (client_id_to_map_of_gateways w)(c := None)\<rparr>)"
    using assms(2) by (simp add: pipe_inv_def)
  from complete_all_keep [OF assms(1) this, of gws] assms(3) Some show ?thesis
    by (simp add: handlePipeDisconnected_def)
qed

end

subsection \<open>The service\<close>

lemma sends_keep_exec [simp]:
  "sends_keep (exec_env X) I = sends_keep (exec_env0 X) I"
  "sends_keep (exec_env1 X) I = sends_keep (exec_env0 X) I"
  by (simp_all add: sends_keep_def)

lemma pipe_inv_exec_frame [simp]:
  "pipe_inv I (update_app a w) = pipe_inv I w" "pipe_inv I (update_cyphal b w') = pipe_inv I w'"
  "pipe_inv I (update_fsms m w') = pipe_inv I w'" "pipe_inv I (drop_ops X ops w') = pipe_inv I w'"
  by (simp_all add: pipe_inv_def drop_ops_def)

lemma releaseFsmBy_keep [pipe_intros]:
  "sends_keep (exec_env0 X) I \<Longrightarrow> pipe_inv I w \<Longrightarrow> pipe_inv I (releaseFsmBy X i w)"
  by (auto simp: releaseFsmBy_def Fsm_destroy_def split: option.split intro!: gateway_release_keep)

lemma Fsm_complete_keep [pipe_intros]:
  "sends_keep (exec_env0 X) I \<Longrightarrow> pipe_inv I w \<Longrightarrow> pipe_inv I (Fsm_complete X i e w)"
  by (auto simp: Fsm_complete_def Let_def split: option.split intro!: releaseFsmBy_keep)

lemma exec_handler_keep:
  "sends_keep (exec_env0 X) I \<Longrightarrow> pipe_inv I w \<Longrightarrow> pipe_inv I (snd (exec_handler X i ev w))"
  by (cases ev) (auto simp: exec_handler_def Fsm_complete_keep split: option.split)

lemma pipe_inv_emplace_op [simp]: "pipe_inv I (emplace_op X i n op w) = pipe_inv I w"
  by (simp add: emplace_op_def split: option.split)

lemma pipe_inv_makeCyphalSvcCallFor [simp]: "pipe_inv I (snd (makeCyphalSvcCallFor X i d n r w)) = pipe_inv I w"
  by (simp add: makeCyphalSvcCallFor_def split: prod.split sum.split)

lemma call_nodes_keep:
  "sends_keep (exec_env0 X) I \<Longrightarrow> pipe_inv I w \<Longrightarrow> pipe_inv I (call_nodes X i d r ns w)"
proof (induction ns arbitrary: w)
  case (Cons n ns)
  obtain err w1 where m: "makeCyphalSvcCallFor X i d n r w = (err, w1)" by fastforce
  have "pipe_inv I w1" using Cons.prems(2) pipe_inv_makeCyphalSvcCallFor [of I X i d n r w] m by simp
  with Cons.IH Cons.prems(1) m show ?case by (simp add: Fsm_complete_keep)
qed simp

lemma Fsm_start_keep:
  "sends_keep (exec_env0 X) I \<Longrightarrow> pipe_inv I w \<Longrightarrow> pipe_inv I (Fsm_start X i q w)"
  by (simp add: Fsm_start_def Let_def Fsm_complete_keep call_nodes_keep)

interpretation exec_handlers_pipe: sends_only "exec_env1 X" for X
proof unfold_locales
  fix I :: "'c \<Rightarrow> client_id set \<Rightarrow> bool" and w :: "('a, 'b, 'c, 'd) daemon" and h ev
  assume a: "sends_keep (exec_env1 X) I" "pipe_inv I w"
  then show "pipe_inv I (snd (run_handler (exec_env1 X) h ev w))"
    by (simp add: exec_handler_keep)
  show "pipe_inv I (run_factory (exec_env1 X) f g payload w)" for f g payload
    using a by (simp add: exec_env1_def exec_env0_def)
qed

lemma gateway_subscribe_keep:
  assumes "sends_keep (exec_env0 X) I" and "pipe_inv I w"
  shows "pipe_inv I (gateway_subscribe (exec_env1 X) g h w)"
proof -
  have "pipe_inv I (snd (with_locked (exec_env1 X) g' (gateway_event (exec_env1 X) g' ev) w))"
    if "pipe_inv I w" for g' ev w
    using assms(1) that by (intro exec_handlers_pipe.event_locked_keep) simp_all
  with assms(2) show ?thesis
    by (auto simp: gateway_subscribe_def onGatewaySubscription_def findAndActOnRegisteredGateway_def split: option.split)
qed

interpretation exec_pipe: sends_only "exec_env X" for X
proof unfold_locales
  fix I :: "'c \<Rightarrow> client_id set \<Rightarrow> bool" and w :: "('a, 'b, 'c, 'd) daemon"
  assume a: "sends_keep (exec_env X) I" "pipe_inv I w"
  then have k: "sends_keep (exec_env0 X) I" by simp
  show "pipe_inv I (snd (run_handler (exec_env X) h ev w))" for h ev
    using a by (simp add: exec_handler_keep)
  show "pipe_inv I (run_factory (exec_env X) f g payload w)" for f g payload
    using a(2)
    by (auto simp: exec_factory_def registerChannel_factory_def ExecCmdServiceImpl_call_def insert_fsm_def Let_def
        split: option.split intro!: Fsm_start_keep [OF k] releaseFsmBy_keep [OF k] gateway_subscribe_keep [OF k])
qed

lemma on_promise_keep [pipe_intros]:
  assumes k: "sends_keep (exec_env0 X) I" and I: "pipe_inv I w"
  shows "pipe_inv I (on_promise X i n r w)"
proof -
  have "pipe_inv I (forward_response X ch n r w)" for ch
    using I by (auto simp: forward_response_def channel_send_def tryPerformOnSerialized_def
        split: sum.split prod.split option.split intro!: gateway_send_keep [OF k])
  then have "pipe_inv I (erase_op X i n (forward_response X ch n r w))" for ch
    by (auto simp: erase_op_def split: option.split)
  with I show ?thesis
    by (auto simp: on_promise_def Let_def split: option.split intro!: Fsm_complete_keep [OF k])
qed

end
