(* ===== verification/Exec_Cmd_Sessions.thy ===== *)
theory Exec_Cmd_Sessions
  imports Exec_Cmd_Inv
begin

text \<open>
  The sessions of the 'Execute Command' service: each state machine owns one live, registered
  gateway whose handler it is (\<open>sessions_ok\<close>). From that follow the exact effects of a client
  that ends its channel or disappears, of a node's response, and of a new request.
\<close>

abbreviation fsm_gateway :: "('c, 'r) fsm \<Rightarrow> gateway_id" where
  "fsm_gateway f \<equiv> ch_gateway (fsm_channel f)"

definition session_ok :: "u64 \<Rightarrow> ('c, 'r) fsm \<Rightarrow> ('c, 'r, 'p, 'cy) daemon \<Rightarrow> bool" where
  "session_ok i f w \<longleftrightarrow>
     distinct_keys (node_id_to_op f) \<and>
     (\<exists>gw. gateways w (fsm_gateway f) = Some gw \<and> sg_event_handler gw = Some i \<and>
           find_gateway (sg_client_id gw) (sg_tag gw) w = Some (fsm_gateway f))"

definition sessions_ok :: "('c, 'r, 'p, 'cy) daemon \<Rightarrow> bool" where
  "sessions_ok w \<longleftrightarrow> (\<forall>i f. find_fsm i w = Some f \<longrightarrow> session_ok i f w)"

definition daemon_inv :: "('c, 'r, 'p, 'cy) daemon \<Rightarrow> bool" where
  "daemon_inv w \<longleftrightarrow> server_inv fsm_owners (\<lambda>_. 0) w \<and> sessions_ok w"

lemma daemon_invD: "daemon_inv w \<Longrightarrow> server_inv fsm_owners (\<lambda>_. 0) w" "daemon_inv w \<Longrightarrow> sessions_ok w"
  by (simp_all add: daemon_inv_def)

lemma sessions_okE:
  assumes "sessions_ok w" and "find_fsm i w = Some f"
  obtains gw where "gateways w (fsm_gateway f) = Some gw" and "sg_event_handler gw = Some i"
    and "find_gateway (sg_client_id gw) (sg_tag gw) w = Some (fsm_gateway f)"
    and "distinct_keys (node_id_to_op f)"
  using assms unfolding sessions_ok_def session_ok_def by blast

lemma same_gateway_same_session:
  assumes "sessions_ok w" and "find_fsm i w = Some f" and "find_fsm j w = Some f'"
    and "fsm_gateway f = fsm_gateway f'"
  shows "i = j"
proof -
  obtain gw gw' where "gateways w (fsm_gateway f) = Some gw" "sg_event_handler gw = Some i"
    and "gateways w (fsm_gateway f') = Some gw'" "sg_event_handler gw' = Some j"
    using sessions_okE [OF assms(1,2)] sessions_okE [OF assms(1,3)] by metis
  with assms(4) show ?thesis by simp
qed

lemma fsm_owners_one:
  assumes "sessions_ok w" and "find_fsm i w = Some f"
  shows "fsm_owners (app w) (fsm_gateway f) = 1"
proof -
  have "j = i" if "id_to_fsm (app w) j = Some f'" "fsm_gateway f' = fsm_gateway f" for j f'
    by (rule same_gateway_same_session [OF assms(1) _ assms(2) that(2)]) (simp add: find_fsm_def that(1))
  moreover have "id_to_fsm (app w) i = Some f" using assms(2) by (simp add: find_fsm_def)
  ultimately have "{j. \<exists>f'. id_to_fsm (app w) j = Some f' \<and> fsm_gateway f' = fsm_gateway f} = {i}"
    by blast
  then show ?thesis by (simp add: fsm_owners_def)
qed

text \<open>At rest a session's gateway has one owner, and every gateway belongs to a session.\<close>

lemma session_use_count:
  assumes "daemon_inv w" and "find_fsm i w = Some f" and "gateways w (fsm_gateway f) = Some gw"
  shows "sg_use_count gw = 1"
  using server_invD(4) [OF daemon_invD(1) [OF assms(1)] assms(3)]
    fsm_owners_one [OF daemon_invD(2) [OF assms(1)] assms(2)] by simp

lemma gateway_has_session:
  assumes "daemon_inv w" and "gateways w g = Some gw"
  obtains i f where "find_fsm i w = Some f" and "fsm_gateway f = g"
proof -
  have "0 < fsm_owners (app w) g"
    using server_invD(4) [OF daemon_invD(1) [OF assms(1)] assms(2)] by simp
  then have "{i. \<exists>f. id_to_fsm (app w) i = Some f \<and> fsm_gateway f = g} \<noteq> {}"
    unfolding fsm_owners_def by (metis card.empty less_nat_zero_code)
  then obtain i f where "id_to_fsm (app w) i = Some f" "fsm_gateway f = g" by blast
  then show ?thesis using that by (simp add: find_fsm_def)
qed

text \<open>A state with the same registrations and heap, whose machines' channels are the same.\<close>

lemma sessions_ok_cong:
  assumes "sessions_ok w"
    and "client_id_to_map_of_gateways w' = client_id_to_map_of_gateways w"
    and "gateways w' = gateways w"
    and "\<And>i f. find_fsm i w' = Some f \<Longrightarrow>
           \<exists>f0. find_fsm i w = Some f0 \<and> fsm_gateway f = fsm_gateway f0 \<and>
                (distinct_keys (node_id_to_op f0) \<longrightarrow> distinct_keys (node_id_to_op f))"
  shows "sessions_ok w'"
  unfolding sessions_ok_def
proof (intro allI impI)
  fix i f
  assume "find_fsm i w' = Some f"
  then obtain f0 where f0: "find_fsm i w = Some f0" "fsm_gateway f = fsm_gateway f0"
    "distinct_keys (node_id_to_op f0) \<longrightarrow> distinct_keys (node_id_to_op f)" using assms(4) by blast
  from sessions_okE [OF assms(1) f0(1)] f0 show "session_ok i f w'"
    unfolding session_ok_def assms(3) find_gateway_cong [OF assms(2)] by metis
qed

subsection \<open>Ending a session\<close>

text \<open>The session leaves the service and the heap; its pending requests are cancelled.\<close>

definition end_session ::
    "('c, 'r, 'p, 'cy) exec_params \<Rightarrow> u64 \<Rightarrow> ('c, 'r) fsm \<Rightarrow>
     ('c, 'r, 'p, 'cy) daemon \<Rightarrow> ('c, 'r, 'p, 'cy) daemon" where
  "end_session X i f w =
     drop_ops X (node_id_to_op f)
       (update_fsms (\<lambda>m. m(i := None)) (w\<lparr>gateways := (gateways w)(fsm_gateway f := None)\<rparr>))"

lemma end_session_frame [simp]:
  "client_id_to_map_of_gateways (end_session X i f w) = client_id_to_map_of_gateways w"
  "service_id_to_channel_factory (end_session X i f w) = service_id_to_channel_factory w"
  "gateways (end_session X i f w) = (gateways w)(fsm_gateway f := None)"
  "server_pipe (end_session X i f w) = server_pipe w"
  "next_gateway (end_session X i f w) = next_gateway w"
  "find_gateway c t (end_session X i f w) = find_gateway c t w"
  "find_fsm j (end_session X i f w) = (if j = i then None else find_fsm j w)"
  by (simp_all add: end_session_def drop_ops_def find_fsm_def)

lemma delete_absent: "map_of al k = None \<Longrightarrow> AList.delete k al = al"
  by (induction al) (auto split: if_splits)

lemma onGatewayDisposal_id:
  assumes "find_gateway c tag w = None"
  shows "onGatewayDisposal env c tag e w = w"
proof (cases "client_id_to_map_of_gateways w c")
  case (Some m)
  with assms have m: "map_of m tag = None" by (simp add: find_gateway_def)
  have "(client_id_to_map_of_gateways w)(c \<mapsto> m) = client_id_to_map_of_gateways w"
    using Some by (rule fun_upd_idem)
  with Some m show ?thesis by (simp add: onGatewayDisposal_def delete_absent)
qed (simp add: onGatewayDisposal_def)

lemma gateway_release_more:
  "gateways w g = Some gw \<Longrightarrow> 1 < sg_use_count gw \<Longrightarrow>
   gateway_release env g w = update_gateway g (\<lambda>gw. gw\<lparr>sg_use_count := sg_use_count gw - 1\<rparr>) w"
  by (simp add: gateway_release_def)

lemma gateway_release_unregistered:
  "gateways w g = Some gw \<Longrightarrow> sg_use_count gw = 1 \<Longrightarrow>
   find_gateway (sg_client_id gw) (sg_tag gw) w = None \<Longrightarrow>
   gateway_release env g w = w\<lparr>gateways := (gateways w)(g := None)\<rparr>"
  by (simp add: gateway_release_def onGatewayDisposal_id)

lemma drop_no_ops [simp]: "drop_ops X [] w = w"
  by (simp add: drop_ops_def update_cyphal_def update_app_def)

lemma Fsm_complete_eq:
  assumes "find_fsm i w = Some f"
  shows "Fsm_complete X i err w =
     gateway_release (exec_env0 X) (fsm_gateway f)
       (gateway_complete (fsm_gateway f) err
         (drop_ops X (node_id_to_op f) (update_fsms (\<lambda>m. m(i := None)) w)))"
proof -
  let ?w1 = "gateway_complete (fsm_gateway f) err
      (update_fsms (\<lambda>m. m(i \<mapsto> f\<lparr>node_id_to_op := []\<rparr>)) (drop_ops X (node_id_to_op f) w))"
  have "find_fsm i ?w1 = Some (f\<lparr>node_id_to_op := []\<rparr>)"
    by (simp add: gateway_complete_def find_fsm_def)
  then have "Fsm_complete X i err w =
      gateway_release (exec_env0 X) (fsm_gateway f) (update_fsms (\<lambda>m. m(i := None)) ?w1)"
    by (simp add: Fsm_complete_def assms releaseFsmBy_def Fsm_destroy_def)
  also have "update_fsms (\<lambda>m. m(i := None)) ?w1 = gateway_complete (fsm_gateway f) err
      (drop_ops X (node_id_to_op f) (update_fsms (\<lambda>m. m(i := None)) w))"
    by (intro server_router.equality exec_cmd_service.equality)
       (simp_all add: gateway_complete_def drop_ops_def)
  finally show ?thesis .
qed

text \<open>The last pointer is the router's own: it locked the gateway to deliver the event.\<close>

lemma complete_locked:
  assumes f: "find_fsm i w = Some f" and gw: "gateways w (fsm_gateway f) = Some gw"
    "sg_event_handler gw = Some i" "sg_use_count gw = 1"
    and unreg: "find_gateway (sg_client_id gw) (sg_tag gw) w = None"
  shows "with_locked (exec_env X) (fsm_gateway f)
           (gateway_event (exec_env X) (fsm_gateway f) (GCompleted e)) w = (0, end_session X i f w)"
proof -
  let ?g = "fsm_gateway f"
  have f1: "find_fsm i (gateway_share ?g w) = Some f"
    using f by (simp add: find_fsm_def gateway_share_def)
  let ?w1 = "drop_ops X (node_id_to_op f) (update_fsms (\<lambda>m. m(i := None)) (gateway_share ?g w))"
  let ?w2 = "update_gateway ?g (\<lambda>gw. gw\<lparr>sg_use_count := sg_use_count gw - 1\<rparr>) (gateway_complete ?g ECANCELED ?w1)"
  have g1: "gateways ?w1 ?g = Some (gw\<lparr>sg_use_count := 2\<rparr>)"
    using gw by (simp add: drop_ops_def gateway_share_def)
  have c: "Fsm_complete X i ECANCELED (gateway_share ?g w) = ?w2"
    unfolding Fsm_complete_eq [OF f1]
    by (rule gateway_release_more [where gw = "gw\<lparr>sg_use_count := 2, sg_completion_error_code := ECANCELED\<rparr>"])
       (simp_all add: gateway_complete_def g1)
  have g2: "gateways ?w2 ?g = Some (gw\<lparr>sg_use_count := 1, sg_completion_error_code := ECANCELED\<rparr>)"
    by (simp add: gateway_complete_def g1)
  have u2: "find_gateway (sg_client_id gw) (sg_tag gw) ?w2 = None"
    using unreg by (simp add: gateway_complete_def drop_ops_def)
  have "gateway_release (exec_env0 X) ?g ?w2 = ?w2\<lparr>gateways := (gateways ?w2)(?g := None)\<rparr>"
    using u2 by (intro gateway_release_unregistered [OF g2]) simp_all
  also have "\<dots> = end_session X i f w"
    by (intro server_router.equality exec_cmd_service.equality)
       (simp_all add: gateway_complete_def gateway_share_def drop_ops_def end_session_def)
  finally show ?thesis
    using with_locked_event [OF gw(1,2), of "exec_env X" "GCompleted e"] c by (simp add: exec_handler_def)
qed

text \<open>A session whose registration is already gone, which the router may complete.\<close>

definition detached :: "gateway_id \<Rightarrow> u64 \<Rightarrow> ('c, 'r) fsm \<Rightarrow> ('c, 'r, 'p, 'cy) daemon \<Rightarrow> bool" where
  "detached g i f w \<longleftrightarrow>
     find_fsm i w = Some f \<and> fsm_gateway f = g \<and>
     (\<exists>gw. gateways w g = Some gw \<and> sg_event_handler gw = Some i \<and> sg_use_count gw = 1 \<and>
           find_gateway (sg_client_id gw) (sg_tag gw) w = None)"

lemma complete_detached:
  assumes "detached g i f w"
  shows "with_locked (exec_env X) g (gateway_event (exec_env X) g (GCompleted e)) w = (0, end_session X i f w)"
  using assms complete_locked [of i w f] unfolding detached_def by blast

lemma detached_end_other:
  assumes "detached g i f w" and "detached g' j f' w" and "g \<noteq> g'"
  shows "detached g' j f' (end_session X i f w)"
proof -
  have "j \<noteq> i" using assms by (auto simp: detached_def)
  with assms show ?thesis by (simp add: detached_def)
qed

definition without_gateways ::
    "gateway_id set \<Rightarrow> ('c, 'r, 'p, 'cy) daemon \<Rightarrow> ('c, 'r, 'p, 'cy) daemon \<Rightarrow> bool" where
  "without_gateways G w w' \<longleftrightarrow>
     client_id_to_map_of_gateways w' = client_id_to_map_of_gateways w \<and>
     service_id_to_channel_factory w' = service_id_to_channel_factory w \<and>
     server_pipe w' = server_pipe w \<and> next_gateway w' = next_gateway w \<and>
     gateways w' = gateways w |` (- G) \<and>
     (\<forall>j. find_fsm j w' =
        (case find_fsm j w of None \<Rightarrow> None | Some f \<Rightarrow> if fsm_gateway f \<in> G then None else Some f))"

definition distinct_gateways :: "('c, 'r, 'p, 'cy) daemon \<Rightarrow> bool" where
  "distinct_gateways w \<longleftrightarrow>
     (\<forall>i f j f'. find_fsm i w = Some f \<longrightarrow> find_fsm j w = Some f' \<longrightarrow> fsm_gateway f = fsm_gateway f' \<longrightarrow> i = j)"

lemma distinct_gatewaysD:
  "distinct_gateways w \<Longrightarrow> find_fsm i w = Some f \<Longrightarrow> find_fsm j w = Some f' \<Longrightarrow>
   fsm_gateway f = fsm_gateway f' \<Longrightarrow> i = j"
  unfolding distinct_gateways_def by blast

lemma distinct_gateways_end: "distinct_gateways w \<Longrightarrow> distinct_gateways (end_session X i f w)"
  unfolding distinct_gateways_def by (simp split: if_splits)

lemma sessions_distinct_gateways: "sessions_ok w \<Longrightarrow> distinct_gateways w"
  unfolding distinct_gateways_def by (blast intro: same_gateway_same_session)

lemma without_step:
  assumes d: "detached g i f w" and dist: "distinct_gateways w"
    and rest: "without_gateways G (end_session X i f w) w'"
  shows "without_gateways (insert g G) w w'"
proof -
  have f: "find_fsm i w = Some f" "fsm_gateway f = g" using d by (simp_all add: detached_def)
  have "find_fsm j w' = (case find_fsm j w of None \<Rightarrow> None
      | Some f' \<Rightarrow> if fsm_gateway f' \<in> insert g G then None else Some f')" for j
  proof (cases "find_fsm j w")
    case None
    with rest show ?thesis by (auto simp: without_gateways_def)
  next
    case (Some f')
    with distinct_gatewaysD [OF dist f(1) Some] f have "j = i \<longleftrightarrow> fsm_gateway f' = g" by auto
    with Some rest show ?thesis by (auto simp: without_gateways_def)
  qed
  with rest f(2) show ?thesis
    by (auto simp: without_gateways_def restrict_map_def fun_eq_iff)
qed

lemma complete_all_detached:
  assumes "distinct (map snd gws)"
    and "\<forall>g \<in> snd ` set gws. \<exists>i f. detached g i f w"
    and "distinct_gateways w"
  shows "without_gateways (snd ` set gws) w (complete_all (exec_env X) gws w)"
  using assms
proof (induction gws arbitrary: w)
  case Nil
  then show ?case by (auto simp: without_gateways_def split: option.split)
next
  case (Cons x gws)
  obtain t g where x: "x = (t, g)" by fastforce
  obtain i f where d: "detached g i f w" using Cons.prems(2) by (auto simp: x)
  let ?w = "end_session X i f w"
  have "\<forall>g' \<in> snd ` set gws. \<exists>j f'. detached g' j f' ?w"
    using Cons.prems(1,2) detached_end_other [OF d] by (fastforce simp: x)
  then have "without_gateways (snd ` set gws) ?w (complete_all (exec_env X) gws ?w)"
    using Cons.prems(1,3) by (intro Cons.IH) (simp_all add: x distinct_gateways_end)
  from without_step [OF d Cons.prems(3) this] show ?case
    by (simp add: x complete_detached [OF d])
qed

lemma find_fsm_unregister [simp]: "find_fsm j (unregister_gateway c t w) = find_fsm j w"
  by (simp add: find_fsm_def)

subsection \<open>What the client does to its sessions\<close>

lemma share_unregister: "gateway_share g (unregister_gateway c t w) = unregister_gateway c t (gateway_share g w)"
  by (simp add: gateway_share_def update_gateway_def unregister_gateway_def)

lemma session_unregistered:
  assumes inv: "daemon_inv w" and f: "find_fsm i w = Some f" and gw: "gateways w (fsm_gateway f) = Some gw"
  shows "detached (fsm_gateway f) i f (unregister_gateway (sg_client_id gw) (sg_tag gw) w)"
proof -
  have "sg_event_handler gw = Some i"
    using sessions_okE [OF daemon_invD(2) [OF inv] f] gw by (metis option.inject)
  with f gw session_use_count [OF inv f gw] show ?thesis
    by (simp add: detached_def find_unregistered find_fsm_def)
qed

lemma registered_gateway:
  assumes "daemon_inv w" and "find_fsm i w = Some f" and "gateways w (fsm_gateway f) = Some gw"
  shows "find_gateway (sg_client_id gw) (sg_tag gw) w = Some (fsm_gateway f)"
    and "sg_event_handler gw = Some i"
  using sessions_okE [OF daemon_invD(2) [OF assms(1)] assms(2)] assms(3) by (metis option.inject)+

lemma handleRouteChannelEnd_session:
  assumes inv: "daemon_inv w" and f: "find_fsm i w = Some f" and gw: "gateways w (fsm_gateway f) = Some gw"
  shows "handleRouteChannelEnd (exec_env X) (sg_client_id gw) (sg_tag gw) e w =
         (0, end_session X i f (unregister_gateway (sg_client_id gw) (sg_tag gw) w))"
proof -
  note reg = registered_gateway [OF inv f gw]
  have "with_locked (exec_env X) (fsm_gateway f)
      (\<lambda>w1. gateway_event (exec_env X) (fsm_gateway f) (GCompleted e) (unregister_gateway (sg_client_id gw) (sg_tag gw) w1)) w =
    with_locked (exec_env X) (fsm_gateway f) (gateway_event (exec_env X) (fsm_gateway f) (GCompleted e))
      (unregister_gateway (sg_client_id gw) (sg_tag gw) w)"
    by (simp add: with_locked_def share_unregister gateway_alive_def gw)
  then show ?thesis
    using reg complete_detached [OF session_unregistered [OF inv f gw], of X e] find_connected [OF reg(1)]
    by (simp add: handleRouteChannelEnd_def findAndActOnRegisteredGateway_def)
qed

lemma session_ok_unregistered:
  assumes "session_ok j f' w" and "find_gateway c t w \<noteq> Some (fsm_gateway f')"
  shows "session_ok j f' (unregister_gateway c t w)"
  using assms by (auto simp: session_ok_def find_unregistered)

text \<open>Ending one session disturbs no other.\<close>

lemma sessions_ok_end:
  assumes ok: "sessions_ok w" and f: "find_fsm i w = Some f"
    and reg: "find_gateway c t w = Some (fsm_gateway f)"
  shows "sessions_ok (end_session X i f (unregister_gateway c t w))"
  unfolding sessions_ok_def
proof (intro allI impI)
  fix j f'
  assume "find_fsm j (end_session X i f (unregister_gateway c t w)) = Some f'"
  then have j: "j \<noteq> i" "find_fsm j w = Some f'" by (auto split: if_splits)
  then have ne: "fsm_gateway f' \<noteq> fsm_gateway f"
    using same_gateway_same_session [OF ok _ f] by metis
  have "session_ok j f' w" using ok j(2) by (simp add: sessions_ok_def)
  then have "session_ok j f' (unregister_gateway c t w)"
    using reg ne by (intro session_ok_unregistered) simp_all
  with ne show "session_ok j f' (end_session X i f (unregister_gateway c t w))"
    by (auto simp: session_ok_def)
qed

text \<open>
  C25. When a client ends a channel, exactly its session goes: every pending Cyphal request of the
  session is cancelled, its gateway is freed and unregistered, every other session is untouched,
  and nothing is sent back (no echo).
\<close>

theorem client_ends_session:
  assumes "daemon_inv w" and "find_fsm i w = Some f" and "gateways w (fsm_gateway f) = Some gw"
    and "deserialize (xp_codec X) payload = Some (RouteChannelEnd (sg_tag gw) e)"
  shows "daemon_step X (FromPipe (PipeMessage (sg_client_id gw) payload)) w =
         Some (end_session X i f (unregister_gateway (sg_client_id gw) (sg_tag gw) w))"
  using assms(4) handleRouteChannelEnd_session [OF assms(1-3)] by (simp add: handlePipeMessage_def)

subsection \<open>Disconnection\<close>

definition session_client :: "('c, 'r) fsm \<Rightarrow> ('c, 'r, 'p, 'cy) daemon \<Rightarrow> client_id option" where
  "session_client f w = map_option sg_client_id (gateways w (fsm_gateway f))"

lemma map_entry_session:
  assumes inv: "daemon_inv w" and m: "client_id_to_map_of_gateways w c = Some m" and tg: "(t, g) \<in> set m"
  obtains i f gw where "find_fsm i w = Some f" "fsm_gateway f = g" "gateways w g = Some gw"
    "sg_client_id gw = c" "sg_tag gw = t" "sg_event_handler gw = Some i" "sg_use_count gw = 1"
proof -
  note s = daemon_invD(1) [OF inv]
  have "find_gateway c t w = Some g"
    using m tg server_invD(1) [OF s m] by (simp add: find_gateway_def)
  then obtain gw where gw: "gateways w g = Some gw" "sg_tag gw = t" "sg_client_id gw = c"
    using server_invD(2) [OF s] by blast
  from gateway_has_session [OF inv gw(1)] obtain i f where f: "find_fsm i w = Some f" "fsm_gateway f = g" .
  with gw registered_gateway(2) [OF inv f(1)] session_use_count [OF inv f(1)] show ?thesis
    by (intro that [OF f gw(1)]) simp_all
qed

lemma disconnect_sessions:
  assumes inv: "daemon_inv w" and m: "client_id_to_map_of_gateways w c = Some m"
  shows "without_gateways (snd ` set m) (w\<lparr>client_id_to_map_of_gateways := (client_id_to_map_of_gateways w)(c := None)\<rparr>)
           (snd (handlePipeDisconnected (exec_env X) c w))"
proof -
  let ?w = "w\<lparr>client_id_to_map_of_gateways := (client_id_to_map_of_gateways w)(c := None)\<rparr>"
  have dk: "distinct_keys m" by (rule server_invD(1) [OF daemon_invD(1) [OF inv] m])
  have "inj_on snd (set m)"
  proof (rule inj_onI)
    fix x y assume xy: "x \<in> set m" "y \<in> set m" "snd x = snd y"
    obtain t g t' where "x = (t, g)" "y = (t', g)" using xy(3) by (cases x, cases y) auto
    with map_entry_session [OF inv m, of t g] map_entry_session [OF inv m, of t' g] xy(1,2)
    show "x = y" by (metis option.inject)
  qed
  moreover have "distinct m" using dk by (simp add: distinct_map)
  ultimately have "distinct (map snd m)" by (simp add: distinct_map)
  moreover have "\<exists>i f. detached g i f ?w" if "(t, g) \<in> set m" for t g
  proof -
    from map_entry_session [OF inv m that] obtain i f gw where "find_fsm i w = Some f" "fsm_gateway f = g"
      "gateways w g = Some gw" "sg_client_id gw = c" "sg_event_handler gw = Some i" "sg_use_count gw = 1" .
    then have "detached g i f ?w" by (simp add: detached_def find_fsm_def find_gateway_def)
    then show ?thesis by blast
  qed
  moreover have "distinct_gateways ?w"
    using sessions_distinct_gateways [OF daemon_invD(2) [OF inv]]
    by (simp add: distinct_gateways_def find_fsm_def)
  ultimately have "without_gateways (snd ` set m) ?w (complete_all (exec_env X) m ?w)"
    by (intro complete_all_detached) auto
  then show ?thesis by (simp add: handlePipeDisconnected_def m)
qed

lemma session_client_iff:
  assumes inv: "daemon_inv w" and m: "client_id_to_map_of_gateways w c = Some m" and f: "find_fsm i w = Some f"
  shows "fsm_gateway f \<in> snd ` set m \<longleftrightarrow> session_client f w = Some c"
proof
  assume "fsm_gateway f \<in> snd ` set m"
  then obtain t where "(t, fsm_gateway f) \<in> set m" by auto
  from map_entry_session [OF inv m this] show "session_client f w = Some c"
    by (metis session_client_def option.simps(9))
next
  assume "session_client f w = Some c"
  then obtain gw where gw: "gateways w (fsm_gateway f) = Some gw" "sg_client_id gw = c"
    by (auto simp: session_client_def)
  with registered_gateway(1) [OF inv f gw(1)] m have "map_of m (sg_tag gw) = Some (fsm_gateway f)"
    by (simp add: find_gateway_def)
  then show "fsm_gateway f \<in> snd ` set m" by (force dest: map_of_SomeD)
qed

text \<open>
  C24. When a client disappears, exactly its sessions go: each is completed and freed, the
  sessions and registrations of every other client stay as they were, and nothing is sent.
\<close>

theorem client_disconnect:
  assumes "daemon_inv w" and "isConnected c w"
    and "daemon_step X (FromPipe (PipeDisconnected c)) w = Some w'"
  shows "(\<forall>i. find_fsm i w' =
            (case find_fsm i w of
               None \<Rightarrow> None | Some f \<Rightarrow> if session_client f w = Some c then None else Some f)) \<and>
         client_id_to_map_of_gateways w' = (client_id_to_map_of_gateways w)(c := None) \<and>
         server_pipe w' = server_pipe w"
proof -
  obtain m where m: "client_id_to_map_of_gateways w c = Some m"
    using assms(2) by (auto simp: isConnected_def)
  have "w' = snd (handlePipeDisconnected (exec_env X) c w)" using assms(3) by simp
  with disconnect_sessions [OF assms(1) m, of X] session_client_iff [OF assms(1) m] show ?thesis
    by (auto simp: without_gateways_def find_fsm_def split: option.splits)
qed

lemma disconnect_daemon_inv:
  assumes inv: "daemon_inv w"
  shows "daemon_inv (snd (handlePipeDisconnected (exec_env X) c w))" (is "daemon_inv ?w'")
proof (cases "client_id_to_map_of_gateways w c")
  case None
  with inv show ?thesis by (simp add: handlePipeDisconnected_def)
next
  case (Some m)
  note without = disconnect_sessions [OF inv Some, of X]
  have "session_ok j f ?w'" if "find_fsm j ?w' = Some f" for j f
  proof -
    have f: "find_fsm j w = Some f" "fsm_gateway f \<notin> snd ` set m"
      using that without by (auto simp: without_gateways_def find_fsm_def split: option.splits if_splits)
    then have ne: "session_client f w \<noteq> Some c" using session_client_iff [OF inv Some f(1)] by simp
    from sessions_okE [OF daemon_invD(2) [OF inv] f(1)] obtain gw where
      gw: "gateways w (fsm_gateway f) = Some gw" "sg_event_handler gw = Some j"
      "find_gateway (sg_client_id gw) (sg_tag gw) w = Some (fsm_gateway f)" "distinct_keys (node_id_to_op f)" .
    with ne have "sg_client_id gw \<noteq> c" by (simp add: session_client_def)
    with gw f(2) without show ?thesis
      by (auto simp: session_ok_def without_gateways_def find_gateway_def restrict_map_def)
  qed
  with daemon_invD(1) [OF inv] show ?thesis
    by (simp add: daemon_inv_def exec.handlePipeDisconnected_inv sessions_ok_def)
qed

end
