(* ===== verification/Exec_Cmd_Progress.thy ===== *)
theory Exec_Cmd_Progress
  imports Exec_Cmd_Sessions
begin

text \<open>
  How sessions begin, progress and end by themselves: the invariant \<open>daemon_inv\<close> over every event
  of the daemon, the effect of a node's answer, and the whole life of a session.
\<close>

subsection \<open>Operations of the service keep the sessions well formed\<close>

lemma gateway_release_session_ok:
  assumes ok: "session_ok j f w" and gw: "gateways w g = Some gw"
    and other: "fsm_gateway f \<noteq> g \<or> 1 < sg_use_count gw"
    and reg: "\<And>g'. find_gateway (sg_client_id gw) (sg_tag gw) w = Some g' \<Longrightarrow> g' = g"
  shows "session_ok j f (gateway_release env g w)"
proof (cases "1 < sg_use_count gw")
  case True
  with ok gw show ?thesis
    by (auto simp: session_ok_def gateway_release_more [OF gw True])
next
  case False
  then have ne: "fsm_gateway f \<noteq> g" using other by simp
  have "gateway_release env g w = onGatewayDisposal env (sg_client_id gw) (sg_tag gw) (sg_completion_error_code gw)
      (w\<lparr>gateways := (gateways w)(g := None)\<rparr>)"
    using False gw by (simp add: gateway_release_def)
  moreover obtain gwa where gwa: "gateways w (fsm_gateway f) = Some gwa" "sg_event_handler gwa = Some j"
    "find_gateway (sg_client_id gwa) (sg_tag gwa) w = Some (fsm_gateway f)" "distinct_keys (node_id_to_op f)"
    using ok by (auto simp: session_ok_def)
  moreover from gwa(3) reg ne have "\<not> (sg_client_id gwa = sg_client_id gw \<and> sg_tag gwa = sg_tag gw)"
    by metis
  ultimately show ?thesis
    using ne by (auto simp: session_ok_def find_gateway_disposed)
qed

lemma session_ok_set_fsms [simp]:
  "session_ok j f (update_fsms h w) = session_ok j f w"
  "session_ok j f (update_cyphal k w) = session_ok j f w"
  "session_ok j f (drop_ops X ops w) = session_ok j f w"
  by (simp_all add: session_ok_def drop_ops_def)

lemma session_ok_complete [simp]: "session_ok j f (gateway_complete g e w) = session_ok j f w"
  by (auto simp: session_ok_def gateway_complete_def)

lemma sessions_okD: "sessions_ok w \<Longrightarrow> find_fsm i w = Some f \<Longrightarrow> session_ok i f w"
  by (simp add: sessions_ok_def)

lemma sessions_ok_cyphal [simp]: "sessions_ok (update_cyphal k w) = sessions_ok w"
  by (simp add: sessions_ok_def)

lemma gateway_release_find_fsm [simp]: "find_fsm j (gateway_release env g w) = find_fsm j w"
  by (simp add: find_fsm_def gateway_release_def split: option.split)

lemma find_fsm_frame [simp]:
  "find_fsm j (gateway_complete g e w) = find_fsm j w"
  "find_fsm j (drop_ops X ops w) = find_fsm j w"
  "find_fsm j (update_gateway g h w) = find_fsm j w"
  "find_fsm j (gateway_share g w) = find_fsm j w"
  by (simp_all add: find_fsm_def gateway_complete_def drop_ops_def gateway_share_def)

lemma release_pointer_sessions_ok:
  assumes ok: "sessions_ok w" and f: "find_fsm i w = Some f"
    and w1: "find_fsm i w1 = None" "\<And>j f'. find_fsm j w1 = Some f' \<Longrightarrow> find_fsm j w = Some f'"
    and same: "client_id_to_map_of_gateways w1 = client_id_to_map_of_gateways w"
      "\<And>g. map_option (\<lambda>gw. (sg_tag gw, sg_client_id gw, sg_event_handler gw)) (gateways w1 g) =
           map_option (\<lambda>gw. (sg_tag gw, sg_client_id gw, sg_event_handler gw)) (gateways w g)"
  shows "sessions_ok (gateway_release env (fsm_gateway f) w1)"
proof -
  obtain gw where gw: "gateways w (fsm_gateway f) = Some gw"
    "find_gateway (sg_client_id gw) (sg_tag gw) w = Some (fsm_gateway f)"
    using sessions_okE [OF ok f] by metis
  with same(2) [of "fsm_gateway f"] obtain gw1 where gw1: "gateways w1 (fsm_gateway f) = Some gw1"
    "sg_tag gw1 = sg_tag gw" "sg_client_id gw1 = sg_client_id gw" by auto
  have "session_ok j f' (gateway_release env (fsm_gateway f) w1)" if "find_fsm j w1 = Some f'" for j f'
  proof -
    note j = w1(2) [OF that]
    have "j \<noteq> i" using w1(1) that by auto
    then have ne: "fsm_gateway f' \<noteq> fsm_gateway f" using same_gateway_same_session [OF ok j f] by blast
    have "session_ok j f' w1"
      using sessions_okD [OF ok j] same(2) [of "fsm_gateway f'"]
      by (auto simp: session_ok_def find_gateway_cong [OF same(1)])
    then show ?thesis
      using ne gw(2) gw1 by (intro gateway_release_session_ok [OF _ gw1(1)]) (simp_all add: find_gateway_cong [OF same(1)])
  qed
  then show ?thesis by (simp add: sessions_ok_def)
qed

lemma Fsm_complete_sessions_ok:
  assumes ok: "sessions_ok w"
  shows "sessions_ok (Fsm_complete X i err w)"
proof (cases "find_fsm i w")
  case (Some f)
  show ?thesis unfolding Fsm_complete_eq [OF Some]
    by (rule release_pointer_sessions_ok [OF ok Some])
       (auto simp: gateway_complete_def drop_ops_def find_fsm_def option.map_comp o_def split: if_splits)
qed (simp add: ok Fsm_complete_def)

lemma releaseFsmBy_sessions_ok:
  assumes ok: "sessions_ok w"
  shows "sessions_ok (releaseFsmBy X i w)"
proof (cases "find_fsm i w")
  case (Some f)
  have "sessions_ok (gateway_release (exec_env0 X) (fsm_gateway f)
      (drop_ops X (node_id_to_op f) (update_fsms (\<lambda>m. m(i := None)) w)))"
    by (rule release_pointer_sessions_ok [OF ok Some])
       (auto simp: drop_ops_def find_fsm_def split: if_splits)
  then show ?thesis by (simp add: releaseFsmBy_def Some Fsm_destroy_def)
qed (simp add: ok releaseFsmBy_def)

lemma update_fsm_sessions_ok:
  assumes "sessions_ok w" and "find_fsm i w = Some f" and "fsm_channel f' = fsm_channel f"
    and "distinct_keys (node_id_to_op f) \<Longrightarrow> distinct_keys (node_id_to_op f')"
  shows "sessions_ok (update_fsms (\<lambda>m. m(i \<mapsto> f')) w)"
  using assms(3,4)
  by (intro sessions_ok_cong [OF assms(1)]) (use assms(2) in \<open>auto simp: find_fsm_def split: if_splits\<close>)

lemma emplace_op_sessions_ok: "sessions_ok w \<Longrightarrow> sessions_ok (emplace_op X i n op w)"
  by (auto simp: emplace_op_def drop_ops_def map_of_eq_None_iff split: option.split intro!: update_fsm_sessions_ok)

lemma makeCyphalSvcCallFor_sessions_ok:
  "sessions_ok w \<Longrightarrow> sessions_ok (snd (makeCyphalSvcCallFor X i d n cy w))"
  by (auto simp: makeCyphalSvcCallFor_def split: prod.split sum.split intro!: emplace_op_sessions_ok)

lemma call_nodes_sessions_ok: "sessions_ok w \<Longrightarrow> sessions_ok (call_nodes X i d cy ns w)"
proof (induction ns arbitrary: w)
  case (Cons n ns)
  obtain err w1 where m: "makeCyphalSvcCallFor X i d n cy w = (err, w1)" by fastforce
  with makeCyphalSvcCallFor_sessions_ok [OF Cons.prems, of X i d n cy] have "sessions_ok w1" by simp
  then show ?case by (simp add: m Cons.IH Fsm_complete_sessions_ok)
qed simp

lemma Fsm_start_sessions_ok: "sessions_ok w \<Longrightarrow> sessions_ok (Fsm_start X i r w)"
  by (simp add: Fsm_start_def Fsm_complete_sessions_ok call_nodes_sessions_ok)

lemma gateway_send_sessions_ok:
  assumes ok: "sessions_ok w"
  shows "sessions_ok (snd (gateway_send env g s p w))"
proof -
  have "session_ok i f (snd (gateway_send env g s p w))" if "session_ok i f w" for i f
    using that by (auto simp: session_ok_def gateway_send_gateways find_gateway_cong [OF gateway_send_frame(1)])
  then show ?thesis using ok by (simp add: sessions_ok_def find_fsm_def)
qed

lemma forward_response_sessions_ok: "sessions_ok w \<Longrightarrow> sessions_ok (forward_response X ch n r w)"
  by (auto simp: forward_response_def channel_send_def tryPerformOnSerialized_def gateway_send_sessions_ok
      split: sum.split prod.split option.split)

lemma erase_op_sessions_ok:
  assumes ok: "sessions_ok w"
  shows "sessions_ok (erase_op X i n w)"
proof (cases "find_fsm i w")
  case (Some f)
  then show ?thesis
    using update_fsm_sessions_ok [OF ok Some, of "f\<lparr>node_id_to_op := AList.delete n (node_id_to_op f)\<rparr>"]
    by (simp add: erase_op_def drop_ops_def)
qed (simp add: ok erase_op_def)

lemma on_promise_sessions_ok: "sessions_ok w \<Longrightarrow> sessions_ok (on_promise X i n r w)"
  by (simp add: on_promise_def Let_def Fsm_complete_sessions_ok erase_op_sessions_ok forward_response_sessions_ok
      split: option.split)

subsection \<open>The service only ever drops registrations\<close>

definition shrinks :: "('c, 'r, 'p, 'cy) daemon \<Rightarrow> ('c, 'r, 'p, 'cy) daemon \<Rightarrow> bool" where
  "shrinks w w' \<longleftrightarrow>
     (\<forall>c t g. find_gateway c t w' = Some g \<longrightarrow> find_gateway c t w = Some g) \<and>
     (\<forall>g gw'. gateways w' g = Some gw' \<longrightarrow>
        (\<exists>gw. gateways w g = Some gw \<and> sg_tag gw' = sg_tag gw \<and> sg_client_id gw' = sg_client_id gw))"

lemma shrinks_refl [simp, intro]: "shrinks w w"
  by (simp add: shrinks_def)

lemma shrinksD:
  "shrinks w w' \<Longrightarrow> find_gateway c t w' = Some g \<Longrightarrow> find_gateway c t w = Some g"
  "shrinks w w' \<Longrightarrow> gateways w' g = Some gw' \<Longrightarrow>
   \<exists>gw. gateways w g = Some gw \<and> sg_tag gw' = sg_tag gw \<and> sg_client_id gw' = sg_client_id gw"
  unfolding shrinks_def by blast+

lemma shrinks_trans [trans]:
  assumes "shrinks w w'" and "shrinks w' w''"
  shows "shrinks w w''"
  unfolding shrinks_def
proof (intro conjI allI impI)
  show "find_gateway c t w = Some g" if "find_gateway c t w'' = Some g" for c t g
    using that assms shrinksD(1) by blast
  show "\<exists>gw. gateways w g = Some gw \<and> sg_tag gw'' = sg_tag gw \<and> sg_client_id gw'' = sg_client_id gw"
    if "gateways w'' g = Some gw''" for g gw''
    using shrinksD(2) [OF assms(2) that] shrinksD(2) [OF assms(1), of g] by fastforce
qed

lemma shrinks_same:
  assumes "client_id_to_map_of_gateways w' = client_id_to_map_of_gateways w" and "gateways w' = gateways w"
  shows "shrinks w w'"
  unfolding shrinks_def assms(2) find_gateway_cong [OF assms(1)] by blast

lemma shrinks_lenses [simp, intro]:
  "shrinks w (update_fsms h w)" "shrinks w (update_cyphal k w)" "shrinks w (drop_ops X ops w)"
  "shrinks w (update_app a w)"
  by (rule shrinks_same; simp add: drop_ops_def)+

lemma shrinks_complete [simp, intro]: "shrinks w (gateway_complete g e w)"
  by (auto simp: shrinks_def gateway_complete_def)

lemma shrinks_release [simp, intro]: "shrinks w (gateway_release env g w)"
proof (cases "gateways w g")
  case (Some gw)
  then show ?thesis
    by (auto simp: shrinks_def gateway_release_def find_gateway_disposed split: if_splits)
qed (simp add: gateway_release_def)

lemma shrinks_releaseFsmBy [simp, intro]: "shrinks w (releaseFsmBy X i w)"
  by (auto simp: releaseFsmBy_def Fsm_destroy_def split: option.split
      intro: shrinks_trans [OF shrinks_trans [OF shrinks_lenses(1) shrinks_lenses(3)] shrinks_release])

lemma shrinks_Fsm_complete [simp, intro]: "shrinks w (Fsm_complete X i err w)"
proof (cases "find_fsm i w")
  case (Some f)
  show ?thesis unfolding Fsm_complete_eq [OF Some]
    by (rule shrinks_trans [OF shrinks_trans
         [OF shrinks_trans [OF shrinks_lenses(1) shrinks_lenses(3)] shrinks_complete] shrinks_release])
qed (simp add: Fsm_complete_def)

lemma shrinks_makeCyphalSvcCallFor: "shrinks w (snd (makeCyphalSvcCallFor X i d n cy w))"
  by (rule shrinks_same)
     (simp_all add: makeCyphalSvcCallFor_def emplace_op_def drop_ops_def split: prod.split sum.split option.split)

lemma shrinks_call_nodes: "shrinks w (call_nodes X i d cy ns w)"
proof (induction ns arbitrary: w)
  case (Cons n ns)
  obtain err w1 where m: "makeCyphalSvcCallFor X i d n cy w = (err, w1)" by fastforce
  with shrinks_makeCyphalSvcCallFor [of w X i d n cy] have "shrinks w w1" by simp
  with shrinks_trans [OF this] Cons.IH show ?case by (simp add: m)
qed simp

lemma shrinks_Fsm_start: "shrinks w (Fsm_start X i r w)"
  by (simp add: Fsm_start_def shrinks_call_nodes)

subsection \<open>Opening a session\<close>

lemma share_release:
  assumes "gateways w g = Some gw" and "0 < sg_use_count gw"
  shows "gateway_release env g (gateway_share g w) = w"
proof -
  have "gateways (gateway_share g w) g = Some (gw\<lparr>sg_use_count := sg_use_count gw + 1\<rparr>)"
    using assms by (simp add: gateway_share_def)
  then have "gateway_release env g (gateway_share g w) =
      update_gateway g (\<lambda>gw. gw\<lparr>sg_use_count := sg_use_count gw - 1\<rparr>) (gateway_share g w)"
    by (rule gateway_release_more) (use assms in simp)
  also have "\<dots> = w"
    using assms by (intro server_router.equality) (auto simp: gateway_share_def)
  finally show ?thesis .
qed

text \<open>Delivering \<open>Connected\<close> or a message to a session changes nothing.\<close>

lemma locked_event_ignored:
  assumes "gateways w g = Some gw" and "0 < sg_use_count gw" and "\<And>e. ev \<noteq> GCompleted e"
    and "run_handler env = exec_handler X"
  shows "snd (with_locked env g (gateway_event env g ev) w) = w"
proof -
  have "snd (gateway_event env g ev (gateway_share g w)) = gateway_share g w"
    using assms(3,4) by (cases ev) (auto simp: gateway_event_def exec_handler_def split: option.split)
  then show ?thesis
    using share_release [OF assms(1,2)] assms(1)
    by (auto simp: with_locked_def gateway_alive_def split: prod.split)
qed

lemma subscribe_exec:
  assumes "gateways w g = Some gw" and "0 < sg_use_count gw"
    and "find_gateway (sg_client_id gw) (sg_tag gw) w = Some g"
  shows "gateway_subscribe (exec_env1 X) g (Some i) w = update_gateway g (\<lambda>gw. gw\<lparr>sg_event_handler := Some i\<rparr>) w"
proof -
  let ?w = "update_gateway g (\<lambda>gw. gw\<lparr>sg_event_handler := Some i\<rparr>) w"
  have "snd (with_locked (exec_env1 X) g (gateway_event (exec_env1 X) g GConnected) ?w) = ?w"
    by (rule locked_event_ignored [where gw = "gw\<lparr>sg_event_handler := Some i\<rparr>"]) (use assms in simp_all)
  with assms show ?thesis
    by (simp add: gateway_subscribe_def onGatewaySubscription_def findAndActOnRegisteredGateway_def)
qed

lemma insert_fsm_session:
  assumes ok: "sessions_ok w" and f: "session_ok i f w" and new: "\<And>j f'. find_fsm j w = Some f' \<Longrightarrow> fsm_gateway f' \<noteq> fsm_gateway f"
  shows "sessions_ok (insert_fsm X i f w)"
proof -
  let ?w = "releaseFsmBy X i w"
  have rel: "sessions_ok ?w" by (rule releaseFsmBy_sessions_ok [OF ok])
  have "session_ok i f ?w"
  proof (cases "find_fsm i w")
    case (Some f0)
    from sessions_okE [OF ok Some] obtain gw where gw: "gateways w (fsm_gateway f0) = Some gw"
      "find_gateway (sg_client_id gw) (sg_tag gw) w = Some (fsm_gateway f0)" by metis
    have "session_ok i f (gateway_release (exec_env0 X) (fsm_gateway f0)
        (drop_ops X (node_id_to_op f0) (update_fsms (\<lambda>m. m(i := None)) w)))"
      by (rule gateway_release_session_ok [where gw = gw])
         (use f gw new [OF Some] in \<open>simp_all add: drop_ops_def session_ok_set_fsms\<close>)
    then show ?thesis by (simp add: releaseFsmBy_def Some Fsm_destroy_def)
  qed (simp add: releaseFsmBy_def f)
  with rel show ?thesis
    by (auto simp: insert_fsm_def sessions_ok_def find_fsm_def split: if_splits)
qed

lemma shrinks_update_gateway:
  "(\<And>gw. sg_tag (f gw) = sg_tag gw \<and> sg_client_id (f gw) = sg_client_id gw) \<Longrightarrow> shrinks w (update_gateway g f w)"
  by (auto simp: shrinks_def)

lemma shrinks_insert_fsm: "shrinks w (insert_fsm X i f w)"
  unfolding insert_fsm_def by (rule shrinks_trans [OF shrinks_releaseFsmBy shrinks_lenses(1)])

text \<open>The state in which the new machine's entry is made: subscribed, one more pointer taken.\<close>

definition subscribed :: "gateway_id \<Rightarrow> u64 \<Rightarrow> ('c, 'r, 'p, 'cy) daemon \<Rightarrow> ('c, 'r, 'p, 'cy) daemon" where
  "subscribed g i w =
     update_gateway g (\<lambda>gw. gw\<lparr>sg_event_handler := Some i\<rparr>)
       (update_app (\<lambda>a. a\<lparr>next_fsm_id := next_fsm_id a + 1\<rparr>) (gateway_share g w))"

lemma subscribed_simps [simp]:
  "client_id_to_map_of_gateways (subscribed g i w) = client_id_to_map_of_gateways w"
  "gateways (subscribed g i w) = (gateways w)(g := map_option
     (\<lambda>gw. gw\<lparr>sg_use_count := sg_use_count gw + 1, sg_event_handler := Some i\<rparr>) (gateways w g))"
  "server_pipe (subscribed g i w) = server_pipe w"
  "find_fsm j (subscribed g i w) = find_fsm j w"
  "find_gateway c t (subscribed g i w) = find_gateway c t w"
  "app (subscribed g i w) = (app w)\<lparr>next_fsm_id := next_fsm_id (app w) + 1\<rparr>"
  by (simp_all add: subscribed_def gateway_share_def find_fsm_def option.map_comp o_def)

lemma shrinks_subscribed: "shrinks w (subscribed g i w)"
  by (auto simp: shrinks_def)

lemma exec_factory_eq:
  assumes "gateways w g = Some gw" and "0 < sg_use_count gw"
    and "find_gateway (sg_client_id gw) (sg_tag gw) w = Some g"
    and "xp_des_request X payload = Some request"
  shows "exec_factory X s g payload w =
    (let i = next_fsm_id (app w)
     in Fsm_start X i request
          (insert_fsm X i \<lparr>fsm_channel = \<lparr>ch_gateway = g, ch_service_id = s\<rparr>, node_id_to_op = []\<rparr> (subscribed g i w)))"
proof -
  let ?w = "update_app (\<lambda>a. a\<lparr>next_fsm_id := next_fsm_id a + 1\<rparr>) (gateway_share g w)"
  have "gateway_subscribe (exec_env1 X) g (Some i) ?w = subscribed g i w" for i
    unfolding subscribed_def
    by (rule subscribe_exec [where gw = "gw\<lparr>sg_use_count := sg_use_count gw + 1\<rparr>"])
       (use assms in \<open>simp_all add: gateway_share_def\<close>)
  then show ?thesis
    by (simp add: exec_factory_def registerChannel_factory_def assms(4) ExecCmdServiceImpl_call_def Let_def
        gateway_share_def)
qed

lemma exec_factory_sessions_ok:
  fixes w :: "('c, 'r, 'p, 'cy) daemon"
  assumes ok: "sessions_ok w" and new: "\<And>j f. find_fsm j w = Some f \<Longrightarrow> fsm_gateway f \<noteq> g"
    and gw: "gateways w g = Some gw" "0 < sg_use_count gw"
      "find_gateway (sg_client_id gw) (sg_tag gw) w = Some g"
  shows "sessions_ok (exec_factory X s g payload w) \<and> shrinks w (exec_factory X s g payload w)"
proof (cases "xp_des_request X payload")
  case (Some request)
  define i where "i = next_fsm_id (app w)"
  define f :: "('c, 'r) fsm" where "f = \<lparr>fsm_channel = \<lparr>ch_gateway = g, ch_service_id = s\<rparr>, node_id_to_op = []\<rparr>"
  have "session_ok j f' (subscribed g i w)" if "find_fsm j w = Some f'" for j f'
    using sessions_okD [OF ok that] new [OF that] by (auto simp: session_ok_def)
  then have "sessions_ok (subscribed g i w)" by (simp add: sessions_ok_def)
  moreover have "session_ok i f (subscribed g i w)"
    using gw by (simp add: session_ok_def f_def)
  moreover have "\<And>j f'. find_fsm j (subscribed g i w) = Some f' \<Longrightarrow> fsm_gateway f' \<noteq> fsm_gateway f"
    using new by (simp add: f_def)
  ultimately have "sessions_ok (insert_fsm X i f (subscribed g i w))"
    by (rule insert_fsm_session)
  moreover have "shrinks w (insert_fsm X i f (subscribed g i w))"
    by (rule shrinks_trans [OF shrinks_subscribed shrinks_insert_fsm])
  ultimately show ?thesis
    unfolding exec_factory_eq [OF gw Some] Let_def i_def [symmetric] f_def [symmetric]
    using Fsm_start_sessions_ok shrinks_trans [OF _ shrinks_Fsm_start] by blast
qed (simp add: ok exec_factory_def registerChannel_factory_def)

text \<open>What \<open>open_channel\<close> hands to the factory: a fresh gateway under its tag.\<close>

definition opened :: "client_id \<Rightarrow> u64 \<Rightarrow> ('c, 'r, 'p, 'cy) daemon \<Rightarrow> ('c, 'r, 'p, 'cy) daemon" where
  "opened c tag w = register_gateway c tag (next_gateway w) (snd (GatewayImpl_create c tag w))"

lemma opened_simps [simp]:
  "gateways (opened c tag w) = (gateways w)(next_gateway w \<mapsto>
     \<lparr>sg_tag = tag, sg_client_id = c, sg_next_sequence = 0, sg_event_handler = None,
      sg_completion_error_code = 0, sg_use_count = 1\<rparr>)"
  "app (opened c tag w) = app w" "server_pipe (opened c tag w) = server_pipe w"
  "find_fsm j (opened c tag w) = find_fsm j w"
  "isConnected c' (opened c tag w) = isConnected c' w"
  by (auto simp: opened_def register_gateway_def GatewayImpl_create_def find_fsm_def isConnected_def)

lemma opened_gateway:
  "gateways (opened c tag w) (next_gateway w) = Some
     \<lparr>sg_tag = tag, sg_client_id = c, sg_next_sequence = 0, sg_event_handler = None,
      sg_completion_error_code = 0, sg_use_count = 1\<rparr>"
  by simp

lemma opened_find:
  "isConnected c w \<Longrightarrow>
   find_gateway c' t (opened c tag w) = (if c' = c \<and> t = tag then Some (next_gateway w) else find_gateway c' t w)"
  by (auto simp: opened_def register_gateway_def GatewayImpl_create_def find_gateway_def isConnected_def
      split: option.splits)

lemma open_channel_eq:
  "open_channel (exec_env X) c tag s payload w =
   gateway_release (exec_env0 X) (next_gateway w) (exec_factory X s (next_gateway w) payload (opened c tag w))"
  by (simp add: open_channel_def opened_def GatewayImpl_create_def)

lemma opened_inv:
  assumes "server_inv fsm_owners (\<lambda>_. 0) w" and "isConnected c w"
  shows "server_inv fsm_owners ((\<lambda>_. 0)(next_gateway w := 1)) (opened c tag w)"
proof -
  have "GatewayImpl_create c tag w = (next_gateway w, snd (GatewayImpl_create c tag w))"
    by (simp add: GatewayImpl_create_def)
  from create_and_register_inv(1) [OF assms this] show ?thesis by (simp add: opened_def)
qed

lemma open_channel_sessions_ok:
  assumes inv: "daemon_inv w" and con: "isConnected c w" and free: "find_gateway c tag w = None"
  shows "sessions_ok (open_channel (exec_env X) c tag s payload w)"
proof -
  let ?g = "next_gateway w"
  let ?w1 = "opened c tag w"
  let ?w2 = "exec_factory X s ?g payload ?w1"
  have none: "gateways w ?g = None" using server_invD(5) [OF daemon_invD(1) [OF inv]] by simp
  have new: "fsm_gateway f \<noteq> ?g" if "find_fsm j w = Some f" for j f
    using sessions_okD [OF daemon_invD(2) [OF inv] that] none by (auto simp: session_ok_def)
  have "session_ok j f ?w1" if "find_fsm j w = Some f" for j f
  proof -
    from sessions_okD [OF daemon_invD(2) [OF inv] that] obtain gw where
      gw: "gateways w (fsm_gateway f) = Some gw" "sg_event_handler gw = Some j"
      "find_gateway (sg_client_id gw) (sg_tag gw) w = Some (fsm_gateway f)" "distinct_keys (node_id_to_op f)"
      by (auto simp: session_ok_def)
    then have "\<not> (sg_client_id gw = c \<and> sg_tag gw = tag)" using free by auto
    with gw new [OF that] show ?thesis
      unfolding session_ok_def opened_find [OF con] by simp
  qed
  then have ok1: "sessions_ok ?w1" by (simp add: sessions_ok_def)
  have 2: "sessions_ok ?w2 \<and> shrinks ?w1 ?w2"
    by (rule exec_factory_sessions_ok [OF ok1 _ opened_gateway]) (simp_all add: new opened_find [OF con])
  have inv2: "server_inv fsm_owners ((\<lambda>_. 0)(?g := 1)) ?w2"
    by (rule exec_factory_inv [OF opened_inv [OF daemon_invD(1) [OF inv] con]]) simp
  then have "gateway_alive ?g ?w2" by (rule held_alive) simp
  then obtain gw where gw: "gateways ?w2 ?g = Some gw" by (auto simp: gateway_alive_def)
  with shrinksD(2) [OF conjunct2 [OF 2] gw] have tc: "sg_tag gw = tag" "sg_client_id gw = c" by auto
  have "session_ok j f (gateway_release (exec_env0 X) ?g ?w2)" if "find_fsm j ?w2 = Some f" for j f
  proof (rule gateway_release_session_ok [OF _ gw])
    show "session_ok j f ?w2" using 2 that by (simp add: sessions_ok_def)
    show "fsm_gateway f \<noteq> ?g \<or> 1 < sg_use_count gw"
      using fsm_owners_one [OF conjunct1 [OF 2] that] server_invD(4) [OF inv2 gw] by auto
    show "g' = ?g" if "find_gateway (sg_client_id gw) (sg_tag gw) ?w2 = Some g'" for g'
      using shrinksD(1) [OF conjunct2 [OF 2] that] by (simp add: tc opened_find [OF con])
  qed
  then show ?thesis by (simp add: open_channel_eq sessions_ok_def)
qed

subsection \<open>Every event keeps the invariant\<close>

lemma no_session_unregistered:
  assumes inv: "daemon_inv w" and "find_gateway c tag w = Some g"
  obtains i f gw where "find_fsm i w = Some f" "fsm_gateway f = g" "gateways w g = Some gw"
    "sg_client_id gw = c" "sg_tag gw = tag" "sg_use_count gw = 1"
proof -
  obtain m where "client_id_to_map_of_gateways w c = Some m" "(tag, g) \<in> set m"
    using assms(2) by (auto simp: find_gateway_def split: option.splits dest: map_of_SomeD)
  from map_entry_session [OF inv this] show ?thesis using that by metis
qed

lemma handleRouteChannelMsg_sessions_ok:
  assumes inv: "daemon_inv w" and step: "handleRouteChannelMsg (exec_env X) c tag sq s n payload w = Some (r, w')"
  shows "sessions_ok w'"
proof -
  from step obtain p where "route_real_payload (exec_env X) c tag sq s p w = (r, w')"
    by (auto simp: handleRouteChannelMsg_def split: option.splits)
  then have w': "w' = snd (route_real_payload (exec_env X) c tag sq s p w)" by simp
  show ?thesis
  proof (cases "find_gateway c tag w")
    case None
    then show ?thesis
      using daemon_invD(2) [OF inv] open_channel_sessions_ok [OF inv _ None]
      by (simp add: w' route_real_payload_def lock_registered_def split: option.split)
  next
    case (Some g)
    from no_session_unregistered [OF inv Some] obtain gw where gw: "gateways w g = Some gw" "sg_use_count gw = 1" by metis
    have "snd (with_locked (exec_env X) g (gateway_event (exec_env X) g (GMessage sq p)) w) = w"
      by (rule locked_event_ignored [where X = X, OF gw(1)]) (simp_all add: gw(2))
    with Some gw daemon_invD(2) [OF inv] show ?thesis
      by (simp add: w' route_real_payload_def lock_registered_def gateway_alive_def find_connected)
  qed
qed

lemma handleRouteChannelEnd_sessions_ok:
  assumes inv: "daemon_inv w"
  shows "sessions_ok (snd (handleRouteChannelEnd (exec_env X) c tag e w))"
proof (cases "find_gateway c tag w")
  case None
  with daemon_invD(2) [OF inv] show ?thesis
    by (simp add: handleRouteChannelEnd_def findAndActOnRegisteredGateway_def)
next
  case (Some g)
  from no_session_unregistered [OF inv Some] obtain i f gw where s: "find_fsm i w = Some f"
    "fsm_gateway f = g" "gateways w g = Some gw" "sg_client_id gw = c" "sg_tag gw = tag" by metis
  with Some sessions_ok_end [OF daemon_invD(2) [OF inv] s(1), of c tag]
    handleRouteChannelEnd_session [OF inv s(1), of gw X e]
  show ?thesis by simp
qed

lemma handleRouteConnect_sessions_ok:
  assumes ok: "sessions_ok w"
  shows "sessions_ok (snd (handleRouteConnect env c w))"
proof -
  obtain err w1 where s: "send_route env c (RouteConnect VERSION_MAJOR VERSION_MINOR 0) [] w = (err, w1)" by fastforce
  have same: "client_id_to_map_of_gateways w1 = client_id_to_map_of_gateways w" "gateways w1 = gateways w" "app w1 = app w"
    using send_route_frame [of env c "RouteConnect VERSION_MAJOR VERSION_MINOR 0" "[]" w] by (simp_all add: s)
  let ?w = "snd (handleRouteConnect env c w)"
  have "find_gateway c' t ?w = find_gateway c' t w" for c' t
    by (auto simp: handleRouteConnect_def s find_gateway_def same)
  moreover have "gateways ?w = gateways w" "app ?w = app w"
    by (simp_all add: handleRouteConnect_def s same)
  ultimately show ?thesis using ok by (simp add: sessions_ok_def session_ok_def find_fsm_def)
qed

lemma daemon_step_daemon_inv:
  assumes inv: "daemon_inv w" and step: "daemon_step X ev w = Some w'"
  shows "daemon_inv w'"
proof -
  note ok = daemon_invD(2) [OF inv]
  have "sessions_ok w'"
  proof (cases ev)
    case (FromNode i n r)
    with step on_promise_sessions_ok [OF ok] show ?thesis by auto
  next
    case (FromPipe pe)
    with step obtain e where ev: "handlePipeEvent (exec_env X) pe w = Some (e, w')" by auto
    show ?thesis
    proof (cases pe)
      case (PipeMessage c payload)
      with ev show ?thesis
        using handleRouteConnect_sessions_ok [OF ok, of "exec_env X" c]
          handleRouteChannelEnd_sessions_ok [OF inv, of X c] ok handleRouteChannelMsg_sessions_ok [OF inv]
        by (auto simp: handlePipeMessage_def split: option.splits route.splits dest: sym)
          (metis snd_conv)+
    next
      case (PipeDisconnected c)
      with ev disconnect_daemon_inv [OF inv, of X c] show ?thesis by (simp add: daemon_inv_def)
    qed (use ev ok in simp)
  qed
  then show ?thesis using daemon_step_inv [OF daemon_invD(1) [OF inv] step] by (simp add: daemon_inv_def)
qed

text \<open>The daemon as it starts: no client, no session, the service registered.\<close>

definition daemon_initial :: "u64 \<Rightarrow> 'p \<Rightarrow> 'cy \<Rightarrow> ('c, 'r, 'p, 'cy) daemon" where
  "daemon_initial svc_id pipe cy =
     registerChannelFactory svc_id svc_id
       (ServerRouter_make pipe \<lparr>next_fsm_id = 0, id_to_fsm = Map.empty, presentation = cy\<rparr>)"

lemma daemon_initial_inv: "daemon_inv (daemon_initial svc_id pipe cy)"
  by (auto simp: daemon_inv_def daemon_initial_def ServerRouter_make_def registerChannelFactory_def
      sessions_ok_def find_fsm_def find_gateway_def fsm_owners_def intro!: server_invI)

text \<open>
  C3. In every state the daemon can reach, whatever clients send and nodes answer: tags are
  unique per client, no registration dangles, a gateway's use count is exactly the number of
  sessions that own it, and each session owns one live, registered gateway of its own.
\<close>

theorem daemon_reachable_inv: "daemon_reachable X (daemon_initial svc_id pipe cy) w \<Longrightarrow> daemon_inv w"
  by (induction rule: daemon_reachable.induct) (auto intro: daemon_initial_inv daemon_step_daemon_inv)

end
