(* ===== verification/Daemon_Sockets.thy ===== *)
theory Daemon_Sockets
  imports Socket_Server Server_Pipe_Use Exec_Cmd_Progress
begin

text \<open>
  The daemon over its sockets: the server router with the 'Execute Command' service on top of the
  socket server. What holds in every run: descriptors are neither leaked nor closed twice, each
  known client has its own, and the router knows no client the pipe has let go. And what the
  handlers of the socket server amount to, in steps of the router.
\<close>

subsection \<open>The pipe as the router uses it\<close>

text \<open>
  A send that the kernel interrupts for ever never returns. The router's model has no such
  outcome, so that case is given a value here.
\<close>

definition pipe_over_sockets :: "'k posix \<Rightarrow> client_id \<Rightarrow> bytes list \<Rightarrow> 'k socket_server \<Rightarrow> int \<times> 'k socket_server" where
  "pipe_over_sockets P c payloads s =
     (case SocketServer_send P c payloads s of None \<Rightarrow> (EINTR, s) | Some r \<Rightarrow> r)"

definition context_fd :: "client_context \<Rightarrow> int" where
  "context_fd x = st_fd (ctx_state x)"

definition fd_of_client :: "'k socket_server \<Rightarrow> client_id \<rightharpoonup> int" where
  "fd_of_client s c = map_option context_fd (client_id_to_context s c)"

definition client_fds :: "'k socket_server \<Rightarrow> int set" where
  "client_fds s = ran (fd_of_client s)"

lemma ran_erase:
  assumes "m c = Some v" and "\<And>c'. m c' = Some v \<Longrightarrow> c' = c"
  shows "ran (m(c := None)) = ran m - {v}"
proof (intro equalityI subsetI)
  fix y
  assume "y \<in> ran (m(c := None))"
  then obtain a where "a \<noteq> c" and "m a = Some y" by (auto simp: ran_def split: if_splits)
  with assms(2) have "y \<noteq> v" by blast
  with \<open>m a = Some y\<close> show "y \<in> ran m - {v}" by (auto intro: ranI)
next
  fix y
  assume "y \<in> ran m - {v}"
  then obtain a where "m a = Some y" and "y \<noteq> v" by (auto simp: ran_def)
  with assms(1) have "(m(c := None)) a = Some y" by auto
  then show "y \<in> ran (m(c := None))" by (rule ranI)
qed

definition sockets_inv :: "('k \<Rightarrow> int set) \<Rightarrow> int set \<Rightarrow> 'k socket_server \<Rightarrow> bool" where
  "sockets_inv fds others s \<longleftrightarrow>
     0 \<le> server_fd s \<and> accept_callback s = Some (server_fd s) \<and>
     server_fd s \<notin> others \<union> client_fds s \<and> others \<inter> client_fds s = {} \<and>
     (\<forall>c x. client_id_to_context s c = Some x \<longrightarrow> 0 \<le> context_fd x \<and> ctx_callback x = context_fd x) \<and>
     (\<forall>c c' x x'. client_id_to_context s c = Some x \<longrightarrow> client_id_to_context s c' = Some x' \<longrightarrow>
        context_fd x = context_fd x' \<longrightarrow> c = c') \<and>
     fds (ss_kernel s) = others \<union> insert (server_fd s) (client_fds s)"

lemma sockets_invI:
  assumes "0 \<le> server_fd s" and "accept_callback s = Some (server_fd s)"
    and "server_fd s \<notin> others \<union> client_fds s" and "others \<inter> client_fds s = {}"
    and "\<And>c x. client_id_to_context s c = Some x \<Longrightarrow> 0 \<le> context_fd x \<and> ctx_callback x = context_fd x"
    and "\<And>c c' x x'. client_id_to_context s c = Some x \<Longrightarrow> client_id_to_context s c' = Some x' \<Longrightarrow>
           context_fd x = context_fd x' \<Longrightarrow> c = c'"
    and "fds (ss_kernel s) = others \<union> insert (server_fd s) (client_fds s)"
  shows "sockets_inv fds others s"
  unfolding sockets_inv_def using assms by blast

lemma sockets_inv_kernel:
  assumes "sockets_inv fds others s" and "fds k = fds (ss_kernel s)"
  shows "sockets_inv fds others (s\<lparr>ss_kernel := k\<rparr>)"
  using assms by (simp add: sockets_inv_def client_fds_def fd_of_client_def [abs_def])

lemma client_fds_mem: "client_id_to_context s c = Some x \<Longrightarrow> context_fd x \<in> client_fds s"
  by (auto simp: client_fds_def fd_of_client_def intro!: ranI)

lemma sockets_invD:
  assumes "sockets_inv fds others s"
  shows "server_fd s \<notin> others" and "server_fd s \<notin> client_fds s" and "0 \<le> server_fd s"
    and "client_id_to_context s c = Some x \<Longrightarrow> 0 \<le> context_fd x \<and> ctx_callback x = context_fd x \<and> context_fd x \<notin> others"
    and "client_id_to_context s c = Some x \<Longrightarrow> client_id_to_context s c' = Some x' \<Longrightarrow>
         context_fd x = context_fd x' \<Longrightarrow> c = c'"
    and "fds (ss_kernel s) = others \<union> insert (server_fd s) (client_fds s)"
    and "accept_callback s = Some (server_fd s)"
proof -
  note inv = assms [unfolded sockets_inv_def]
  from inv show "server_fd s \<notin> others" and "server_fd s \<notin> client_fds s" and "0 \<le> server_fd s"
    and "fds (ss_kernel s) = others \<union> insert (server_fd s) (client_fds s)"
    and "accept_callback s = Some (server_fd s)" by simp_all
  show "0 \<le> context_fd x \<and> ctx_callback x = context_fd x \<and> context_fd x \<notin> others"
    if "client_id_to_context s c = Some x"
    using inv client_fds_mem [OF that] that by blast
  show "c = c'" if "client_id_to_context s c = Some x" "client_id_to_context s c' = Some x'" "context_fd x = context_fd x'"
    using inv that by blast
qed

subsection \<open>Operations of the socket server\<close>

lemma pipe_over_sockets_frame:
  assumes "posix_fds P fds"
  shows "\<exists>k. snd (pipe_over_sockets P c ps s) = s\<lparr>ss_kernel := k\<rparr> \<and> fds k = fds (ss_kernel s)"
proof (cases "\<exists>x e k. tryFindClientContext c s = Some x \<and> SocketBase_send P (ctx_state x) ps (ss_kernel s) = Some (e, k)")
  case True
  then obtain x e k where "tryFindClientContext c s = Some x" "SocketBase_send P (ctx_state x) ps (ss_kernel s) = Some (e, k)"
    by blast
  with SocketBase_send_fds [OF assms this(2)] show ?thesis
    by (intro exI [of _ k]) (simp add: pipe_over_sockets_def SocketServer_send_def)
next
  case False
  then have "snd (pipe_over_sockets P c ps s) = s\<lparr>ss_kernel := ss_kernel s\<rparr>"
    by (auto simp: pipe_over_sockets_def SocketServer_send_def bind_eq_Some_conv split: option.split)
  then show ?thesis by blast
qed

lemma accept_client_inv:
  assumes P: "posix_fds P fds" and inv: "sockets_inv fds others s" and a: "accept_client P s = Some (c, s')"
  shows "sockets_inv fds others s' \<and> dom (client_id_to_context s) \<subseteq> dom (client_id_to_context s')"
proof -
  note inv' = sockets_invD [OF inv]
  from a obtain r addr k where acc: "SocketAddress_accept P socket_address_default (server_fd s) (ss_kernel s) = Some (r, addr, k)"
    by (auto simp: accept_client_def bind_eq_Some_conv)
  note leak = accept_no_leak [OF P acc]
  show ?thesis
  proof (cases r)
    case None
    with a acc leak sockets_inv_kernel [OF inv, of k] show ?thesis by (auto simp: accept_client_def)
  next
    case (Some fd)
    let ?c = "unique_client_id_counter s + 1"
    have fd: "0 \<le> fd" "fd \<notin> others" "fd \<noteq> server_fd s" "fd \<notin> client_fds s" "fds k = insert fd (fds (ss_kernel s))"
      using leak Some inv'(6) by auto
    have s': "s' = emplace_context P ?c (new_context fd) (s\<lparr>ss_kernel := k, unique_client_id_counter := ?c\<rparr>)"
      using a acc Some by (simp add: accept_client_def Let_def)
    have cfd: "context_fd (new_context fd) = fd" "ctx_callback (new_context fd) = fd"
      by (simp_all add: context_fd_def new_context_def)
    show ?thesis
    proof (cases "client_id_to_context s ?c")
      case None
      then have "fd_of_client s' = (fd_of_client s)(?c \<mapsto> fd)"
        by (intro ext) (simp add: s' emplace_context_def fd_of_client_def cfd)
      moreover have "fd_of_client s ?c = None" using None by (simp add: fd_of_client_def)
      ultimately have cl: "client_fds s' = insert fd (client_fds s)" by (simp add: client_fds_def)
      have "sockets_inv fds others s'"
        unfolding sockets_inv_def cl
        using None inv fd by (auto simp: s' emplace_context_def sockets_inv_def cfd client_fds_mem split: if_splits)
      then show ?thesis using None by (auto simp: s' emplace_context_def)
    next
      case (Some x)
      have "fds (OwnFd_destroy P fd k) = fds (ss_kernel s)"
        using fd inv'(6) by (auto simp: OwnFd_destroy_fds [OF P])
      then have "sockets_inv fds others (s\<lparr>unique_client_id_counter := ?c, ss_kernel := OwnFd_destroy P fd k\<rparr>)"
        using inv by (simp add: sockets_inv_def client_fds_def fd_of_client_def [abs_def])
      with Some show ?thesis
        by (simp add: s' emplace_context_def ClientContext_destroy_def cfd(1) [unfolded context_fd_def])
    qed
  qed
qed

lemma erase_context_inv:
  assumes P: "posix_fds P fds" and inv: "sockets_inv fds others s"
  shows "sockets_inv fds others (erase_context P c s)"
proof (cases "client_id_to_context s c")
  case (Some x)
  note inv' = sockets_invD [OF inv]
  have others: "others \<inter> client_fds s = {}" using inv by (simp add: sockets_inv_def)
  let ?s = "erase_context P c s"
  have x: "0 \<le> context_fd x" "context_fd x \<notin> others" "context_fd x \<noteq> server_fd s"
    using inv'(4) [OF Some] inv'(2) client_fds_mem [OF Some] by auto
  have upd: "fd_of_client ?s = (fd_of_client s)(c := None)"
    using Some by (intro ext) (simp add: erase_context_def fd_of_client_def)
  have "c' = c" if "fd_of_client s c' = Some (context_fd x)" for c'
    using inv'(5) [OF _ Some, of c'] that by (auto simp: fd_of_client_def)
  moreover have "fd_of_client s c = Some (context_fd x)" using Some by (simp add: fd_of_client_def)
  ultimately have "ran ((fd_of_client s)(c := None)) = ran (fd_of_client s) - {context_fd x}"
    by (rule ran_erase [rotated])
  then have cl: "client_fds ?s = client_fds s - {context_fd x}" by (simp only: client_fds_def upd)
  have "fds (ss_kernel ?s) = fds (ss_kernel s) - {context_fd x}"
    using Some x by (simp add: erase_context_def ClientContext_destroy_def OwnFd_destroy_fds [OF P] context_fd_def)
  then have open_fds: "fds (ss_kernel ?s) = others \<union> insert (server_fd s) (client_fds ?s)"
    using x by (simp add: cl inv'(6)) blast
  have fewer: "client_id_to_context s c' = Some y" if "client_id_to_context ?s c' = Some y" for c' y
    using Some that by (simp add: erase_context_def split: if_splits)
  have same: "server_fd ?s = server_fd s" "accept_callback ?s = accept_callback s"
    using Some by (simp_all add: erase_context_def)
  show ?thesis
  proof (rule sockets_invI)
    show "server_fd ?s \<notin> others \<union> client_fds ?s" using inv'(1,2) by (simp add: same cl)
    show "others \<inter> client_fds ?s = {}" using others by (auto simp: cl)
    show "0 \<le> context_fd y \<and> ctx_callback y = context_fd y" if "client_id_to_context ?s c' = Some y" for c' y
      using inv'(4) [OF fewer [OF that]] by simp
    show "c' = c''" if "client_id_to_context ?s c' = Some y" "client_id_to_context ?s c'' = Some y'"
      "context_fd y = context_fd y'" for c' c'' y y'
      by (rule inv'(5) [OF fewer [OF that(1)] fewer [OF that(2)] that(3)])
  qed (use open_fds inv'(3,7) in \<open>simp_all add: same\<close>)
qed (use inv in \<open>simp add: erase_context_def\<close>)

lemma update_context_inv:
  assumes inv: "sockets_inv fds others s" and c: "client_id_to_context s c = Some x"
    and st: "st_fd st = st_fd (ctx_state x)" and k: "fds k = fds (ss_kernel s)"
  shows "sockets_inv fds others (s\<lparr>client_id_to_context := (client_id_to_context s)(c \<mapsto> x\<lparr>ctx_state := st\<rparr>), ss_kernel := k\<rparr>)"
    (is "sockets_inv _ _ ?s")
proof -
  have "fd_of_client ?s = fd_of_client s"
    using c st by (intro ext) (simp add: fd_of_client_def context_fd_def)
  then have cl: "client_fds ?s = client_fds s" by (simp add: client_fds_def)
  show ?thesis
    unfolding sockets_inv_def cl using inv c st k by (auto simp: sockets_inv_def context_fd_def)
qed

subsection \<open>Starting\<close>

lemma server_makeSocketHandle_fds:
  assumes P: "posix_fds P fds" and fd: "server_fd s = - 1"
    and m: "server_makeSocketHandle P s = Some (err, s')"
  shows "if err = 0 then 0 \<le> server_fd s' \<and> server_fd s' \<notin> fds (ss_kernel s) \<and>
             s' = s\<lparr>server_fd := server_fd s', ss_kernel := ss_kernel s'\<rparr> \<and>
             fds (ss_kernel s') = insert (server_fd s') (fds (ss_kernel s))
         else fds (ss_kernel s') = fds (ss_kernel s) \<and> server_fd s' = - 1"
proof -
  from m obtain r k where 1: "SocketAddress_socket P (server_address s) SOCK_STREAM (ss_kernel s) = Some (r, k)"
    by (auto simp: server_makeSocketHandle_def bind_eq_Some_conv)
  note opened = socket_no_leak [OF P 1]
  show ?thesis
  proof (cases r)
    case (Inl e)
    with m 1 have "err = e" "s' = s\<lparr>ss_kernel := k\<rparr>" by (simp_all add: server_makeSocketHandle_def)
    with opened Inl fd show ?thesis by simp
  next
    case (Inr new)
    have new: "0 \<le> new" "new \<notin> fds (ss_kernel s)" "fds k = insert new (fds (ss_kernel s))"
      using opened Inr by simp_all
    from m 1 Inr obtain e2 k2 where 2: "posixSyscallError (sys_setsockopt P new SO_REUSEADDR 1) k = Some (e2, k2)"
      by (auto simp: server_makeSocketHandle_def bind_eq_Some_conv)
    have f2: "fds k2 = fds k" by (rule posixSyscallError_keeps [OF posix_fdsD(5) [OF P] 2])
    have closed: "fds (OwnFd_destroy P new k') = fds (ss_kernel s)" if "fds k' = fds k" for k'
      using new that by (simp add: OwnFd_destroy_fds [OF P])
    show ?thesis
    proof (cases "e2 = 0")
      case False
      with m 1 Inr 2 have "err = e2" "s' = s\<lparr>ss_kernel := OwnFd_destroy P new k2\<rparr>"
        by (simp_all add: server_makeSocketHandle_def)
      with False closed [OF f2] fd show ?thesis by simp
    next
      case True
      with m 1 Inr 2 obtain e3 k3 where 3: "SocketAddress_bind P (server_address s) new k2 = Some (e3, k3)"
        by (auto simp: server_makeSocketHandle_def bind_eq_Some_conv)
      have f3: "fds k3 = fds k" using SocketAddress_bind_keeps [OF P 3] f2 by simp
      show ?thesis
      proof (cases "e3 = 0")
        case True
        with m 1 Inr 2 3 \<open>e2 = 0\<close> fd have "err = 0" "s' = s\<lparr>server_fd := new, ss_kernel := k3\<rparr>"
          by (simp_all add: server_makeSocketHandle_def OwnFd_assign_def OwnFd_destroy_def OwnFd_reset_def)
        with new f3 show ?thesis by simp
      next
        case False
        with m 1 Inr 2 3 \<open>e2 = 0\<close> have "err = e3" "s' = s\<lparr>ss_kernel := OwnFd_destroy P new k3\<rparr>"
          by (simp_all add: server_makeSocketHandle_def)
        with False closed [OF f3] fd show ?thesis by simp
      qed
    qed
  qed
qed

lemma SocketServer_start_inv:
  assumes P: "posix_fds P fds" and st: "SocketServer_start P (SocketServer_make a k) = Some (0, s)"
  shows "sockets_inv fds (fds k) s"
proof -
  let ?s0 = "SocketServer_make a k"
  from st obtain err s1 where 1: "server_makeSocketHandle P ?s0 = Some (err, s1)"
    by (auto simp: SocketServer_start_def bind_eq_Some_conv)
  with st have e: "err = 0" by (auto simp: SocketServer_start_def split: if_splits)
  with st 1 obtain e2 k2 where 2: "posixSyscallError (sys_listen P (server_fd s1) MaxConnections) (ss_kernel s1) = Some (e2, k2)"
    by (auto simp: SocketServer_start_def bind_eq_Some_conv)
  have f2: "fds k2 = fds (ss_kernel s1)" by (rule posixSyscallError_keeps [OF posix_fdsD(8) [OF P] 2])
  have s: "s = s1\<lparr>ss_kernel := k2, accept_callback := Some (server_fd s1)\<rparr>"
    using st 1 2 e by (auto simp: SocketServer_start_def Let_def split: if_splits)
  have "0 \<le> server_fd s1 \<and> server_fd s1 \<notin> fds k \<and> fds (ss_kernel s1) = insert (server_fd s1) (fds k) \<and>
      s1 = ?s0\<lparr>server_fd := server_fd s1, ss_kernel := ss_kernel s1\<rparr>"
    using server_makeSocketHandle_fds [OF P _ 1] e by (simp add: SocketServer_make_def)
  moreover then have none: "client_id_to_context s1 = Map.empty"
    by (metis SocketServer_make_def socket_server.select_convs(5) socket_server.update_convs(1,6))
  then have "fd_of_client s = Map.empty" by (intro ext) (simp add: s fd_of_client_def)
  then have "client_fds s = {}" by (simp add: client_fds_def)
  ultimately show ?thesis
    using none by (intro sockets_invI) (simp_all add: s f2)
qed

subsection \<open>The router over the sockets\<close>

definition over_sockets :: "('k \<Rightarrow> int set) \<Rightarrow> int set \<Rightarrow> client_id set \<Rightarrow> 'k socket_server \<Rightarrow> client_id set \<Rightarrow> bool" where
  "over_sockets fds others C s D \<longleftrightarrow> sockets_inv fds others s \<and> C \<subseteq> dom (client_id_to_context s) \<and> D \<subseteq> dom (client_id_to_context s)"

lemma sends_keep_over_sockets:
  assumes "posix_fds P fds" and "pipe_send env = pipe_over_sockets P"
  shows "sends_keep env (over_sockets fds others C)"
proof -
  have "over_sockets fds others C (snd (pipe_over_sockets P c ps s)) D" if "over_sockets fds others C s D" for c ps s D
  proof -
    obtain k where "snd (pipe_over_sockets P c ps s) = s\<lparr>ss_kernel := k\<rparr>" "fds k = fds (ss_kernel s)"
      using pipe_over_sockets_frame [OF assms(1)] by blast
    with that show ?thesis by (simp add: over_sockets_def sockets_inv_kernel)
  qed
  then show ?thesis by (simp add: sends_keep_def assms(2))
qed

lemma pipe_inv_set [simp]:
  "pipe_inv I (w\<lparr>server_pipe := s\<rparr>) = I s (dom (client_id_to_map_of_gateways w))"
  by (simp add: pipe_inv_def)

lemma handleAccept_inv:
  assumes P: "posix_fds P fds" and inv: "pipe_inv (over_sockets fds others {}) w"
    and step: "handleAccept P env w = Some w'"
  shows "pipe_inv (over_sockets fds others {}) w'"
proof -
  from step obtain c s where a: "accept_client P (server_pipe w) = Some (c, s)"
    by (auto simp: handleAccept_def bind_eq_Some_conv)
  have "w' = w\<lparr>server_pipe := s\<rparr>" using step a by (auto simp: handleAccept_def Let_def split: option.splits)
  with accept_client_inv [OF P _ a, of others] inv show ?thesis
    by (simp add: pipe_inv_def over_sockets_def) (meson subset_trans)
qed

text \<open>A message of a client is handled with that client's context in place.\<close>

lemma receiveMessage_server_inv:
  fixes env :: "('f, 'h, 'k socket_server, 'a) server_env"
  assumes P: "posix_fds P fds" and send: "pipe_send env = pipe_over_sockets P" and app: "sends_only env"
    and inv: "pipe_inv (over_sockets fds others {}) w" and x: "client_id_to_context (server_pipe w) c = Some x"
    and rec: "receiveMessage P (read_context c) (write_context c) (\<lambda>p. handlePipeEvent env (PipeMessage c p)) w = Some (err, w1)"
  shows "pipe_inv (over_sockets fds others {c}) w1"
proof -
  from rec obtain r st k where read: "read_message P (ctx_state x) (ss_kernel (server_pipe w)) = Some (r, st, k)"
    by (auto simp: receiveMessage_def read_context_def x bind_eq_Some_conv)
  let ?w = "write_context c (st, k) w"
  from read_message_fds [OF P read] inv x
  have I: "pipe_inv (over_sockets fds others {c}) ?w"
    by (auto simp: write_context_def over_pipe_def pipe_inv_def over_sockets_def update_context_inv)
  show ?thesis
  proof (cases r)
    case (Done e)
    with rec read x I show ?thesis by (simp add: receiveMessage_def read_context_def)
  next
    case (Deliver p)
    with rec read x have h: "handlePipeEvent env (PipeMessage c p) ?w = Some (err, w1)"
      by (simp add: receiveMessage_def read_context_def)
    have "over_sockets fds others {c} p (insert c D)" if "over_sockets fds others {c} p D" for p D
      using that by (simp add: over_sockets_def)
    from sends_only.handlePipeMessage_keep [OF app sends_keep_over_sockets [OF P send] I this h] show ?thesis .
  qed
qed

lemma handleClientRequest_inv:
  fixes env :: "('f, 'h, 'k socket_server, 'a) server_env"
  assumes P: "posix_fds P fds" and send: "pipe_send env = pipe_over_sockets P" and app: "sends_only env"
    and inv: "pipe_inv (over_sockets fds others {}) w" and step: "handleClientRequest P env c w = Some w'"
  shows "pipe_inv (over_sockets fds others {}) w'"
proof -
  let ?J = "over_sockets fds others {}"
  note keep = sends_keep_over_sockets [OF P send]
  from step obtain x where x: "client_id_to_context (server_pipe w) c = Some x"
    by (auto simp: handleClientRequest_def tryFindClientContext_def split: if_splits)
  from step x obtain err w1 where
    rec: "receiveMessage P (read_context c) (write_context c) (\<lambda>p. handlePipeEvent env (PipeMessage c p)) w = Some (err, w1)"
    by (auto simp: handleClientRequest_def tryFindClientContext_def bind_eq_Some_conv)
  from receiveMessage_server_inv [OF P send app inv x rec]
  have w1: "sockets_inv fds others (server_pipe w1)"
    "dom (client_id_to_map_of_gateways w1) \<subseteq> dom (client_id_to_context (server_pipe w1))"
    by (simp_all add: pipe_inv_def over_sockets_def)
  show ?thesis
  proof (cases "err = 0")
    case True
    with step rec x w1 show ?thesis
      by (simp add: handleClientRequest_def tryFindClientContext_def pipe_inv_def over_sockets_def)
  next
    case False
    let ?w1 = "over_pipe (erase_context P c) w1"
    from False step rec x have "map_option snd (handlePipeEvent env (PipeDisconnected c) ?w1) = Some w'"
      by (simp add: handleClientRequest_def tryFindClientContext_def del: handlePipeEvent.simps)
    then obtain r' where h: "handlePipeEvent env (PipeDisconnected c) ?w1 = Some (r', w')"
      by (cases "handlePipeEvent env (PipeDisconnected c) ?w1") auto
    have "dom (client_id_to_context (erase_context P c (server_pipe w1))) = dom (client_id_to_context (server_pipe w1)) - {c}"
      by (auto simp: erase_context_def split: option.split)
    with w1 erase_context_inv [OF P w1(1), of c]
    have "?J (server_pipe ?w1) (dom (client_id_to_map_of_gateways ?w1) - {c})"
      by (auto simp: over_sockets_def over_pipe_def)
    from sends_only.handlePipeDisconnected_keep [OF app keep this h] show ?thesis .
  qed
qed

subsection \<open>The daemon\<close>

text \<open>Besides the callbacks of its sockets, the daemon runs those of the promises of nodes.\<close>

definition node_step :: "('c, 'r, 'p, 'cy) exec_params \<Rightarrow> ('c, 'r, 'p, 'cy) daemon \<Rightarrow> ('c, 'r, 'p, 'cy) daemon \<Rightarrow> bool" where
  "node_step X w w' \<longleftrightarrow> (\<exists>fsm_id node_id result. w' = on_promise X fsm_id node_id result w)"

text \<open>
  C5. In every run of the daemon over its sockets, exactly these descriptors are open: those that
  were open before, the listening one, and one per known client, all different; and every client
  the router takes for connected is one the pipe still knows.
\<close>

theorem daemon_no_fd_leak:
  assumes "posix_fds P fds" and "xp_pipe_send X = pipe_over_sockets P"
    and "server_pipe w0 = SocketServer_make a k" and "client_id_to_map_of_gateways w0 = Map.empty"
    and "server_run P (exec_env X) (node_step X) w0 w"
  shows "sockets_inv fds (fds k) (server_pipe w) \<and>
         (\<forall>c. isConnected c w \<longrightarrow> tryFindClientContext c (server_pipe w) \<noteq> None)"
proof -
  have send: "pipe_send (exec_env X) = pipe_over_sockets P" using assms(2) by simp
  from assms(5) have "pipe_inv (over_sockets fds (fds k) {}) w"
  proof induction
    case (run_start w)
    then obtain s where "SocketServer_start P (SocketServer_make a k) = Some (0, s)" "w = w0\<lparr>server_pipe := s\<rparr>"
      using assms(3) by (auto simp: ServerRouter_start_def)
    with SocketServer_start_inv [OF assms(1)] assms(4) show ?case by (simp add: over_sockets_def)
  next
    case (run_accept w w')
    then show ?case by (blast intro: handleAccept_inv [OF assms(1)])
  next
    case (run_request w c w')
    then show ?case by (blast intro: handleClientRequest_inv [OF assms(1) send exec_pipe.sends_only_axioms])
  next
    case (run_other w w')
    then obtain i n r where w': "w' = on_promise X i n r w" by (auto simp: node_step_def)
    have "sends_keep (exec_env0 X) (over_sockets fds (fds k) {})"
      using sends_keep_over_sockets [OF assms(1) send] by simp
    from on_promise_keep [OF this run_other.IH] show ?case by (simp add: w')
  qed
  then show ?thesis
    by (auto simp: pipe_inv_def over_sockets_def isConnected_def tryFindClientContext_def)
qed

lemma daemon_inv_pipe: "daemon_inv w \<Longrightarrow> daemon_inv (w\<lparr>server_pipe := s\<rparr>)"
  unfolding daemon_inv_def server_inv_def registrations_ok_def use_counts_ok_def sessions_ok_def
    session_ok_def find_gateway_def find_fsm_def
  by (simp cong: option.case_cong)

lemma daemon_inv_event:
  "daemon_inv w \<Longrightarrow> handlePipeEvent (exec_env X) ev w = Some (r, w') \<Longrightarrow> daemon_inv w'"
  using daemon_step_daemon_inv [of w X "FromPipe ev" w'] by simp

text \<open>The invariant of the router and its sessions holds in every run over the sockets too.\<close>

lemma daemon_over_sockets_inv:
  assumes "server_run P (exec_env X) (node_step X) (daemon_initial svc_id pipe cy) w"
  shows "daemon_inv w"
  using assms
proof induction
  case (run_start w)
  then show ?case by (auto simp: ServerRouter_start_def intro: daemon_inv_pipe daemon_initial_inv)
next
  case (run_accept w w')
  from run_accept.hyps(3) obtain c s where a: "accept_client P (server_pipe w) = Some (c, s)"
    by (auto simp: handleAccept_def bind_eq_Some_conv)
  with run_accept.hyps(3) have "w' = w\<lparr>server_pipe := s\<rparr>"
    by (auto simp: handleAccept_def Let_def split: option.splits)
  with run_accept.IH show ?case by (simp add: daemon_inv_pipe)
next
  case (run_request w c w')
  from run_request.hyps(2,3) obtain err w1 where
    rec: "receiveMessage P (read_context c) (write_context c) (\<lambda>p. handlePipeEvent (exec_env X) (PipeMessage c p)) w = Some (err, w1)"
    by (auto simp: handleClientRequest_def bind_eq_Some_conv simp del: handlePipeEvent.simps)
  then obtain r st k where "(let (st, k) = read_context c w in read_message P st k) = Some (r, st, k)"
    by (auto simp: receiveMessage_def bind_eq_Some_conv)
  moreover have "daemon_inv (write_context c (st, k) w)"
    using run_request.IH by (simp add: write_context_def over_pipe_def daemon_inv_pipe)
  ultimately have "daemon_inv w1"
    using rec by (cases r) (auto simp: receiveMessage_def Let_def simp del: handlePipeEvent.simps dest: daemon_inv_event)
  moreover from this have "daemon_inv (over_pipe (erase_context P c) w1)"
    by (simp add: over_pipe_def daemon_inv_pipe)
  ultimately show ?case
    using run_request.hyps(2,3) rec daemon_inv_event [of "over_pipe (erase_context P c) w1" X "PipeDisconnected c"]
    by (auto simp: handleClientRequest_def simp del: handlePipeEvent.simps split: if_splits)
next
  case (run_other w w')
  then show ?case
    by (auto simp: node_step_def intro!: daemon_step_daemon_inv [of w X "FromNode i n r" for i n r])
qed

subsection \<open>What the handlers of the socket server amount to\<close>

text \<open>The end of a client: its context goes, then the router is told.\<close>

definition end_client ::
    "'k posix \<Rightarrow> ('f, 'h, 'k socket_server, 'a) server_env \<Rightarrow> client_id \<Rightarrow>
     ('f, 'h, 'k, 'a) server_world \<Rightarrow> ('f, 'h, 'k, 'a) server_world option" where
  "end_client P env c w = map_option snd (handlePipeEvent env (PipeDisconnected c) (over_pipe (erase_context P c) w))"

lemma handleAccept_refines:
  assumes "SocketAddress_accept P socket_address_default (server_fd (server_pipe w)) (ss_kernel (server_pipe w)) = Some (r, a, k)"
    and "client_id_to_context (server_pipe w) (unique_client_id_counter (server_pipe w) + 1) = None"
  shows "handleAccept P env w =
    (let c = unique_client_id_counter (server_pipe w) + 1; w1 = over_pipe (\<lambda>s. s\<lparr>ss_kernel := k\<rparr>) w
     in case r of
          None \<Rightarrow> Some w1
        | Some fd \<Rightarrow> map_option snd (handlePipeEvent env (PipeConnected c) (over_pipe (\<lambda>s.
            s\<lparr>unique_client_id_counter := c, client_id_to_context := (client_id_to_context s)(c \<mapsto> new_context fd)\<rparr>) w1)))"
  using assms
  by (simp add: handleAccept_def accept_client_def emplace_context_def over_pipe_def Let_def
           del: handlePipeEvent.simps split: option.split)

lemma handleClientRequest_received:
  assumes "client_id_to_context (server_pipe w) c = Some x"
    and "read_message P (ctx_state x) (ss_kernel (server_pipe w)) = Some (r, st, k)"
  shows "handleClientRequest P env c w =
    (let w1 = write_context c (st, k) w
     in case r of
          Done err \<Rightarrow> if err = 0 then Some w1 else end_client P env c w1
        | Deliver body \<Rightarrow>
            (case handlePipeEvent env (PipeMessage c body) w1 of
               None \<Rightarrow> None
             | Some (err, w2) \<Rightarrow> if err = 0 then Some w2 else end_client P env c w2))"
  using assms
  by (simp add: handleClientRequest_def receiveMessage_def read_context_def tryFindClientContext_def end_client_def Let_def
           del: handlePipeEvent.simps split: received.split option.split prod.split)

lemma handleClientRequest_refines:
  fixes P :: "'k posix"
  assumes "client_id_to_context (server_pipe w) c = Some x" and "read_phase (ctx_state x) = Header"
    and "stream_receives P inbox (context_fd x)"
    and "0 < n" and "n \<le> MsgMaxSize" and "length body = n"
    and "inbox (ss_kernel (server_pipe w)) = take m (msg_header n @ body) @ rest" and "m < 8 + n \<Longrightarrow> rest = []"
  shows "\<exists>k'. inbox k' = rest \<and> handleClientRequest P env c w =
      (let st = ctx_state x; waiting = st\<lparr>read_msg_size := n, read_phase := Payload\<rparr>
       in if m = 0 then Some (write_context c (st, k') w)
          else if m < 8 then end_client P env c (write_context c (st, k') w)
          else if m = 8 then Some (write_context c (waiting, k') w)
          else if m < 8 + n then end_client P env c (write_context c (waiting, k') w)
          else (case handlePipeEvent env (PipeMessage c body) (write_context c (st\<lparr>read_msg_size := n\<rparr>, k') w) of
                  None \<Rightarrow> None
                | Some (err, w2) \<Rightarrow> if err = 0 then Some w2 else end_client P env c w2))"
proof -
  define result where "result k' = (if m = 0 then (Done 0, ctx_state x, k')
      else if m < 8 then (Done EINVAL, ctx_state x, k')
      else if m = 8 then (Done 0, (ctx_state x)\<lparr>read_msg_size := n, read_phase := Payload\<rparr>, k')
      else if m < 8 + n then (Done EINVAL, (ctx_state x)\<lparr>read_msg_size := n, read_phase := Payload\<rparr>, k')
      else (Deliver body, (ctx_state x)\<lparr>read_msg_size := n, read_phase := Header\<rparr>, k'))" for k' :: 'k
  obtain k' where k': "inbox k' = rest" "read_message P (ctx_state x) (ss_kernel (server_pipe w)) = Some (result k')"
    using read_message_part [OF assms(3) [unfolded context_fd_def] assms(2,4,5,7,6,8)] unfolding result_def by blast
  obtain r st k1 where result: "result k' = (r, st, k1)" by (metis surj_pair)
  have header: "(ctx_state x)\<lparr>read_msg_size := n, read_phase := Header\<rparr> = (ctx_state x)\<lparr>read_msg_size := n\<rparr>"
    using assms(2) by simp
  note received = handleClientRequest_received [OF assms(1) k'(2) [unfolded result], of env]
  show ?thesis
    using k'(1) result
    by (intro exI [of _ k']) (auto simp: received result_def header Let_def simp del: handlePipeEvent.simps split: if_splits)
qed

text \<open>
  C17. The callbacks of the socket server amount to steps of the router. A connection that is
  accepted gets the next number, a context of its own with the new descriptor, and the router is told
  that this client connected; if there is none to accept, only the kernel's state moves. A
  readable client socket whose stream holds the first \<open>m\<close> bytes of a message of \<open>n\<close> bytes, or all of
  it with what follows, is read up to the end of that message, and: the router is given exactly the
  payload of the message, under that client's number, if all of it is there; nothing happens but the
  bookkeeping if nothing or just the header is there; otherwise, or when the router answers the
  message with an error, the client's context and descriptor go and the router is told that this
  client disconnected.
\<close>

theorem socket_server_refines:
  "(\<forall>r a k. SocketAddress_accept P socket_address_default (server_fd (server_pipe w)) (ss_kernel (server_pipe w)) = Some (r, a, k) \<and>
      client_id_to_context (server_pipe w) (unique_client_id_counter (server_pipe w) + 1) = None \<longrightarrow>
      handleAccept P env w =
        (let c = unique_client_id_counter (server_pipe w) + 1; w1 = over_pipe (\<lambda>s. s\<lparr>ss_kernel := k\<rparr>) w
         in case r of
              None \<Rightarrow> Some w1
            | Some fd \<Rightarrow> map_option snd (handlePipeEvent env (PipeConnected c) (over_pipe (\<lambda>s.
                s\<lparr>unique_client_id_counter := c, client_id_to_context := (client_id_to_context s)(c \<mapsto> new_context fd)\<rparr>) w1)))) \<and>
   (\<forall>c x inbox n m body rest. client_id_to_context (server_pipe w) c = Some x \<and> read_phase (ctx_state x) = Header \<and>
      stream_receives P inbox (context_fd x) \<and> 0 < n \<and> n \<le> MsgMaxSize \<and> length body = n \<and>
      inbox (ss_kernel (server_pipe w)) = take m (msg_header n @ body) @ rest \<and> (m < 8 + n \<longrightarrow> rest = []) \<longrightarrow>
      (\<exists>k'. inbox k' = rest \<and> handleClientRequest P env c w =
        (let st = ctx_state x; waiting = st\<lparr>read_msg_size := n, read_phase := Payload\<rparr>
         in if m = 0 then Some (write_context c (st, k') w)
            else if m < 8 then end_client P env c (write_context c (st, k') w)
            else if m = 8 then Some (write_context c (waiting, k') w)
            else if m < 8 + n then end_client P env c (write_context c (waiting, k') w)
            else (case handlePipeEvent env (PipeMessage c body) (write_context c (st\<lparr>read_msg_size := n\<rparr>, k') w) of
                    None \<Rightarrow> None
                  | Some (err, w2) \<Rightarrow> if err = 0 then Some w2 else end_client P env c w2))))"
proof (intro conjI allI impI, goal_cases)
  case (1 r a k)
  then show ?case by (intro handleAccept_refines) simp_all
next
  case (2 c x inbox n m body rest)
  then show ?case by (intro handleClientRequest_refines) simp_all
qed

end
