(* ===== verification/Client_Router.thy ===== *)
theory Client_Router
  imports Channel
begin

text \<open>
  The client-side IPC router: src/common/ipc/client_router.cpp. Gateways are heap objects with a
  use count, as on the server side; here the router makes them itself, numbers them by tag, and
  becomes connected when the server answers its connect request. The pipe, the generated
  serializers and the code behind an event handler are arguments, gathered in \<open>client_env\<close>.
\<close>

subsection \<open>State\<close>

record 'h client_gateway =
  cg_tag :: u64
  cg_next_sequence :: u64
  cg_event_handler :: "'h option"
  cg_completion_error_code :: int
  cg_use_count :: nat

record ('h, 'p, 'a) client_router =
  next_tag :: u64
  is_connected :: bool
  map_of_gateways :: "(u64 \<times> gateway_id) list"
  cl_gateways :: "gateway_id \<rightharpoonup> 'h client_gateway"
  cl_next_gateway :: gateway_id
  client_pipe :: 'p
  cl_app :: 'a

record ('h, 'p, 'a) client_env =
  cl_pipe_send :: "bytes list \<Rightarrow> 'p \<Rightarrow> int \<times> 'p"
  cl_codec :: codec
  cl_run_handler :: "'h \<Rightarrow> gateway_event \<Rightarrow> ('h, 'p, 'a) client_router \<Rightarrow> int \<times> ('h, 'p, 'a) client_router"

datatype client_pipe_event = ClPipeConnected | ClPipeMessage bytes | ClPipeDisconnected

definition ClientRouter_make :: "'p \<Rightarrow> 'a \<Rightarrow> ('h, 'p, 'a) client_router" where
  "ClientRouter_make pipe a =
     \<lparr>next_tag = 0, is_connected = False, map_of_gateways = [], cl_gateways = Map.empty,
      cl_next_gateway = 0, client_pipe = pipe, cl_app = a\<rparr>"

subsection \<open>Queries and pointers\<close>

definition cl_find :: "u64 \<Rightarrow> ('h, 'p, 'a) client_router \<Rightarrow> gateway_id option" where
  "cl_find tag w = map_of (map_of_gateways w) tag"

definition cl_isRegisteredGateway :: "u64 \<Rightarrow> ('h, 'p, 'a) client_router \<Rightarrow> bool" where
  "cl_isRegisteredGateway tag w \<longleftrightarrow> cl_find tag w \<noteq> None"

definition cl_alive :: "gateway_id \<Rightarrow> ('h, 'p, 'a) client_router \<Rightarrow> bool" where
  "cl_alive g w \<longleftrightarrow> cl_gateways w g \<noteq> None"

definition cl_update_gateway ::
    "gateway_id \<Rightarrow> ('h client_gateway \<Rightarrow> 'h client_gateway) \<Rightarrow>
     ('h, 'p, 'a) client_router \<Rightarrow> ('h, 'p, 'a) client_router" where
  "cl_update_gateway g f w = w\<lparr>cl_gateways := (cl_gateways w)(g := map_option f (cl_gateways w g))\<rparr>"

definition cl_share :: "gateway_id \<Rightarrow> ('h, 'p, 'a) client_router \<Rightarrow> ('h, 'p, 'a) client_router" where
  "cl_share g = cl_update_gateway g (\<lambda>gw. gw\<lparr>cg_use_count := cg_use_count gw + 1\<rparr>)"

definition cl_send_to_pipe ::
    "('h, 'p, 'a) client_env \<Rightarrow> bytes list \<Rightarrow> ('h, 'p, 'a) client_router \<Rightarrow> int \<times> ('h, 'p, 'a) client_router" where
  "cl_send_to_pipe env payloads w =
     (let (err, pipe) = cl_pipe_send env payloads (client_pipe w) in (err, w\<lparr>client_pipe := pipe\<rparr>))"

definition cl_send_route ::
    "('h, 'p, 'a) client_env \<Rightarrow> route \<Rightarrow> bytes list \<Rightarrow>
     ('h, 'p, 'a) client_router \<Rightarrow> int \<times> ('h, 'p, 'a) client_router" where
  "cl_send_route env route suffix =
     tryPerformOnSerialized (serialize (cl_codec env)) route (\<lambda>prefix. cl_send_to_pipe env (prefix # suffix))"

definition cl_onGatewayDisposal ::
    "('h, 'p, 'a) client_env \<Rightarrow> u64 \<Rightarrow> bool \<Rightarrow> int \<Rightarrow> ('h, 'p, 'a) client_router \<Rightarrow> ('h, 'p, 'a) client_router" where
  "cl_onGatewayDisposal env tag send_ch_end completion_err w =
     (let was_registered = cl_isRegisteredGateway tag w;
          w1 = w\<lparr>map_of_gateways := AList.delete tag (map_of_gateways w)\<rparr>
      in if was_registered \<and> send_ch_end \<and> is_connected w1
         then snd (cl_send_route env (RouteChannelEnd tag completion_err) [] w1) else w1)"

text \<open>
  The last strong pointer runs \<open>~GatewayImpl\<close>: a gateway that never sent is unknown to the server.
\<close>

definition cl_release ::
    "('h, 'p, 'a) client_env \<Rightarrow> gateway_id \<Rightarrow> ('h, 'p, 'a) client_router \<Rightarrow> ('h, 'p, 'a) client_router" where
  "cl_release env g w =
     (case cl_gateways w g of
        None \<Rightarrow> w
      | Some gw \<Rightarrow>
          (if cg_use_count gw \<le> 1
           then cl_onGatewayDisposal env (cg_tag gw) (0 < cg_next_sequence gw) (cg_completion_error_code gw)
                  (w\<lparr>cl_gateways := (cl_gateways w)(g := None)\<rparr>)
           else cl_update_gateway g (\<lambda>gw. gw\<lparr>cg_use_count := cg_use_count gw - 1\<rparr>) w))"

text \<open>\<open>makeGateway\<close> returns the only strong pointer; \<open>makeChannel\<close> keeps it in the channel.\<close>

definition cl_GatewayImpl_create :: "u64 \<Rightarrow> ('h, 'p, 'a) client_router \<Rightarrow> gateway_id \<times> ('h, 'p, 'a) client_router" where
  "cl_GatewayImpl_create tag w =
     (cl_next_gateway w,
      w\<lparr>cl_gateways := (cl_gateways w)(cl_next_gateway w \<mapsto>
          \<lparr>cg_tag = tag, cg_next_sequence = 0, cg_event_handler = None,
           cg_completion_error_code = 0, cg_use_count = 1\<rparr>),
        cl_next_gateway := cl_next_gateway w + 1\<rparr>)"

definition makeGateway :: "('h, 'p, 'a) client_router \<Rightarrow> gateway_id \<times> ('h, 'p, 'a) client_router" where
  "makeGateway w =
     (let tag = next_tag w;
          (g, w1) = cl_GatewayImpl_create tag (w\<lparr>next_tag := tag + 1\<rparr>)
      in (g, w1\<lparr>map_of_gateways := AList.update tag g (map_of_gateways w1)\<rparr>))"

definition makeChannel ::
    "(string \<Rightarrow> u64) \<Rightarrow> string \<Rightarrow> string \<Rightarrow> ('h, 'p, 'a) client_router \<Rightarrow> channel \<times> ('h, 'p, 'a) client_router" where
  "makeChannel crc64 full_name_and_version service_name w =
     (let (g, w1) = makeGateway w
      in (\<lparr>ch_gateway = g, ch_service_id = fst (getServiceDesc crc64 full_name_and_version service_name)\<rparr>, w1))"

subsection \<open>The gateway's own operations\<close>

definition cl_gateway_send ::
    "('h, 'p, 'a) client_env \<Rightarrow> gateway_id \<Rightarrow> u64 \<Rightarrow> bytes \<Rightarrow>
     ('h, 'p, 'a) client_router \<Rightarrow> int \<times> ('h, 'p, 'a) client_router" where
  "cl_gateway_send env g service_id payload w =
     (case cl_gateways w g of
        None \<Rightarrow> (0, w)
      | Some gw \<Rightarrow>
          (if \<not> is_connected w then (ErrorCode_NotConnected, w)
           else if \<not> cl_isRegisteredGateway (cg_tag gw) w then (ErrorCode_Shutdown, w)
           else cl_send_route env
                  (RouteChannelMsg (cg_tag gw) (cg_next_sequence gw) service_id (of_nat (length payload)))
                  [payload]
                  (cl_update_gateway g (\<lambda>gw. gw\<lparr>cg_next_sequence := cg_next_sequence gw + 1\<rparr>) w)))"

definition cl_gateway_complete ::
    "gateway_id \<Rightarrow> int \<Rightarrow> ('h, 'p, 'a) client_router \<Rightarrow> ('h, 'p, 'a) client_router" where
  "cl_gateway_complete g error_code = cl_update_gateway g (\<lambda>gw. gw\<lparr>cg_completion_error_code := error_code\<rparr>)"

definition cl_gateway_event ::
    "('h, 'p, 'a) client_env \<Rightarrow> gateway_id \<Rightarrow> gateway_event \<Rightarrow>
     ('h, 'p, 'a) client_router \<Rightarrow> int \<times> ('h, 'p, 'a) client_router" where
  "cl_gateway_event env g ev w =
     (case cl_gateways w g of
        None \<Rightarrow> (0, w)
      | Some gw \<Rightarrow> (case cg_event_handler gw of None \<Rightarrow> (0, w) | Some h \<Rightarrow> cl_run_handler env h ev w))"

definition cl_with_locked ::
    "('h, 'p, 'a) client_env \<Rightarrow> gateway_id \<Rightarrow>
     (('h, 'p, 'a) client_router \<Rightarrow> int \<times> ('h, 'p, 'a) client_router) \<Rightarrow>
     ('h, 'p, 'a) client_router \<Rightarrow> int \<times> ('h, 'p, 'a) client_router" where
  "cl_with_locked env g action w =
     (if cl_alive g w
      then (let (r, w1) = action (cl_share g w) in (r, cl_release env g w1))
      else (0, w))"

definition cl_findAndActOnRegisteredGateway ::
    "('h, 'p, 'a) client_env \<Rightarrow> u64 \<Rightarrow>
     (gateway_id \<Rightarrow> ('h, 'p, 'a) client_router \<Rightarrow> int \<times> ('h, 'p, 'a) client_router) \<Rightarrow>
     ('h, 'p, 'a) client_router \<Rightarrow> int \<times> ('h, 'p, 'a) client_router" where
  "cl_findAndActOnRegisteredGateway env tag action w =
     (case cl_find tag w of None \<Rightarrow> (0, w) | Some g \<Rightarrow> cl_with_locked env g (action g) w)"

definition cl_onGatewaySubscription ::
    "('h, 'p, 'a) client_env \<Rightarrow> u64 \<Rightarrow> ('h, 'p, 'a) client_router \<Rightarrow> ('h, 'p, 'a) client_router" where
  "cl_onGatewaySubscription env tag w =
     (if is_connected w
      then snd (cl_findAndActOnRegisteredGateway env tag (\<lambda>g. cl_gateway_event env g GConnected) w)
      else w)"

definition cl_gateway_subscribe ::
    "('h, 'p, 'a) client_env \<Rightarrow> gateway_id \<Rightarrow> 'h option \<Rightarrow>
     ('h, 'p, 'a) client_router \<Rightarrow> ('h, 'p, 'a) client_router" where
  "cl_gateway_subscribe env g handler w =
     (case cl_gateways w g of
        None \<Rightarrow> w
      | Some gw \<Rightarrow> cl_onGatewaySubscription env (cg_tag gw)
                     (cl_update_gateway g (\<lambda>gw. gw\<lparr>cg_event_handler := handler\<rparr>) w))"

subsection \<open>All gateways at once\<close>

text \<open>
  \<open>forEachRegisteredGateway\<close> locks every live gateway first, then acts on each, then lets the
  strong pointers go; an action may change the map without disturbing the iteration.
\<close>

fun lock_all :: "(u64 \<times> gateway_id) list \<Rightarrow> ('h, 'p, 'a) client_router \<Rightarrow> gateway_id list \<times> ('h, 'p, 'a) client_router" where
  "lock_all [] w = ([], w)"
| "lock_all ((tag, g) # gws) w =
     (if cl_alive g w
      then (let (gs, w1) = lock_all gws (cl_share g w) in (g # gs, w1))
      else lock_all gws w)"

fun event_all ::
    "('h, 'p, 'a) client_env \<Rightarrow> gateway_event \<Rightarrow> gateway_id list \<Rightarrow>
     ('h, 'p, 'a) client_router \<Rightarrow> ('h, 'p, 'a) client_router" where
  "event_all env ev [] w = w"
| "event_all env ev (g # gs) w = event_all env ev gs (snd (cl_gateway_event env g ev w))"

fun release_all ::
    "('h, 'p, 'a) client_env \<Rightarrow> gateway_id list \<Rightarrow> ('h, 'p, 'a) client_router \<Rightarrow> ('h, 'p, 'a) client_router" where
  "release_all env [] w = w"
| "release_all env (g # gs) w = release_all env gs (cl_release env g w)"

definition forEachRegisteredGateway ::
    "('h, 'p, 'a) client_env \<Rightarrow> gateway_event \<Rightarrow> ('h, 'p, 'a) client_router \<Rightarrow> ('h, 'p, 'a) client_router" where
  "forEachRegisteredGateway env ev w =
     (let (gs, w1) = lock_all (map_of_gateways w) w in release_all env gs (event_all env ev gs w1))"

fun cl_complete_all ::
    "('h, 'p, 'a) client_env \<Rightarrow> (u64 \<times> gateway_id) list \<Rightarrow>
     ('h, 'p, 'a) client_router \<Rightarrow> ('h, 'p, 'a) client_router" where
  "cl_complete_all env [] w = w"
| "cl_complete_all env ((tag, g) # gws) w =
     cl_complete_all env gws
       (snd (cl_with_locked env g (cl_gateway_event env g (GCompleted ErrorCode_Disconnected)) w))"

subsection \<open>Pipe events\<close>

definition cl_handleConnected ::
    "('h, 'p, 'a) client_env \<Rightarrow> ('h, 'p, 'a) client_router \<Rightarrow> int \<times> ('h, 'p, 'a) client_router" where
  "cl_handleConnected env = cl_send_route env (RouteConnect VERSION_MAJOR VERSION_MINOR 0) []"

definition cl_handleDisconnected ::
    "('h, 'p, 'a) client_env \<Rightarrow> ('h, 'p, 'a) client_router \<Rightarrow> int \<times> ('h, 'p, 'a) client_router" where
  "cl_handleDisconnected env w =
     (0, if is_connected w
         then cl_complete_all env (map_of_gateways w) (w\<lparr>is_connected := False, map_of_gateways := []\<rparr>)
         else w)"

definition cl_handleRouteConnect ::
    "('h, 'p, 'a) client_env \<Rightarrow> ('h, 'p, 'a) client_router \<Rightarrow> int \<times> ('h, 'p, 'a) client_router" where
  "cl_handleRouteConnect env w =
     (0, if \<not> is_connected w then forEachRegisteredGateway env GConnected (w\<lparr>is_connected := True\<rparr>) else w)"

definition cl_handleRouteChannelMsg ::
    "('h, 'p, 'a) client_env \<Rightarrow> u64 \<Rightarrow> u64 \<Rightarrow> u64 \<Rightarrow> bytes \<Rightarrow>
     ('h, 'p, 'a) client_router \<Rightarrow> (int \<times> ('h, 'p, 'a) client_router) option" where
  "cl_handleRouteChannelMsg env tag sequence payload_size payload w =
     (case real_payload payload payload_size of
        None \<Rightarrow> None
      | Some msg_real_payload \<Rightarrow>
          Some (case cl_find tag w of
                  None \<Rightarrow> (0, w)
                | Some g \<Rightarrow> cl_with_locked env g (cl_gateway_event env g (GMessage sequence msg_real_payload)) w))"

definition cl_unregister :: "u64 \<Rightarrow> ('h, 'p, 'a) client_router \<Rightarrow> ('h, 'p, 'a) client_router" where
  "cl_unregister tag w = w\<lparr>map_of_gateways := AList.delete tag (map_of_gateways w)\<rparr>"

definition cl_handleRouteChannelEnd ::
    "('h, 'p, 'a) client_env \<Rightarrow> u64 \<Rightarrow> int \<Rightarrow> ('h, 'p, 'a) client_router \<Rightarrow> int \<times> ('h, 'p, 'a) client_router" where
  "cl_handleRouteChannelEnd env tag error_code =
     cl_findAndActOnRegisteredGateway env tag
       (\<lambda>g w. cl_gateway_event env g (GCompleted error_code) (cl_unregister tag w))"

definition cl_handlePipeMessage ::
    "('h, 'p, 'a) client_env \<Rightarrow> bytes \<Rightarrow> ('h, 'p, 'a) client_router \<Rightarrow>
     (int \<times> ('h, 'p, 'a) client_router) option" where
  "cl_handlePipeMessage env payload w =
     (case deserialize (cl_codec env) payload of
        None \<Rightarrow> Some (EINVAL, w)
      | Some RouteEmpty \<Rightarrow> Some (EINVAL, w)
      | Some (RouteConnect major minor err) \<Rightarrow> Some (cl_handleRouteConnect env w)
      | Some (RouteChannelMsg tag sequence service_id payload_size) \<Rightarrow>
          cl_handleRouteChannelMsg env tag sequence payload_size payload w
      | Some (RouteChannelEnd tag err) \<Rightarrow> Some (cl_handleRouteChannelEnd env tag err w))"

fun cl_handlePipeEvent ::
    "('h, 'p, 'a) client_env \<Rightarrow> client_pipe_event \<Rightarrow> ('h, 'p, 'a) client_router \<Rightarrow>
     (int \<times> ('h, 'p, 'a) client_router) option" where
  "cl_handlePipeEvent env ClPipeConnected w = Some (cl_handleConnected env w)"
| "cl_handlePipeEvent env (ClPipeMessage payload) w = cl_handlePipeMessage env payload w"
| "cl_handlePipeEvent env ClPipeDisconnected w = Some (cl_handleDisconnected env w)"

subsection \<open>The well-formedness invariant\<close>

definition client_inv ::
    "('a \<Rightarrow> gateway_id \<Rightarrow> nat) \<Rightarrow> (gateway_id \<Rightarrow> nat) \<Rightarrow> ('h, 'p, 'a) client_router \<Rightarrow> bool" where
  "client_inv owners H w \<longleftrightarrow>
     distinct_keys (map_of_gateways w) \<and>
     (\<forall>tag g. cl_find tag w = Some g \<longrightarrow> (\<exists>gw. cl_gateways w g = Some gw \<and> cg_tag gw = tag)) \<and>
     (\<forall>g. case cl_gateways w g of
            None \<Rightarrow> H g + owners (cl_app w) g = 0
          | Some gw \<Rightarrow> cg_use_count gw = H g + owners (cl_app w) g \<and> 0 < cg_use_count gw) \<and>
     (\<forall>g. cl_next_gateway w \<le> g \<longrightarrow> cl_gateways w g = None)"

end
