(* ===== verification/Client_Router_Inv.thy ===== *)
theory Client_Router_Inv
  imports Client_Router
begin

text \<open>
  What the client router promises for every pipe event, whatever the clients behind its gateways
  do, as long as they give back the pointers they take (locale \<open>client_app\<close>): registrations are
  unique and live, and use counts are exact.
\<close>

subsection \<open>Frames\<close>

lemma cl_send_to_pipe_frame [simp]:
  "next_tag (snd (cl_send_to_pipe env ps w)) = next_tag w"
  "is_connected (snd (cl_send_to_pipe env ps w)) = is_connected w"
  "map_of_gateways (snd (cl_send_to_pipe env ps w)) = map_of_gateways w"
  "cl_gateways (snd (cl_send_to_pipe env ps w)) = cl_gateways w"
  "cl_next_gateway (snd (cl_send_to_pipe env ps w)) = cl_next_gateway w"
  "cl_app (snd (cl_send_to_pipe env ps w)) = cl_app w"
  by (simp_all add: cl_send_to_pipe_def split: prod.split)

lemma cl_send_route_frame [simp]:
  "next_tag (snd (cl_send_route env r ps w)) = next_tag w"
  "is_connected (snd (cl_send_route env r ps w)) = is_connected w"
  "map_of_gateways (snd (cl_send_route env r ps w)) = map_of_gateways w"
  "cl_gateways (snd (cl_send_route env r ps w)) = cl_gateways w"
  "cl_next_gateway (snd (cl_send_route env r ps w)) = cl_next_gateway w"
  "cl_app (snd (cl_send_route env r ps w)) = cl_app w"
  by (simp_all add: cl_send_route_def tryPerformOnSerialized_def split: option.split)

lemma cl_update_gateway_frame [simp]:
  "next_tag (cl_update_gateway g f w) = next_tag w"
  "is_connected (cl_update_gateway g f w) = is_connected w"
  "map_of_gateways (cl_update_gateway g f w) = map_of_gateways w"
  "cl_gateways (cl_update_gateway g f w) = (cl_gateways w)(g := map_option f (cl_gateways w g))"
  "cl_next_gateway (cl_update_gateway g f w) = cl_next_gateway w"
  "client_pipe (cl_update_gateway g f w) = client_pipe w"
  "cl_app (cl_update_gateway g f w) = cl_app w"
  by (simp_all add: cl_update_gateway_def)

lemma cl_find_frame [simp]:
  "cl_find t (cl_update_gateway g f w) = cl_find t w"
  "cl_find t (snd (cl_send_route env r ps w)) = cl_find t w"
  "cl_find t (cl_share g w) = cl_find t w"
  "cl_find t (w\<lparr>cl_gateways := x\<rparr>) = cl_find t w"
  "cl_find t (w\<lparr>is_connected := b\<rparr>) = cl_find t w"
  by (simp_all add: cl_find_def cl_share_def)

lemma cl_onGatewayDisposal_frame [simp]:
  "is_connected (cl_onGatewayDisposal env t b e w) = is_connected w"
  "map_of_gateways (cl_onGatewayDisposal env t b e w) = AList.delete t (map_of_gateways w)"
  "cl_gateways (cl_onGatewayDisposal env t b e w) = cl_gateways w"
  "cl_next_gateway (cl_onGatewayDisposal env t b e w) = cl_next_gateway w"
  "cl_app (cl_onGatewayDisposal env t b e w) = cl_app w"
  "cl_find t' (cl_onGatewayDisposal env t b e w) = (if t' = t then None else cl_find t' w)"
  by (simp_all add: cl_onGatewayDisposal_def Let_def cl_find_def)

lemma cl_onGatewayDisposal_pipe:
  assumes "serialize (cl_codec env) (RouteChannelEnd tag e) = Some frame"
  shows "client_pipe (cl_onGatewayDisposal env tag b e w) =
         (if cl_find tag w \<noteq> None \<and> b \<and> is_connected w
          then snd (cl_pipe_send env [frame] (client_pipe w)) else client_pipe w)"
  using assms
  by (auto simp: cl_onGatewayDisposal_def Let_def cl_isRegisteredGateway_def cl_send_route_def
      tryPerformOnSerialized_def cl_send_to_pipe_def split: prod.split)

subsection \<open>The invariant\<close>

lemma client_invI:
  assumes "distinct_keys (map_of_gateways w)"
    and "\<And>tag g. cl_find tag w = Some g \<Longrightarrow> \<exists>gw. cl_gateways w g = Some gw \<and> cg_tag gw = tag"
    and "\<And>g. cl_gateways w g = None \<Longrightarrow> H g + owners (cl_app w) g = 0"
    and "\<And>g gw. cl_gateways w g = Some gw \<Longrightarrow>
           cg_use_count gw = H g + owners (cl_app w) g \<and> 0 < cg_use_count gw"
    and "\<And>g. cl_next_gateway w \<le> g \<Longrightarrow> cl_gateways w g = None"
  shows "client_inv owners H w"
proof -
  have "case cl_gateways w g of None \<Rightarrow> H g + owners (cl_app w) g = 0
      | Some gw \<Rightarrow> cg_use_count gw = H g + owners (cl_app w) g \<and> 0 < cg_use_count gw" for g
  proof (cases "cl_gateways w g")
    case None
    with assms(3) show ?thesis by simp
  next
    case (Some gw)
    show ?thesis unfolding Some option.case by (rule assms(4) [OF Some])
  qed
  with assms(1,2,5) show ?thesis unfolding client_inv_def by blast
qed

lemma client_invD:
  assumes "client_inv owners H w"
  shows "distinct_keys (map_of_gateways w)"
    and "cl_find tag w = Some g \<Longrightarrow> \<exists>gw. cl_gateways w g = Some gw \<and> cg_tag gw = tag"
    and "cl_gateways w g = None \<Longrightarrow> H g = 0 \<and> owners (cl_app w) g = 0"
    and "cl_gateways w g = Some gw \<Longrightarrow> cg_use_count gw = H g + owners (cl_app w) g \<and> 0 < cg_use_count gw"
    and "cl_next_gateway w \<le> g \<Longrightarrow> cl_gateways w g = None"
proof -
  note inv = assms [unfolded client_inv_def]
  show "distinct_keys (map_of_gateways w)"
    and "cl_find tag w = Some g \<Longrightarrow> \<exists>gw. cl_gateways w g = Some gw \<and> cg_tag gw = tag"
    and "cl_next_gateway w \<le> g \<Longrightarrow> cl_gateways w g = None"
    using inv by blast+
  from inv have c: "case cl_gateways w g of None \<Rightarrow> H g + owners (cl_app w) g = 0
      | Some gw \<Rightarrow> cg_use_count gw = H g + owners (cl_app w) g \<and> 0 < cg_use_count gw" by blast
  from c show "cl_gateways w g = None \<Longrightarrow> H g = 0 \<and> owners (cl_app w) g = 0" by simp
  show "cg_use_count gw = H g + owners (cl_app w) g \<and> 0 < cg_use_count gw" if "cl_gateways w g = Some gw"
    using c unfolding that option.case .
qed

text \<open>Registrations may be lost and pointers may move between the stack and the application.\<close>

lemma client_inv_move:
  assumes inv: "client_inv owners H w"
    and own: "\<And>g. H' g + owners (cl_app w') g = H g + owners (cl_app w) g"
    and reg: "distinct_keys (map_of_gateways w')" "\<And>t g. cl_find t w' = Some g \<Longrightarrow> cl_find t w = Some g"
    and same: "cl_gateways w' = cl_gateways w" "cl_next_gateway w' = cl_next_gateway w"
  shows "client_inv owners H' w'"
proof (rule client_invI)
  note inv' = client_invD [OF inv]
  show "distinct_keys (map_of_gateways w')" by (rule reg(1))
  show "\<exists>gw. cl_gateways w' g = Some gw \<and> cg_tag gw = tag" if "cl_find tag w' = Some g" for tag g
    using inv'(2) [OF reg(2) [OF that]] same by simp
  show "H' g + owners (cl_app w') g = 0" if "cl_gateways w' g = None" for g
    using that inv'(3) [of g] same own [of g] by simp
  show "cg_use_count gw = H' g + owners (cl_app w') g \<and> 0 < cg_use_count gw"
    if "cl_gateways w' g = Some gw" for g gw
    unfolding own using that inv'(4) [of g gw] unfolding same by blast
  show "cl_gateways w' g = None" if "cl_next_gateway w' \<le> g" for g
    using that inv'(5) same by simp
qed

lemma client_inv_cong:
  assumes "client_inv owners H w" and "map_of_gateways w' = map_of_gateways w"
    and "cl_gateways w' = cl_gateways w" and "cl_next_gateway w' = cl_next_gateway w"
    and "owners (cl_app w') = owners (cl_app w)"
  shows "client_inv owners H w'"
  by (rule client_inv_move [OF assms(1)]) (simp_all add: assms(2-5) cl_find_def client_invD(1) [OF assms(1)])

lemma cl_send_route_inv [inv_intros]:
  "client_inv owners H w \<Longrightarrow> client_inv owners H (snd (cl_send_route env r ps w))"
  by (rule client_inv_cong) simp_all

lemma cl_held_alive: "client_inv owners H w \<Longrightarrow> 0 < H g \<Longrightarrow> cl_alive g w"
  unfolding cl_alive_def using client_invD(3) by force

lemma cl_heap_inv:
  assumes inv: "client_inv owners H w"
    and f: "\<And>gw. cg_tag (f gw) = cg_tag gw"
    and cnt: "\<And>g' gw. cl_gateways w g' = Some gw \<Longrightarrow>
      cg_use_count (if g' = g then f gw else gw) = H' g' + owners (cl_app w) g' \<and>
      0 < cg_use_count (if g' = g then f gw else gw)"
    and dead: "\<And>g'. cl_gateways w g' = None \<Longrightarrow> H' g' = 0"
  shows "client_inv owners H' (cl_update_gateway g f w)"
proof (rule client_invI)
  note inv' = client_invD [OF inv]
  show "distinct_keys (map_of_gateways (cl_update_gateway g f w))" using inv'(1) by simp
  show "\<exists>gw. cl_gateways (cl_update_gateway g f w) g' = Some gw \<and> cg_tag gw = tag"
    if "cl_find tag (cl_update_gateway g f w) = Some g'" for tag g'
    using inv'(2) [of tag g'] that f by fastforce
  show "H' g' + owners (cl_app (cl_update_gateway g f w)) g' = 0" if "cl_gateways (cl_update_gateway g f w) g' = None" for g'
    using inv'(3) [of g'] that dead [of g'] by (auto split: if_splits)
  show "cg_use_count gw = H' g' + owners (cl_app (cl_update_gateway g f w)) g' \<and> 0 < cg_use_count gw"
    if "cl_gateways (cl_update_gateway g f w) g' = Some gw" for g' gw
    using cnt [of g'] that by (auto split: if_splits)
  show "cl_gateways (cl_update_gateway g f w) g' = None" if "cl_next_gateway (cl_update_gateway g f w) \<le> g'" for g'
    using inv'(5) [of g'] that by auto
qed

lemma cl_update_gateway_inv:
  assumes "client_inv owners H w"
    and "\<And>gw. cg_tag (f gw) = cg_tag gw \<and> cg_use_count (f gw) = cg_use_count gw"
  shows "client_inv owners H (cl_update_gateway g f w)"
proof (rule cl_heap_inv [OF assms(1)])
  show "cg_use_count (if g' = g then f gw else gw) = H g' + owners (cl_app w) g' \<and>
      0 < cg_use_count (if g' = g then f gw else gw)" if "cl_gateways w g' = Some gw" for g' gw
    using client_invD(4) [OF assms(1) that] assms(2) by auto
qed (use assms client_invD(3) [OF assms(1)] in auto)

lemma cl_share_inv [inv_intros]:
  assumes inv: "client_inv owners H w" and alive: "cl_alive g w"
  shows "client_inv owners (H(g := H g + 1)) (cl_share g w)"
  unfolding cl_share_def
proof (rule cl_heap_inv [OF inv])
  fix g' gw
  assume gw: "cl_gateways w g' = Some gw"
  show "cg_use_count (if g' = g then gw\<lparr>cg_use_count := cg_use_count gw + 1\<rparr> else gw) =
        (H(g := H g + 1)) g' + owners (cl_app w) g' \<and>
        0 < cg_use_count (if g' = g then gw\<lparr>cg_use_count := cg_use_count gw + 1\<rparr> else gw)"
    using client_invD(4) [OF inv gw] by auto
qed (use alive client_invD(3) [OF inv] in \<open>auto simp: cl_alive_def\<close>)

lemma cl_release_inv [inv_intros]:
  assumes inv: "client_inv owners H w" and held: "0 < H g"
  shows "client_inv owners (H(g := H g - 1)) (cl_release env g w)"
proof -
  note inv' = client_invD [OF inv]
  obtain gw where gw: "cl_gateways w g = Some gw"
    using cl_held_alive [OF inv held] by (auto simp: cl_alive_def)
  have count: "cg_use_count gw = H g + owners (cl_app w) g" using inv'(4) [OF gw] by simp
  show ?thesis
  proof (cases "cg_use_count gw \<le> 1")
    case True
    with count held have one: "H g = 1" "owners (cl_app w) g = 0" by simp_all
    let ?d = "cl_onGatewayDisposal env (cg_tag gw) (0 < cg_next_sequence gw) (cg_completion_error_code gw)
      (w\<lparr>cl_gateways := (cl_gateways w)(g := None)\<rparr>)"
    have "client_inv owners (H(g := H g - 1)) ?d"
    proof (rule client_invI)
      show "distinct_keys (map_of_gateways ?d)" using inv'(1) by simp
      show "\<exists>gw. cl_gateways ?d g' = Some gw \<and> cg_tag gw = tag" if "cl_find tag ?d = Some g'" for tag g'
      proof -
        have f: "cl_find tag w = Some g'" "tag \<noteq> cg_tag gw" using that by (simp_all split: if_splits)
        from inv'(2) [OF f(1)] gw f(2) have "g' \<noteq> g" by auto
        with inv'(2) [OF f(1)] show ?thesis by simp
      qed
      show "(H(g := H g - 1)) g' + owners (cl_app ?d) g' = 0" if "cl_gateways ?d g' = None" for g'
        using inv'(3) [of g'] that one by (auto split: if_splits)
      show "cg_use_count gw' = (H(g := H g - 1)) g' + owners (cl_app ?d) g' \<and> 0 < cg_use_count gw'"
        if "cl_gateways ?d g' = Some gw'" for g' gw'
        using inv'(4) [of g'] that by (auto split: if_splits)
      show "cl_gateways ?d g' = None" if "cl_next_gateway ?d \<le> g'" for g'
        using inv'(5) [of g'] that by auto
    qed
    with True gw show ?thesis by (simp add: cl_release_def)
  next
    case False
    have "client_inv owners (H(g := H g - 1)) (cl_update_gateway g (\<lambda>gw. gw\<lparr>cg_use_count := cg_use_count gw - 1\<rparr>) w)"
    proof (rule cl_heap_inv [OF inv])
      fix g' gw'
      assume gw': "cl_gateways w g' = Some gw'"
      show "cg_use_count (if g' = g then gw'\<lparr>cg_use_count := cg_use_count gw' - 1\<rparr> else gw') =
            (H(g := H g - 1)) g' + owners (cl_app w) g' \<and>
            0 < cg_use_count (if g' = g then gw'\<lparr>cg_use_count := cg_use_count gw' - 1\<rparr> else gw')"
        using inv'(4) [OF gw'] gw gw' False held by auto
    qed (use gw inv'(3) in auto)
    with False gw show ?thesis by (simp add: cl_release_def)
  qed
qed

lemma cl_gateway_send_inv [inv_intros]:
  "client_inv owners H w \<Longrightarrow> client_inv owners H (snd (cl_gateway_send env g s p w))"
  unfolding cl_gateway_send_def
  by (auto split: option.split intro!: cl_send_route_inv cl_update_gateway_inv)

lemma cl_unregister_inv [inv_intros]:
  assumes inv: "client_inv owners H w"
  shows "client_inv owners H (cl_unregister tag w)"
  by (rule client_inv_move [OF inv])
     (use client_invD(1) [OF inv] in \<open>simp_all add: cl_unregister_def cl_find_def split: if_splits\<close>)

text \<open>A new gateway is held by the caller alone.\<close>

lemma makeGateway_inv:
  assumes inv: "client_inv owners H w" and new: "makeGateway w = (g, w1)"
  shows "client_inv owners (H(g := 1)) w1" and "H g = 0" and "owners (cl_app w) g = 0"
proof -
  note inv' = client_invD [OF inv]
  have g: "g = cl_next_gateway w" and w1: "w1 = w\<lparr>next_tag := next_tag w + 1,
      map_of_gateways := AList.update (next_tag w) g (map_of_gateways w),
      cl_gateways := (cl_gateways w)(g \<mapsto> \<lparr>cg_tag = next_tag w, cg_next_sequence = 0,
        cg_event_handler = None, cg_completion_error_code = 0, cg_use_count = 1\<rparr>),
      cl_next_gateway := g + 1\<rparr>"
    using new by (auto simp: makeGateway_def cl_GatewayImpl_create_def Let_def)
  have none: "cl_gateways w g = None" using inv'(5) g by simp
  then show "H g = 0" "owners (cl_app w) g = 0" using inv'(3) by simp_all
  show "client_inv owners (H(g := 1)) w1"
  proof (rule client_invI)
    show "distinct_keys (map_of_gateways w1)" using inv'(1) by (simp add: w1)
    show "\<exists>gw. cl_gateways w1 g' = Some gw \<and> cg_tag gw = t" if "cl_find t w1 = Some g'" for t g'
      using inv'(2) [of t g'] that none by (auto simp: w1 cl_find_def split: if_splits)
    show "(H(g := 1)) g' + owners (cl_app w1) g' = 0" if "cl_gateways w1 g' = None" for g'
      using inv'(3) [of g'] that by (auto simp: w1 split: if_splits)
    show "cg_use_count gw = (H(g := 1)) g' + owners (cl_app w1) g' \<and> 0 < cg_use_count gw"
      if "cl_gateways w1 g' = Some gw" for g' gw
      using inv'(4) [of g'] inv'(3) [OF none] that by (auto simp: w1 split: if_splits)
    show "cl_gateways w1 g' = None" if "cl_next_gateway w1 \<le> g'" for g'
      using inv'(5) [of g'] that g by (auto simp: w1)
  qed
qed

subsection \<open>The contract of the clients\<close>

text \<open>The pointers a list of locked gateways stands for.\<close>

fun held_count :: "gateway_id list \<Rightarrow> gateway_id \<Rightarrow> nat" where
  "held_count [] g = 0"
| "held_count (h # hs) g = (if h = g then 1 else 0) + held_count hs g"

locale client_app =
  fixes env :: "('h, 'p, 'a) client_env"
    and owners :: "'a \<Rightarrow> gateway_id \<Rightarrow> nat"
  assumes handler_inv: "client_inv owners H w \<Longrightarrow> client_inv owners H (snd (cl_run_handler env h ev w))"
begin

lemma gateway_event_inv: "client_inv owners H w \<Longrightarrow> client_inv owners H (snd (cl_gateway_event env g ev w))"
  unfolding cl_gateway_event_def by (auto split: option.split intro: handler_inv)

lemma with_locked_inv:
  assumes inv: "client_inv owners H w"
    and act: "\<And>w. client_inv owners (H(g := H g + 1)) w \<Longrightarrow> client_inv owners (H(g := H g + 1)) (snd (action w))"
  shows "client_inv owners H (snd (cl_with_locked env g action w))"
proof (cases "cl_alive g w")
  case True
  obtain r w1 where a: "action (cl_share g w) = (r, w1)" by fastforce
  from act [OF cl_share_inv [OF inv True]] a have "client_inv owners (H(g := H g + 1)) w1" by simp
  from cl_release_inv [OF this, of g env] have "client_inv owners H (cl_release env g w1)" by simp
  with True a show ?thesis by (simp add: cl_with_locked_def)
next
  case False
  with inv show ?thesis by (simp add: cl_with_locked_def)
qed

lemma findAndAct_inv:
  assumes "client_inv owners H w"
    and "\<And>g w. client_inv owners (H(g := H g + 1)) w \<Longrightarrow> client_inv owners (H(g := H g + 1)) (snd (action g w))"
  shows "client_inv owners H (snd (cl_findAndActOnRegisteredGateway env tag action w))"
  using assms by (auto simp: cl_findAndActOnRegisteredGateway_def split: option.split intro!: with_locked_inv)

lemma subscribe_inv:
  assumes "client_inv owners H w"
  shows "client_inv owners H (cl_gateway_subscribe env g h w)"
  using assms by (auto simp: cl_gateway_subscribe_def cl_onGatewaySubscription_def split: option.split
      intro!: findAndAct_inv gateway_event_inv cl_update_gateway_inv)

lemma complete_all_inv: "client_inv owners H w \<Longrightarrow> client_inv owners H (cl_complete_all env gws w)"
proof (induction gws arbitrary: w)
  case (Cons x gws)
  obtain tag g where x: "x = (tag, g)" by fastforce
  from Cons.IH [OF with_locked_inv [OF Cons.prems gateway_event_inv]] show ?case by (simp add: x)
qed simp

lemma lock_all_inv:
  "client_inv owners H w \<Longrightarrow> lock_all gws w = (gs, w1) \<Longrightarrow>
   client_inv owners (\<lambda>g. H g + held_count gs g) w1"
proof (induction gws w arbitrary: H gs w1 rule: lock_all.induct)
  case (2 tag g gws w)
  show ?case
  proof (cases "cl_alive g w")
    case True
    obtain gs' w' where l: "lock_all gws (cl_share g w) = (gs', w')" by fastforce
    have gs: "gs = g # gs'" "w1 = w'" using "2.prems"(2) True l by simp_all
    have "(\<lambda>h. (H(g := H g + 1)) h + held_count gs' h) = (\<lambda>h. H h + held_count gs h)"
      by (auto simp: gs)
    with "2.IH"(1) [OF True cl_share_inv [OF "2.prems"(1) True] l] show ?thesis by (simp add: gs(2))
  next
    case False
    with 2 show ?thesis by simp
  qed
qed simp

lemma event_all_inv: "client_inv owners H w \<Longrightarrow> client_inv owners H (event_all env ev gs w)"
  by (induction gs arbitrary: w) (simp_all add: gateway_event_inv)

lemma release_all_inv:
  "client_inv owners (\<lambda>g. H g + held_count gs g) w \<Longrightarrow> client_inv owners H (release_all env gs w)"
proof (induction gs arbitrary: w)
  case (Cons h gs)
  have "client_inv owners ((\<lambda>g. H g + held_count (h # gs) g)(h := H h + held_count (h # gs) h - 1)) (cl_release env h w)"
    by (rule cl_release_inv [OF Cons.prems]) simp
  then have "client_inv owners (\<lambda>g. H g + held_count gs g) (cl_release env h w)"
    by (rule back_subst [of "\<lambda>H. client_inv owners H (cl_release env h w)"]) auto
  with Cons.IH show ?case by simp
qed simp

lemma forEach_inv:
  assumes "client_inv owners H w"
  shows "client_inv owners H (forEachRegisteredGateway env ev w)"
proof -
  obtain gs w1 where l: "lock_all (map_of_gateways w) w = (gs, w1)" by fastforce
  from release_all_inv [OF event_all_inv [OF lock_all_inv [OF assms l]]] show ?thesis
    by (simp add: forEachRegisteredGateway_def l)
qed

lemma handlePipeEvent_inv:
  assumes inv: "client_inv owners H w" and step: "cl_handlePipeEvent env ev w = Some (r, w')"
  shows "client_inv owners H w'"
proof -
  have conn: "client_inv owners H (w\<lparr>is_connected := b\<rparr>)" for b
    by (rule client_inv_cong [OF inv]) simp_all
  have disc: "client_inv owners H (w\<lparr>is_connected := False, map_of_gateways := []\<rparr>)"
    by (rule client_inv_move [OF inv]) (simp_all add: cl_find_def)
  have msg: "client_inv owners H (snd x)" if "cl_handlePipeMessage env payload w = Some x" for payload x
    using that inv
    by (auto simp: cl_handlePipeMessage_def cl_handleRouteConnect_def cl_handleRouteChannelMsg_def
        cl_handleRouteChannelEnd_def split: option.splits route.splits
        intro!: forEach_inv conn findAndAct_inv with_locked_inv gateway_event_inv cl_unregister_inv)
  show ?thesis
  proof (cases ev)
    case ClPipeConnected
    with step cl_send_route_inv [OF inv, of env "RouteConnect VERSION_MAJOR VERSION_MINOR 0" "[]"] show ?thesis
      by (simp add: cl_handleConnected_def)
  next
    case (ClPipeMessage payload)
    with step msg show ?thesis by fastforce
  next
    case ClPipeDisconnected
    with step inv complete_all_inv [OF disc] show ?thesis
      by (auto simp: cl_handleDisconnected_def split: if_splits)
  qed
qed

end

end
