(* ===== verification/Client_Gateway.thy ===== *)
theory Client_Gateway
  imports Client_Router_Inv Server_Gateway
begin

text \<open>
  The behaviour of the client router's operations branch by branch: its gateway as the second
  implementation of \<open>gateway_interface\<close>, messages from a client gateway to a server gateway and
  back, what a gateway's end sends, and whom the router tells when it connects and disconnects.
\<close>

subsection \<open>The gateway interface\<close>

definition cgw_connected :: "gateway_id \<Rightarrow> ('h, 'p, 'a) client_router \<Rightarrow> bool" where
  "cgw_connected g w = (cl_alive g w \<and> is_connected w)"

definition cgw_registered :: "gateway_id \<Rightarrow> ('h, 'p, 'a) client_router \<Rightarrow> bool" where
  "cgw_registered g w =
     (case cl_gateways w g of None \<Rightarrow> False | Some gw \<Rightarrow> cl_isRegisteredGateway (cg_tag gw) w)"

definition cgw_next_sequence :: "gateway_id \<Rightarrow> ('h, 'p, 'a) client_router \<Rightarrow> u64" where
  "cgw_next_sequence g w = (case cl_gateways w g of None \<Rightarrow> 0 | Some gw \<Rightarrow> cg_next_sequence gw)"

lemma cl_gateway_send_frame [simp]:
  "map_of_gateways (snd (cl_gateway_send env g s p w)) = map_of_gateways w"
  "is_connected (snd (cl_gateway_send env g s p w)) = is_connected w"
  "cl_next_gateway (snd (cl_gateway_send env g s p w)) = cl_next_gateway w"
  "cl_app (snd (cl_gateway_send env g s p w)) = cl_app w"
  "cl_find t (snd (cl_gateway_send env g s p w)) = cl_find t w"
  by (simp_all add: cl_gateway_send_def split: option.split)

lemma cl_gateway_send_gateways:
  "cl_gateways (snd (cl_gateway_send env g s p w)) =
   (if cgw_connected g w \<and> cgw_registered g w
    then (cl_gateways w)(g := map_option (\<lambda>gw. gw\<lparr>cg_next_sequence := cg_next_sequence gw + 1\<rparr>) (cl_gateways w g))
    else cl_gateways w)"
  by (auto simp: cl_gateway_send_def cgw_connected_def cgw_registered_def cl_alive_def split: option.splits)

interpretation cgw: gateway_interface cl_alive cgw_connected cgw_registered cgw_next_sequence
  "cl_gateway_send env" for env
proof unfold_locales
  fix g g' :: gateway_id and w and s :: u64 and p
  show "cl_alive g w \<Longrightarrow> \<not> cgw_connected g w \<Longrightarrow> cl_gateway_send env g s p w = (ErrorCode_NotConnected, w)"
    by (auto simp: cl_gateway_send_def cgw_connected_def cl_alive_def)
  show "cl_alive g w \<Longrightarrow> cgw_connected g w \<Longrightarrow> \<not> cgw_registered g w \<Longrightarrow>
        cl_gateway_send env g s p w = (ErrorCode_Shutdown, w)"
    by (auto simp: cl_gateway_send_def cgw_connected_def cgw_registered_def cl_alive_def)
  show "cl_alive g w \<Longrightarrow> cgw_connected g w \<Longrightarrow> cgw_registered g w \<Longrightarrow>
        cgw_next_sequence g (snd (cl_gateway_send env g s p w)) = cgw_next_sequence g w + 1"
    by (auto simp: cgw_next_sequence_def cl_gateway_send_gateways cl_alive_def split: option.split)
  show "g' \<noteq> g \<Longrightarrow> cgw_next_sequence g' (snd (cl_gateway_send env g s p w)) = cgw_next_sequence g' w"
    by (simp add: cgw_next_sequence_def cl_gateway_send_gateways)
  show "cl_alive g' (snd (cl_gateway_send env g s p w)) = cl_alive g' w"
    by (simp add: cl_alive_def cl_gateway_send_gateways)
  show "cgw_connected g' (snd (cl_gateway_send env g s p w)) = cgw_connected g' w"
    by (simp add: cgw_connected_def cl_alive_def cl_gateway_send_gateways)
  show "cgw_registered g' (snd (cl_gateway_send env g s p w)) = cgw_registered g' w"
    by (auto simp: cgw_registered_def cl_gateway_send_gateways cl_isRegisteredGateway_def split: option.split)
qed

text \<open>
  Until the handshake is done (or once the gateway is off the map) a client gateway sends
  nothing: every message is refused with an error and the router's state stays as it was.
\<close>

theorem client_refuses_before_handshake:
  assumes "cl_alive g w" and "\<not> (is_connected w \<and> cgw_registered g w)"
  shows "snd (cgw.send_all env g s ps w) = w \<and> 0 \<notin> set (fst (cgw.send_all env g s ps w))"
  by (rule cgw.send_all_refused) (use assms in \<open>auto simp: cgw_connected_def\<close>)

subsection \<open>Between the two routers\<close>

lemma cl_gateway_send_pipe:
  assumes "cl_gateways w g = Some gw" and "is_connected w" and "cl_isRegisteredGateway (cg_tag gw) w"
    and "serialize (cl_codec env)
           (RouteChannelMsg (cg_tag gw) (cg_next_sequence gw) s (of_nat (length payload))) = Some prefix"
  shows "client_pipe (snd (cl_gateway_send env g s payload w)) =
         snd (cl_pipe_send env [prefix, payload] (client_pipe w))"
  using assms by (simp add: cl_gateway_send_def cl_send_route_def tryPerformOnSerialized_def
      cl_send_to_pipe_def split: prod.split)

text \<open>
  C15. What a client gateway puts on the pipe is, once its parts are joined in transit, exactly
  what makes the server deliver the same payload, with the sender's sequence number, to the
  gateway the server has for that client and tag.
\<close>

theorem client_to_server_roundtrip:
  assumes "cl_gateways cw g = Some gw" and "is_connected cw" and "cl_isRegisteredGateway (cg_tag gw) cw"
    and "cl_codec cenv = env_codec senv" and "dsdl_codec (env_codec senv)"
    and "serialize (env_codec senv)
           (RouteChannelMsg (cg_tag gw) (cg_next_sequence gw) s (of_nat (length payload))) = Some prefix"
    and "length (prefix @ payload) < 2 ^ 64"
    and "find_gateway c (cg_tag gw) sw = Some sg" and "gateways sw sg = Some sgw" and "sg_event_handler sgw = Some h"
  shows "\<exists>parts.
    client_pipe (snd (cl_gateway_send cenv g s payload cw)) = snd (cl_pipe_send cenv parts (client_pipe cw)) \<and>
    handlePipeEvent senv (PipeMessage c (concat parts)) sw =
      Some (let (r, w1) = run_handler senv h (GMessage (cg_next_sequence gw) payload) (gateway_share sg sw)
            in (r, gateway_release senv sg w1))"
proof (intro exI conjI)
  show "client_pipe (snd (cl_gateway_send cenv g s payload cw)) =
        snd (cl_pipe_send cenv [prefix, payload] (client_pipe cw))"
    using assms(4,6) by (intro cl_gateway_send_pipe [OF assms(1-3)]) simp
  have "real_payload (prefix @ payload) (of_nat (length payload)) = Some payload"
    using assms(7) by (intro real_payload_suffix) simp_all
  moreover have "lock_registered c (cg_tag gw) sw = Some sg"
    using assms(8,9) by (simp add: lock_registered_def gateway_alive_def)
  ultimately show "handlePipeEvent senv (PipeMessage c (concat [prefix, payload])) sw =
      Some (let (r, w1) = run_handler senv h (GMessage (cg_next_sequence gw) payload) (gateway_share sg sw)
            in (r, gateway_release senv sg w1))"
    using find_connected [OF assms(8)] with_locked_event [OF assms(9,10)]
    by (simp add: handlePipeMessage_def dsdl_codecD [OF assms(5,6)] handleRouteChannelMsg_def
        route_real_payload_def)
qed

lemma cl_with_locked_event:
  assumes "cl_gateways w g = Some gw" and "cg_event_handler gw = Some h"
  shows "cl_with_locked env g (cl_gateway_event env g ev) w =
         (let (r, w1) = cl_run_handler env h ev (cl_share g w) in (r, cl_release env g w1))"
  using assms by (simp add: cl_with_locked_def cl_alive_def cl_gateway_event_def cl_share_def)

text \<open>
  C16. And back: what a server gateway puts on the pipe makes the client router deliver the same
  payload, with the sender's sequence number, to the gateway registered under that tag.
\<close>

theorem server_to_client_roundtrip:
  assumes "gateways sw sg = Some sgw" and "isConnected (sg_client_id sgw) sw"
    and "isRegisteredGateway (sg_client_id sgw) (sg_tag sgw) sw"
    and "cl_codec cenv = env_codec senv" and "dsdl_codec (env_codec senv)"
    and "serialize (env_codec senv)
           (RouteChannelMsg (sg_tag sgw) (sg_next_sequence sgw) s (of_nat (length payload))) = Some prefix"
    and "length (prefix @ payload) < 2 ^ 64"
    and "cl_find (sg_tag sgw) cw = Some g" and "cl_gateways cw g = Some gw" and "cg_event_handler gw = Some h"
  shows "\<exists>parts.
    server_pipe (snd (gateway_send senv sg s payload sw)) =
      snd (pipe_send senv (sg_client_id sgw) parts (server_pipe sw)) \<and>
    cl_handlePipeEvent cenv (ClPipeMessage (concat parts)) cw =
      Some (let (r, w1) = cl_run_handler cenv h (GMessage (sg_next_sequence sgw) payload) (cl_share g cw)
            in (r, cl_release cenv g w1))"
proof (intro exI conjI)
  show "server_pipe (snd (gateway_send senv sg s payload sw)) =
        snd (pipe_send senv (sg_client_id sgw) [prefix, payload] (server_pipe sw))"
    using assms(1-3,6) by (simp add: gateway_send_def send_route_pipe)
  have "real_payload (prefix @ payload) (of_nat (length payload)) = Some payload"
    using assms(7) by (intro real_payload_suffix) simp_all
  then show "cl_handlePipeEvent cenv (ClPipeMessage (concat [prefix, payload])) cw =
      Some (let (r, w1) = cl_run_handler cenv h (GMessage (sg_next_sequence sgw) payload) (cl_share g cw)
            in (r, cl_release cenv g w1))"
    using assms(8) cl_with_locked_event [OF assms(9,10)]
    by (simp add: cl_handlePipeMessage_def assms(4) dsdl_codecD [OF assms(5,6)] cl_handleRouteChannelMsg_def)
qed

subsection \<open>The end of a gateway\<close>

text \<open>
  When the last strong pointer to a client gateway goes, the server is told exactly once,
  with the code the channel left, if and only if the gateway is still registered, has sent
  something (so the server knows its tag) and the router is connected. The tag is free either way.
\<close>

theorem client_channel_end:
  assumes "cl_gateways w g = Some gw" and "cg_use_count gw = 1"
    and "serialize (cl_codec env) (RouteChannelEnd (cg_tag gw) (cg_completion_error_code gw)) = Some frame"
  shows "cl_gateways (cl_release env g w) = (cl_gateways w)(g := None) \<and>
         cl_find (cg_tag gw) (cl_release env g w) = None \<and>
         client_pipe (cl_release env g w) =
           (if cl_find (cg_tag gw) w \<noteq> None \<and> 0 < cg_next_sequence gw \<and> is_connected w
            then snd (cl_pipe_send env [frame] (client_pipe w)) else client_pipe w)"
  using assms by (auto simp: cl_release_def cl_onGatewayDisposal_pipe)

subsection \<open>Disconnecting\<close>

text \<open>The handler that a gateway has, if there is the gateway.\<close>

definition handler_at :: "('h, 'p, 'a) client_router \<Rightarrow> gateway_id \<Rightarrow> 'h option" where
  "handler_at w g = Option.bind (cl_gateways w g) cg_event_handler"

lemma handler_at_frame [simp]:
  "handler_at (w\<lparr>cl_app := a\<rparr>) = handler_at w"
  "handler_at (w\<lparr>is_connected := b, map_of_gateways := m\<rparr>) = handler_at w"
  by (simp_all add: handler_at_def fun_eq_iff)

lemma cl_share_release:
  assumes "cl_gateways w g = Some gw" and "0 < cg_use_count gw"
  shows "cl_release env g ((cl_share g w)\<lparr>cl_app := a\<rparr>) = w\<lparr>cl_app := a\<rparr>"
proof -
  have "cl_gateways ((cl_share g w)\<lparr>cl_app := a\<rparr>) g = Some (gw\<lparr>cg_use_count := cg_use_count gw + 1\<rparr>)"
    using assms by (simp add: cl_share_def)
  then have "cl_release env g ((cl_share g w)\<lparr>cl_app := a\<rparr>) =
      cl_update_gateway g (\<lambda>gw. gw\<lparr>cg_use_count := cg_use_count gw - 1\<rparr>) ((cl_share g w)\<lparr>cl_app := a\<rparr>)"
    using assms(2) by (simp add: cl_release_def)
  also have "\<dots> = w\<lparr>cl_app := a\<rparr>"
    using assms by (intro client_router.equality) (auto simp: cl_share_def)
  finally show ?thesis .
qed

text \<open>Handlers that, told of an event, only change what the application keeps.\<close>

definition app_handlers :: "('h, 'p, 'a) client_env \<Rightarrow> gateway_event \<Rightarrow> ('h \<Rightarrow> 'a \<Rightarrow> 'a) \<Rightarrow> bool" where
  "app_handlers env ev f \<longleftrightarrow> (\<forall>h w. snd (cl_run_handler env h ev w) = w\<lparr>cl_app := f h (cl_app w)\<rparr>)"

definition tell :: "('h \<Rightarrow> 'a \<Rightarrow> 'a) \<Rightarrow> 'h option \<Rightarrow> 'a \<Rightarrow> 'a" where
  "tell f handler a = (case handler of None \<Rightarrow> a | Some h \<Rightarrow> f h a)"

lemma with_locked_tells:
  assumes "app_handlers env ev f" and "cl_gateways w g = Some gw" and "0 < cg_use_count gw"
  shows "snd (cl_with_locked env g (cl_gateway_event env g ev) w) = w\<lparr>cl_app := tell f (handler_at w g) (cl_app w)\<rparr>"
proof -
  have "snd (cl_gateway_event env g ev (cl_share g w)) = (cl_share g w)\<lparr>cl_app := tell f (handler_at w g) (cl_app w)\<rparr>"
  proof (cases "cg_event_handler gw")
    case None
    with assms(2) show ?thesis by (simp add: cl_gateway_event_def handler_at_def cl_share_def tell_def cl_update_gateway_def)
  next
    case (Some h)
    with assms(1,2) show ?thesis by (simp add: cl_gateway_event_def handler_at_def cl_share_def tell_def app_handlers_def)
  qed
  moreover have "snd (cl_with_locked env g (cl_gateway_event env g ev) w) =
      cl_release env g (snd (cl_gateway_event env g ev (cl_share g w)))"
    using assms(2) by (simp add: cl_with_locked_def cl_alive_def split: prod.split)
  ultimately show ?thesis using cl_share_release [OF assms(2,3)] by metis
qed

lemma complete_all_tells:
  assumes "app_handlers env (GCompleted ErrorCode_Disconnected) f"
    and "\<forall>(t, g) \<in> set gws. \<exists>gw. cl_gateways w g = Some gw \<and> 0 < cg_use_count gw"
  shows "cl_complete_all env gws w = w\<lparr>cl_app := fold (\<lambda>(t, g). tell f (handler_at w g)) gws (cl_app w)\<rparr>"
  using assms(2)
proof (induction gws arbitrary: w)
  case (Cons x gws)
  obtain t g where x: "x = (t, g)" by fastforce
  from Cons.prems obtain gw where gw: "cl_gateways w g = Some gw" "0 < cg_use_count gw" by (auto simp: x)
  let ?w = "w\<lparr>cl_app := tell f (handler_at w g) (cl_app w)\<rparr>"
  have "cl_complete_all env gws ?w = ?w\<lparr>cl_app := fold (\<lambda>(t, g). tell f (handler_at ?w g)) gws (cl_app ?w)\<rparr>"
    using Cons.prems by (intro Cons.IH) (auto simp: x)
  with with_locked_tells [OF assms(1) gw] show ?case by (simp add: x)
qed simp

lemma registered_live:
  assumes "client_inv owners H w"
  shows "\<forall>(t, g) \<in> set (map_of_gateways w). \<exists>gw. cl_gateways w g = Some gw \<and> 0 < cg_use_count gw"
proof safe
  fix t g
  assume "(t, g) \<in> set (map_of_gateways w)"
  then have "cl_find t w = Some g" using client_invD(1) [OF assms] by (simp add: cl_find_def)
  with client_invD(2,4) [OF assms] show "\<exists>gw. cl_gateways w g = Some gw \<and> 0 < cg_use_count gw" by blast
qed

lemma registered_distinct:
  assumes "client_inv owners H w"
  shows "distinct (map snd (map_of_gateways w))"
proof -
  note inv = client_invD [OF assms]
  have tag: "cl_gateways w g = Some gw \<Longrightarrow> cg_tag gw = t" if "(t, g) \<in> set (map_of_gateways w)" for t g gw
    using that inv(1) inv(2) [of t g] by (simp add: cl_find_def)
  have live: "cl_gateways w g \<noteq> None" if "(t, g) \<in> set (map_of_gateways w)" for t g
    using that registered_live [OF assms] by fastforce
  have "inj_on snd (set (map_of_gateways w))"
  proof (rule inj_onI, clarsimp)
    fix t t' g
    assume "(t, g) \<in> set (map_of_gateways w)" "(t', g) \<in> set (map_of_gateways w)"
    with tag live show "t = t'" by blast
  qed
  then show ?thesis using inv(1) by (simp add: distinct_map)
qed

lemma disconnect_tells:
  assumes "app_handlers env (GCompleted ErrorCode_Disconnected) f" and "client_inv owners H w"
  shows "cl_handlePipeEvent env ClPipeDisconnected w = Some (0, if is_connected w
    then w\<lparr>is_connected := False, map_of_gateways := [],
           cl_app := fold (\<lambda>(t, g). tell f (handler_at w g)) (map_of_gateways w) (cl_app w)\<rparr>
    else w)"
proof -
  let ?w = "w\<lparr>is_connected := False, map_of_gateways := []\<rparr>"
  have "cl_complete_all env (map_of_gateways w) ?w =
      ?w\<lparr>cl_app := fold (\<lambda>(t, g). tell f (handler_at ?w g)) (map_of_gateways w) (cl_app ?w)\<rparr>"
    using registered_live [OF assms(2)] by (intro complete_all_tells [OF assms(1)]) simp
  then show ?thesis by (simp add: cl_handleDisconnected_def)
qed

subsection \<open>Connecting\<close>

text \<open>The locked pointers of \<open>forEachRegisteredGateway\<close>.\<close>

definition with_counts ::
    "(nat \<Rightarrow> nat \<Rightarrow> nat) \<Rightarrow> gateway_id list \<Rightarrow> ('h, 'p, 'a) client_router \<Rightarrow> ('h, 'p, 'a) client_router" where
  "with_counts f gs w =
     w\<lparr>cl_gateways := \<lambda>g. map_option (\<lambda>gw. gw\<lparr>cg_use_count := f (cg_use_count gw) (held_count gs g)\<rparr>) (cl_gateways w g)\<rparr>"

lemma lock_all_counts:
  assumes "\<forall>(t, g) \<in> set gws. cl_alive g w"
  shows "lock_all gws w = (map snd gws, with_counts (+) (map snd gws) w)"
  using assms
proof (induction gws arbitrary: w)
  case Nil
  show ?case by (simp add: with_counts_def option.map_ident)
next
  case (Cons x gws)
  obtain t g where x: "x = (t, g)" by fastforce
  have "\<forall>(t, g') \<in> set gws. cl_alive g' (cl_share g w)"
    using Cons.prems by (auto simp: cl_alive_def cl_share_def)
  then have "lock_all gws (cl_share g w) = (map snd gws, with_counts (+) (map snd gws) (cl_share g w))"
    by (rule Cons.IH)
  moreover have "with_counts (+) (map snd gws) (cl_share g w) = with_counts (+) (map snd (x # gws)) w"
    by (intro client_router.equality ext)
       (auto simp: with_counts_def cl_share_def x option.map_comp o_def add.commute intro!: option.map_cong)
  ultimately show ?case using Cons.prems by (simp add: x)
qed

text \<open>
  Telling gateways an event one after the other, when a handler may do anything in between: at its
  turn each of them is there, and what is told is the handler that it has then.
\<close>

inductive gateways_told ::
    "('h, 'p, 'a) client_env \<Rightarrow> gateway_event \<Rightarrow> gateway_id list \<Rightarrow>
     ('h, 'p, 'a) client_router \<Rightarrow> ('h, 'p, 'a) client_router \<Rightarrow> bool"
  for env :: "('h, 'p, 'a) client_env" and ev :: gateway_event where
  told_none: "gateways_told env ev [] w w"
| told_next: "cl_gateways w g = Some gw \<Longrightarrow>
    w1 = (case cg_event_handler gw of None \<Rightarrow> w | Some h \<Rightarrow> snd (cl_run_handler env h ev w)) \<Longrightarrow>
    gateways_told env ev gs w1 w' \<Longrightarrow> gateways_told env ev (g # gs) w w'"

inductive_simps gateways_told_simps:
  "gateways_told env ev [] w w'" "gateways_told env ev (g # gs) w w'"

lemma held_count_pos: "g \<in> set gs \<Longrightarrow> 0 < held_count gs g"
  by (induction gs) auto

context client_app
begin

lemma event_all_told:
  assumes "client_inv owners H w" and "\<forall>g \<in> set gs. 0 < H g"
  shows "gateways_told env ev gs w (event_all env ev gs w)"
  using assms
proof (induction gs arbitrary: w)
  case Nil
  then show ?case by (simp add: told_none)
next
  case (Cons g gs)
  then obtain gw where gw: "cl_gateways w g = Some gw" using cl_held_alive [of owners H w g] by (auto simp: cl_alive_def)
  have "gateways_told env ev gs (snd (cl_gateway_event env g ev w)) (event_all env ev gs (snd (cl_gateway_event env g ev w)))"
    using Cons.prems by (intro Cons.IH gateway_event_inv) simp_all
  then show ?case
    using gw by (auto intro!: told_next simp: cl_gateway_event_def split: option.split)
qed

lemma forEach_told:
  assumes "client_inv owners H w"
  shows "\<exists>w'. gateways_told env ev (map snd (map_of_gateways w)) (with_counts (+) (map snd (map_of_gateways w)) w) w' \<and>
    forEachRegisteredGateway env ev w = release_all env (map snd (map_of_gateways w)) w'"
proof -
  let ?gs = "map snd (map_of_gateways w)"
  have "\<forall>(t, g) \<in> set (map_of_gateways w). cl_alive g w"
    using registered_live [OF assms] by (fastforce simp: cl_alive_def)
  note lock = lock_all_counts [OF this]
  have "gateways_told env ev ?gs (with_counts (+) ?gs w) (event_all env ev ?gs (with_counts (+) ?gs w))"
    by (rule event_all_told [OF lock_all_inv [OF assms lock]]) (simp add: held_count_pos)
  then show ?thesis by (auto simp: forEachRegisteredGateway_def lock)
qed

end

text \<open>
  C33. The first answer to the connect request connects the router and tells every gateway that is
  registered then, each once and in turn, whatever the handlers do to the router meanwhile: send,
  open channels, subscribe, close channels of their own or of others. The router keeps each of these
  gateways alive until all of them were told, and lets them go then. A repeated answer changes
  nothing. (Handlers keep the contract \<open>client_app\<close>: the use counts stay those of the pointers that
  there are, of which \<open>owners\<close> counts the application's.)
\<close>

theorem client_handshake_tells_all:
  assumes "client_app env owners" and "client_inv owners H w"
    and "deserialize (cl_codec env) payload = Some (RouteConnect major minor e)"
  shows "if is_connected w then cl_handlePipeEvent env (ClPipeMessage payload) w = Some (0, w)
    else distinct (map snd (map_of_gateways w)) \<and>
      (\<exists>w'. gateways_told env GConnected (map snd (map_of_gateways w))
              (with_counts (+) (map snd (map_of_gateways w)) (w\<lparr>is_connected := True\<rparr>)) w' \<and>
            cl_handlePipeEvent env (ClPipeMessage payload) w = Some (0, release_all env (map snd (map_of_gateways w)) w'))"
proof -
  have "client_inv owners H (w\<lparr>is_connected := True\<rparr>)"
    by (rule client_inv_cong [OF assms(2)]) simp_all
  from client_app.forEach_told [OF assms(1) this, of GConnected] registered_distinct [OF assms(2)] assms(3) show ?thesis
    by (auto simp: cl_handlePipeMessage_def cl_handleRouteConnect_def)
qed

end
