(* ===== verification/Exec_Cmd_Life.thy ===== *)
theory Exec_Cmd_Life
  imports Exec_Cmd_Progress
begin

text \<open>
  The life of an 'Execute Command' session against its abstract specification: the responses of
  the nodes become the frames of the channel in the order the nodes answer, and the end of the
  channel comes exactly once, after them (\<open>session_completes\<close>); a request issues one Cyphal call
  per distinct node (\<open>issue_calls\<close>) or ends the channel with the error of the first call that fails.
\<close>

subsection \<open>The end of a session at rest\<close>

lemma Fsm_complete_rest:
  assumes f: "find_fsm i w = Some f" and gw: "gateways w (fsm_gateway f) = Some gw" "sg_use_count gw = 1"
  shows "Fsm_complete X i err w =
         onGatewayDisposal (exec_env0 X) (sg_client_id gw) (sg_tag gw) err (end_session X i f w)"
proof -
  let ?g = "fsm_gateway f"
  let ?w = "gateway_complete ?g err (drop_ops X (node_id_to_op f) (update_fsms (\<lambda>m. m(i := None)) w))"
  have "gateways ?w ?g = Some (gw\<lparr>sg_completion_error_code := err\<rparr>)"
    using gw by (simp add: gateway_complete_def drop_ops_def)
  then have "gateway_release (exec_env0 X) ?g ?w =
      onGatewayDisposal (exec_env0 X) (sg_client_id gw) (sg_tag gw) err (?w\<lparr>gateways := (gateways ?w)(?g := None)\<rparr>)"
    using gw(2) by (simp add: gateway_release_def)
  also have "?w\<lparr>gateways := (gateways ?w)(?g := None)\<rparr> = end_session X i f w"
    by (intro server_router.equality exec_cmd_service.equality)
       (simp_all add: gateway_complete_def drop_ops_def end_session_def)
  finally show ?thesis unfolding Fsm_complete_eq [OF f] .
qed

lemma Fsm_complete_effect:
  assumes f: "find_fsm i w = Some f" and gw: "gateways w (fsm_gateway f) = Some gw" "sg_use_count gw = 1"
    and reg: "find_gateway (sg_client_id gw) (sg_tag gw) w = Some (fsm_gateway f)"
    and frame: "serialize (xp_codec X) (RouteChannelEnd (sg_tag gw) err) = Some frame"
  shows "find_fsm j (Fsm_complete X i err w) = (if j = i then None else find_fsm j w)"
    and "find_gateway c t (Fsm_complete X i err w) =
         (if c = sg_client_id gw \<and> t = sg_tag gw then None else find_gateway c t w)"
    and "gateways (Fsm_complete X i err w) = (gateways w)(fsm_gateway f := None)"
    and "server_pipe (Fsm_complete X i err w) = snd (xp_pipe_send X (sg_client_id gw) [frame] (server_pipe w))"
  using reg frame
  by (simp_all add: Fsm_complete_rest [OF f gw] onGatewayDisposal_pipe find_gateway_disposed find_fsm_def)
     (simp_all add: find_fsm_def [symmetric])

subsection \<open>A node's answer\<close>

text \<open>The payload an answer becomes: none for a failure or a response that does not serialize.\<close>

definition answer_payloads ::
    "('c, 'r, 'p, 'cy) exec_params \<Rightarrow> u16 \<times> (cy_error + u8 \<times> bytes) \<Rightarrow> bytes list" where
  "answer_payloads X a =
     (case snd a of
        Inl e \<Rightarrow> []
      | Inr (status, output) \<Rightarrow>
          (case xp_ser_response X \<lparr>res_node_id = fst a, res_status = status, res_output = output\<rparr> of
             None \<Rightarrow> [] | Some p \<Rightarrow> [p]))"

lemma forward_response_maps [simp]:
  "client_id_to_map_of_gateways (forward_response X ch n r w) = client_id_to_map_of_gateways w"
  "app (forward_response X ch n r w) = app w"
  by (simp_all add: forward_response_def channel_send_def tryPerformOnSerialized_def
      split: sum.split prod.split option.split)

lemma forward_response_frame [simp]:
  "find_fsm j (forward_response X ch n r w) = find_fsm j w"
  "find_gateway c t (forward_response X ch n r w) = find_gateway c t w"
  by (simp_all only: find_fsm_def find_gateway_def forward_response_maps)

lemma forward_response_effect:
  assumes gw: "gateways w (ch_gateway ch) = Some gw" and con: "sgw_connected (ch_gateway ch) w"
    and reg: "sgw_registered (ch_gateway ch) w"
    and ser: "\<And>sq n. serialize (xp_codec X) (RouteChannelMsg (sg_tag gw) sq (ch_service_id ch) n) =
                Some (ser (RouteChannelMsg (sg_tag gw) sq (ch_service_id ch) n))"
  shows "server_pipe (forward_response X ch n r w) =
           pipe_sends (exec_env0 X) (sg_client_id gw)
             (channel_frames ser (sg_tag gw) (sg_next_sequence gw) (ch_service_id ch) (answer_payloads X (n, r)))
             (server_pipe w)"
    and "gateways (forward_response X ch n r w) = (gateways w)(ch_gateway ch \<mapsto>
           gw\<lparr>sg_next_sequence := sg_next_sequence gw + of_nat (length (answer_payloads X (n, r)))\<rparr>)"
proof -
  have same: "(gateways w)(ch_gateway ch \<mapsto> gw) = gateways w" using gw by (rule fun_upd_idem)
  have env: "serialize (env_codec (exec_env0 X)) (RouteChannelMsg (sg_tag gw) sq (ch_service_id ch) n) =
                Some (ser (RouteChannelMsg (sg_tag gw) sq (ch_service_id ch) n))" for sq n
    using ser by simp
  note step = gateway_send_step [OF gw con reg env]
  show "server_pipe (forward_response X ch n r w) =
           pipe_sends (exec_env0 X) (sg_client_id gw)
             (channel_frames ser (sg_tag gw) (sg_next_sequence gw) (ch_service_id ch) (answer_payloads X (n, r)))
             (server_pipe w)"
    using step
    by (simp add: forward_response_def answer_payloads_def channel_send_def tryPerformOnSerialized_def
        split: sum.split prod.split option.split)
  show "gateways (forward_response X ch n r w) = (gateways w)(ch_gateway ch \<mapsto>
           gw\<lparr>sg_next_sequence := sg_next_sequence gw + of_nat (length (answer_payloads X (n, r)))\<rparr>)"
    using gw con reg same
    by (simp add: forward_response_def answer_payloads_def channel_send_def tryPerformOnSerialized_def
        gateway_send_gateways split: sum.split prod.split option.split)
qed

lemma channel_frames_append:
  "channel_frames ser tag sq s (ps @ qs) =
   channel_frames ser tag sq s ps @ channel_frames ser tag (sq + of_nat (length ps)) s qs"
  by (induction ps arbitrary: sq) (simp_all add: add.assoc)

lemma pipe_sends_append: "pipe_sends env c (fs @ gs) p = pipe_sends env c gs (pipe_sends env c fs p)"
  by (induction fs arbitrary: p) simp_all

lemma erase_op_frame [simp]:
  "client_id_to_map_of_gateways (erase_op X i n w) = client_id_to_map_of_gateways w"
  "gateways (erase_op X i n w) = gateways w"
  "server_pipe (erase_op X i n w) = server_pipe w"
  "find_gateway c t (erase_op X i n w) = find_gateway c t w"
  by (simp_all add: erase_op_def drop_ops_def split: option.split)

lemma erase_op_find:
  "find_fsm i w = Some f \<Longrightarrow> find_fsm j (erase_op X i n w) =
   (if j = i then Some (f\<lparr>node_id_to_op := AList.delete n (node_id_to_op f)\<rparr>) else find_fsm j w)"
  by (simp add: erase_op_def find_fsm_def drop_ops_def)

lemma session_sgw:
  assumes "daemon_inv w" and "find_fsm i w = Some f" and "gateways w (fsm_gateway f) = Some gw"
  shows "sgw_connected (fsm_gateway f) w" and "sgw_registered (fsm_gateway f) w"
  using registered_gateway(1) [OF assms] assms(3)
  by (auto simp: sgw_connected_def sgw_registered_def isRegisteredGateway_def dest: find_connected)

lemma on_promise_more:
  fixes w :: "('c, 'r, 'p, 'cy) daemon"
  assumes "find_fsm i w = Some f" and "map_of (node_id_to_op f) n = Some op"
    and "AList.delete n (node_id_to_op f) \<noteq> []"
  shows "find_fsm j (on_promise X i n r w) =
           (if j = i then Some (f\<lparr>node_id_to_op := AList.delete n (node_id_to_op f)\<rparr>) else find_fsm j w) \<and>
         server_pipe (on_promise X i n r w) = server_pipe (forward_response X (fsm_channel f) n r w) \<and>
         gateways (on_promise X i n r w) = gateways (forward_response X (fsm_channel f) n r w) \<and>
         client_id_to_map_of_gateways (on_promise X i n r w) = client_id_to_map_of_gateways w"
proof -
  have "on_promise X i n r w = erase_op X i n (forward_response X (fsm_channel f) n r w)"
    using assms by (simp add: on_promise_def)
  then show ?thesis using assms(1) by (simp add: erase_op_find)
qed

lemma last_node_answers:
  assumes inv: "daemon_inv w" and f: "find_fsm i w = Some f" and gw: "gateways w (fsm_gateway f) = Some gw"
    and op: "map_of (node_id_to_op f) n = Some op" and last: "AList.delete n (node_id_to_op f) = []"
    and ser: "\<And>sq k. serialize (xp_codec X) (RouteChannelMsg (sg_tag gw) sq (ch_service_id (fsm_channel f)) k) =
                Some (ser (RouteChannelMsg (sg_tag gw) sq (ch_service_id (fsm_channel f)) k))"
    and frame: "serialize (xp_codec X) (RouteChannelEnd (sg_tag gw) 0) = Some frame"
  shows "find_fsm i (on_promise X i n r w) = None"
    and "find_gateway (sg_client_id gw) (sg_tag gw) (on_promise X i n r w) = None"
    and "server_pipe (on_promise X i n r w) =
         snd (xp_pipe_send X (sg_client_id gw) [frame] (server_pipe (forward_response X (fsm_channel f) n r w)))"
proof -
  let ?w1 = "erase_op X i n (forward_response X (fsm_channel f) n r w)"
  let ?f = "f\<lparr>node_id_to_op := []\<rparr>"
  note fwd = forward_response_effect(2) [OF gw session_sgw [OF inv f gw] ser, of n r]
  let ?gw = "gw\<lparr>sg_next_sequence := sg_next_sequence gw + of_nat (length (answer_payloads X (n, r)))\<rparr>"
  have "find_fsm i ?w1 = Some ?f" using f last by (simp add: erase_op_find)
  moreover have "gateways ?w1 (fsm_gateway ?f) = Some ?gw" by (simp add: fwd)
  moreover have "sg_use_count ?gw = 1" using session_use_count [OF inv f gw] by simp
  moreover have "find_gateway (sg_client_id ?gw) (sg_tag ?gw) ?w1 = Some (fsm_gateway ?f)"
    using registered_gateway(1) [OF inv f gw] by simp
  moreover have "serialize (xp_codec X) (RouteChannelEnd (sg_tag ?gw) 0) = Some frame" using frame by simp
  ultimately have eff: "find_fsm i (Fsm_complete X i 0 ?w1) = None"
    "find_gateway (sg_client_id gw) (sg_tag gw) (Fsm_complete X i 0 ?w1) = None"
    "server_pipe (Fsm_complete X i 0 ?w1) = snd (xp_pipe_send X (sg_client_id gw) [frame] (server_pipe ?w1))"
    using Fsm_complete_effect [of i ?w1 ?f ?gw X 0 frame] by simp_all
  have "on_promise X i n r w = Fsm_complete X i 0 ?w1"
    using f op last by (simp add: on_promise_def)
  with eff show "find_fsm i (on_promise X i n r w) = None"
    "find_gateway (sg_client_id gw) (sg_tag gw) (on_promise X i n r w) = None"
    "server_pipe (on_promise X i n r w) =
      snd (xp_pipe_send X (sg_client_id gw) [frame] (server_pipe (forward_response X (fsm_channel f) n r w)))"
    by simp_all
qed

text \<open>
  While other nodes of the request are still to answer, a node's answer is forwarded (a
  failure is not) and takes the node out of the session: nothing else of the daemon changes.
\<close>

theorem node_answers:
  fixes w :: "('c, 'r, 'p, 'cy) daemon"
  assumes "find_fsm i w = Some f" and "map_of (node_id_to_op f) n = Some op"
    and "AList.delete n (node_id_to_op f) \<noteq> []"
  shows "find_fsm j (on_promise X i n r w) =
           (if j = i then Some (f\<lparr>node_id_to_op := AList.delete n (node_id_to_op f)\<rparr>) else find_fsm j w) \<and>
         server_pipe (on_promise X i n r w) = server_pipe (forward_response X (fsm_channel f) n r w) \<and>
         gateways (on_promise X i n r w) = gateways (forward_response X (fsm_channel f) n r w) \<and>
         client_id_to_map_of_gateways (on_promise X i n r w) = client_id_to_map_of_gateways w"
  using assms by (rule on_promise_more)

subsection \<open>The whole life of a session\<close>

definition answers ::
    "('c, 'r, 'p, 'cy) exec_params \<Rightarrow> u64 \<Rightarrow> (u16 \<times> (cy_error + u8 \<times> bytes)) list \<Rightarrow>
     ('c, 'r, 'p, 'cy) daemon \<Rightarrow> ('c, 'r, 'p, 'cy) daemon" where
  "answers X i rs w = fold (\<lambda>(n, r). on_promise X i n r) rs w"

lemma session_completes_frames:
  assumes "daemon_inv w" and "find_fsm i w = Some f" and "gateways w (fsm_gateway f) = Some gw"
    and "rs \<noteq> []" and "distinct (map fst rs)" and "set (map fst rs) = fst ` set (node_id_to_op f)"
    and "\<And>sq k. serialize (xp_codec X) (RouteChannelMsg (sg_tag gw) sq (ch_service_id (fsm_channel f)) k) =
                Some (ser (RouteChannelMsg (sg_tag gw) sq (ch_service_id (fsm_channel f)) k))"
    and "serialize (xp_codec X) (RouteChannelEnd (sg_tag gw) 0) = Some frame"
  shows "find_fsm i (answers X i rs w) = None \<and>
         find_gateway (sg_client_id gw) (sg_tag gw) (answers X i rs w) = None \<and>
         server_pipe (answers X i rs w) =
           pipe_sends (exec_env0 X) (sg_client_id gw)
             (channel_frames ser (sg_tag gw) (sg_next_sequence gw) (ch_service_id (fsm_channel f))
                (concat (map (answer_payloads X) rs)) @ [[frame]])
             (server_pipe w)"
  using assms
proof (induction rs arbitrary: w f gw)
  case (Cons a rs)
  obtain n r where a: "a = (n, r)" by fastforce
  note inv = Cons.prems(1) and f = Cons.prems(2) and gw = Cons.prems(3) and ser = Cons.prems(7)
  have "n \<in> fst ` set (node_id_to_op f)" using Cons.prems(6) by (auto simp: a)
  then obtain op where op: "map_of (node_id_to_op f) n = Some op"
    by (metis map_of_eq_None_iff not_None_eq)
  have keys: "fst ` set (AList.delete n (node_id_to_op f)) = set (map fst rs)"
    using Cons.prems(5) by (auto simp: a keys_delete simp flip: Cons.prems(6))
  note fwd = forward_response_effect [OF gw session_sgw [OF inv f gw] ser, of n r]
  show ?case
  proof (cases "rs = []")
    case True
    with keys have last: "AList.delete n (node_id_to_op f) = []" by simp
    note eff = last_node_answers [OF inv f gw op last ser Cons.prems(8), of r]
    show ?thesis using eff fwd(1)
      by (simp add: answers_def a True pipe_sends_append)
  next
    case False
    with keys have more: "AList.delete n (node_id_to_op f) \<noteq> []" by auto
    let ?w = "on_promise X i n r w"
    let ?f = "f\<lparr>node_id_to_op := AList.delete n (node_id_to_op f)\<rparr>"
    let ?gw = "gw\<lparr>sg_next_sequence := sg_next_sequence gw + of_nat (length (answer_payloads X (n, r)))\<rparr>"
    note eff = on_promise_more [OF f op more, of _ X r]
    have inv': "daemon_inv ?w"
      by (rule daemon_step_daemon_inv [OF inv, of X "FromNode i n r"]) simp
    have f': "find_fsm i ?w = Some ?f" and gw': "gateways ?w (fsm_gateway ?f) = Some ?gw"
      using eff fwd(2) by simp_all
    have d: "distinct (map fst rs)" and k: "set (map fst rs) = fst ` set (node_id_to_op ?f)"
      using Cons.prems(5) keys by simp_all
    have ser': "serialize (xp_codec X) (RouteChannelMsg (sg_tag ?gw) sq (ch_service_id (fsm_channel ?f)) k) =
                Some (ser (RouteChannelMsg (sg_tag ?gw) sq (ch_service_id (fsm_channel ?f)) k))" for sq k
      using ser by simp
    have fr: "serialize (xp_codec X) (RouteChannelEnd (sg_tag ?gw) 0) = Some frame"
      using Cons.prems(8) by simp
    from Cons.IH [OF inv' f' gw' False d k ser' fr] eff fwd(1) show ?thesis
      by (simp add: answers_def a channel_frames_append pipe_sends_append)
  qed
qed simp

text \<open>
  C4. Whatever the order in which the nodes of a session answer, once each has answered the
  session is over: the client has got one frame per successful answer, in the order of the
  answers and numbered consecutively, and after them exactly one end of channel, with success.
\<close>

theorem session_completes:
  assumes "daemon_inv w" and "find_fsm i w = Some f" and "gateways w (fsm_gateway f) = Some gw"
    and "rs \<noteq> []" and "distinct (map fst rs)" and "set (map fst rs) = fst ` set (node_id_to_op f)"
    and "\<And>sq k. serialize (xp_codec X) (RouteChannelMsg (sg_tag gw) sq (ch_service_id (fsm_channel f)) k) =
                Some (ser (RouteChannelMsg (sg_tag gw) sq (ch_service_id (fsm_channel f)) k))"
    and "serialize (xp_codec X) (RouteChannelEnd (sg_tag gw) 0) = Some frame"
  shows "find_fsm i (answers X i rs w) = None \<and>
         find_gateway (sg_client_id gw) (sg_tag gw) (answers X i rs w) = None \<and>
         server_pipe (answers X i rs w) =
           pipe_sends (exec_env0 X) (sg_client_id gw)
             (channel_frames ser (sg_tag gw) (sg_next_sequence gw) (ch_service_id (fsm_channel f))
                (concat (map (answer_payloads X) rs)) @ [[frame]])
             (server_pipe w)"
  using assms by (rule session_completes_frames)

subsection \<open>A new request\<close>

text \<open>
  The abstract view of \<open>start\<close>: what the calls do to the library alone. It returns the first
  error (0 when every call was made), the operations pending by then, and the library's state.
\<close>

definition issue_call ::
    "('c, 'r, 'p, 'cy) exec_params \<Rightarrow> u64 \<Rightarrow> u16 \<times> bytes \<Rightarrow> u16 \<Rightarrow> 'cy \<Rightarrow>
     int \<times> (u16 \<times> 'c \<times> 'r) list \<times> 'cy" where
  "issue_call X deadline cy_req n cy =
     (case cy_makeClient X n cy of
        (Inl e, cy1) \<Rightarrow> (errorToCode e, [], cy1)
      | (Inr c, cy1) \<Rightarrow>
          (case cy_request X c deadline (fst cy_req) (snd cy_req) cy1 of
             (Inl e, cy2) \<Rightarrow> (errorToCode e, [], cy_dropClient X c cy2)
           | (Inr r, cy2) \<Rightarrow> (0, [(n, c, r)], cy2)))"

fun issue_calls ::
    "('c, 'r, 'p, 'cy) exec_params \<Rightarrow> u64 \<Rightarrow> u16 \<times> bytes \<Rightarrow> u16 list \<Rightarrow> 'cy \<Rightarrow>
     int \<times> (u16 \<times> 'c \<times> 'r) list \<times> 'cy" where
  "issue_calls X deadline cy_req [] cy = (0, [], cy)"
| "issue_calls X deadline cy_req (n # ns) cy =
     (let (err, op, cy1) = issue_call X deadline cy_req n cy
      in if err \<noteq> 0 then (err, op, cy1)
         else (let (err', ops, cy2) = issue_calls X deadline cy_req ns cy1 in (err', op @ ops, cy2)))"

lemma issue_call_keys:
  "issue_call X d q n cy = (err, op, cy') \<Longrightarrow> fst ` set op \<subseteq> {n} \<and> (op = [] \<or> (\<exists>c r. op = [(n, c, r)]))"
  by (auto simp: issue_call_def split: prod.splits sum.splits)

lemma issue_calls_keys: "issue_calls X d q ns cy = (err, ops, cy') \<Longrightarrow> fst ` set ops \<subseteq> set ns"
proof (induction ns arbitrary: cy err ops cy')
  case (Cons n ns)
  obtain e op cy1 where c: "issue_call X d q n cy = (e, op, cy1)" by (metis prod_cases3)
  obtain e' ops' cy2 where cs: "issue_calls X d q ns cy1 = (e', ops', cy2)" by (metis prod_cases3)
  have "ops = op \<or> ops = op @ ops'" using Cons.prems by (auto simp: c cs split: if_splits)
  then have "fst ` set ops \<subseteq> fst ` set op \<union> fst ` set ops'" by (elim disjE) (simp_all add: image_Un)
  also have "\<dots> \<subseteq> {n} \<union> set ns"
    using issue_call_keys [OF c] Cons.IH [OF cs] by (intro Un_mono) simp_all
  finally show ?case by simp
qed simp

text \<open>Without a platform error of code 0, success means one pending call per node, in order.\<close>

lemma issue_calls_success:
  assumes "\<And>n cy e. fst (cy_makeClient X n cy) = Inl e \<Longrightarrow> e \<noteq> PlatformError 0"
    and "\<And>c d m p cy e. fst (cy_request X c d m p cy) = Inl e \<Longrightarrow> e \<noteq> PlatformError 0"
    and "issue_calls X d q ns cy = (0, ops, cy')"
  shows "map fst ops = ns"
  using assms(3)
proof (induction ns arbitrary: cy ops cy')
  case (Cons n ns)
  obtain e op cy1 where c: "issue_call X d q n cy = (e, op, cy1)" by (metis prod_cases3)
  obtain e' ops' cy2 where cs: "issue_calls X d q ns cy1 = (e', ops', cy2)" by (metis prod_cases3)
  have "e = 0" "e' = 0" "ops = op @ ops'" using Cons.prems by (auto simp: c cs split: if_splits)
  moreover have "map fst op = [n]" if "e = 0"
    using c that assms(1) [of n cy] assms(2)
    by (auto simp: issue_call_def errorToCode_zero_iff split: prod.splits sum.splits) (metis fst_conv)+
  ultimately show ?case using Cons.IH cs by simp
qed simp

definition with_ops ::
    "u64 \<Rightarrow> ('c, 'r) fsm \<Rightarrow> (u16 \<times> 'c \<times> 'r) list \<Rightarrow> 'cy \<Rightarrow>
     ('c, 'r, 'p, 'cy) daemon \<Rightarrow> ('c, 'r, 'p, 'cy) daemon" where
  "with_ops i f ops cy w =
     update_fsms (\<lambda>m. m(i \<mapsto> f\<lparr>node_id_to_op := node_id_to_op f @ ops\<rparr>)) (update_cyphal (\<lambda>_. cy) w)"

lemma with_ops_simps [simp]:
  "client_id_to_map_of_gateways (with_ops i f ops cy w) = client_id_to_map_of_gateways w"
  "gateways (with_ops i f ops cy w) = gateways w" "server_pipe (with_ops i f ops cy w) = server_pipe w"
  "presentation (app (with_ops i f ops cy w)) = cy"
  "find_fsm j (with_ops i f ops cy w) =
     (if j = i then Some (f\<lparr>node_id_to_op := node_id_to_op f @ ops\<rparr>) else find_fsm j w)"
  "find_gateway c t (with_ops i f ops cy w) = find_gateway c t w"
  by (simp_all add: with_ops_def find_fsm_def)

lemma makeCyphalSvcCallFor_issue:
  assumes f: "find_fsm i w = Some f" and new: "n \<notin> fst ` set (node_id_to_op f)"
    and c: "issue_call X d q n (presentation (app w)) = (err, op, cy)"
  shows "makeCyphalSvcCallFor X i d n q w = (err, with_ops i f op cy w)"
proof -
  have same: "(id_to_fsm (app w))(i \<mapsto> f) = id_to_fsm (app w)"
    using f by (simp add: find_fsm_def fun_upd_idem)
  have none: "update_cyphal (\<lambda>_. cy') w = with_ops i f [] cy' w" for cy'
    by (intro server_router.equality exec_cmd_service.equality) (simp_all add: with_ops_def same)
  have one: "emplace_op X i n (a, b) (update_cyphal (\<lambda>_. cy') w) = with_ops i f [(n, a, b)] cy' w" for a b cy'
    using new by (simp add: emplace_op_def f with_ops_def map_of_eq_None_iff)
  note one' = one [unfolded none]
  show ?thesis using c
    by (auto simp: makeCyphalSvcCallFor_def issue_call_def none one' split: prod.splits sum.splits)
qed

lemma with_ops_with_ops:
  "with_ops i (f\<lparr>node_id_to_op := node_id_to_op f @ ops\<rparr>) ops' cy' (with_ops i f ops cy w) = with_ops i f (ops @ ops') cy' w"
  by (intro server_router.equality exec_cmd_service.equality) (simp_all add: with_ops_def)

lemma call_nodes_issue:
  assumes "find_fsm i w = Some f" and "distinct ns" and "set ns \<inter> fst ` set (node_id_to_op f) = {}"
    and "issue_calls X d q ns (presentation (app w)) = (err, ops, cy)"
  shows "call_nodes X i d q ns w =
         (if err \<noteq> 0 then Fsm_complete X i err (with_ops i f ops cy w) else with_ops i f ops cy w)"
  using assms
proof (induction ns arbitrary: w f ops)
  case Nil
  then have "with_ops i f [] (presentation (app w)) w = w"
    by (intro server_router.equality exec_cmd_service.equality)
       (simp_all add: with_ops_def find_fsm_def fun_upd_idem)
  with Nil show ?case by simp
next
  case (Cons n ns)
  obtain e op cy1 where c: "issue_call X d q n (presentation (app w)) = (e, op, cy1)" by (metis prod_cases3)
  obtain e' ops' cy2 where cs: "issue_calls X d q ns cy1 = (e', ops', cy2)" by (metis prod_cases3)
  have m: "makeCyphalSvcCallFor X i d n q w = (e, with_ops i f op cy1 w)"
    using Cons.prems by (intro makeCyphalSvcCallFor_issue [OF Cons.prems(1) _ c]) simp
  show ?case
  proof (cases "e = 0")
    case True
    let ?f = "f\<lparr>node_id_to_op := node_id_to_op f @ op\<rparr>"
    have "find_fsm i (with_ops i f op cy1 w) = Some ?f" by simp
    moreover have "set ns \<inter> fst ` set (node_id_to_op ?f) = {}"
      using Cons.prems(2,3) issue_call_keys [OF c] by auto
    moreover have "issue_calls X d q ns (presentation (app (with_ops i f op cy1 w))) = (e', ops', cy2)"
      using cs by simp
    ultimately have "call_nodes X i d q ns (with_ops i f op cy1 w) =
        (if e' \<noteq> 0 then Fsm_complete X i e' (with_ops i ?f ops' cy2 (with_ops i f op cy1 w))
         else with_ops i ?f ops' cy2 (with_ops i f op cy1 w))"
      using Cons.prems(2) Cons.IH [of "with_ops i f op cy1 w" ?f ops'] Cons.prems(4) by (auto simp: c cs True)
    with True Cons.prems(4) show ?thesis by (simp add: m c cs with_ops_with_ops)
  qed (use Cons.prems(4) in \<open>simp add: m c\<close>)
qed

text \<open>
  A message that opens a session: the first of its sequence, for a registered service, from a
  connected client that does not use the tag, with a request inside; the next machine id is free.
\<close>

definition new_request ::
    "('c, 'r, 'p, 'cy) exec_params \<Rightarrow> client_id \<Rightarrow> bytes \<Rightarrow> u64 \<Rightarrow> u64 \<Rightarrow> exec_request \<Rightarrow>
     ('c, 'r, 'p, 'cy) daemon \<Rightarrow> bool" where
  "new_request X c msg tag s request w \<longleftrightarrow>
     isConnected c w \<and> find_gateway c tag w = None \<and> find_fsm (next_fsm_id (app w)) w = None \<and>
     (case deserialize (xp_codec X) msg of
        Some (RouteChannelMsg tag' sequence service_id n) \<Rightarrow>
          tag' = tag \<and> sequence = 0 \<and> service_id_to_channel_factory w service_id = Some s \<and>
          Option.bind (real_payload msg n) (xp_des_request X) = Some request
      | _ \<Rightarrow> False)"

definition new_fsm :: "u64 \<Rightarrow> (u16 \<times> 'c \<times> 'r) list \<Rightarrow> gateway_id \<Rightarrow> ('c, 'r) fsm" where
  "new_fsm s ops g = \<lparr>fsm_channel = \<lparr>ch_gateway = g, ch_service_id = s\<rparr>, node_id_to_op = ops\<rparr>"

lemma new_fsm_simps [simp]:
  "fsm_channel (new_fsm s ops g) = \<lparr>ch_gateway = g, ch_service_id = s\<rparr>"
  "node_id_to_op (new_fsm s ops g) = ops"
  "(new_fsm s ops g)\<lparr>node_id_to_op := ops'\<rparr> = new_fsm s ops' g"
  by (simp_all add: new_fsm_def)

lemma new_request_step:
  assumes "new_request X c msg tag s request w"
  obtains payload where "xp_des_request X payload = Some request"
    and "daemon_step X (FromPipe (PipeMessage c msg)) w = Some (open_channel (exec_env X) c tag s payload w)"
  using assms
  by (auto simp: new_request_def handlePipeMessage_def handleRouteChannelMsg_def route_real_payload_def
      lock_registered_def bind_eq_Some_conv split: option.splits route.splits)

text \<open>The state in which \<open>start\<close> runs, for a free machine id.\<close>

definition started :: "client_id \<Rightarrow> u64 \<Rightarrow> u64 \<Rightarrow> ('c, 'r, 'p, 'cy) daemon \<Rightarrow> ('c, 'r, 'p, 'cy) daemon" where
  "started c tag s w =
     (let i = next_fsm_id (app w); g = next_gateway w
      in update_fsms (\<lambda>m. m(i \<mapsto> new_fsm s [] g)) (subscribed g i (opened c tag w)))"

lemma started_simps:
  "server_pipe (started c tag s w) = server_pipe w"
  "presentation (app (started c tag s w)) = presentation (app w)"
  "find_fsm j (started c tag s w) =
     (if j = next_fsm_id (app w) then Some (new_fsm s [] (next_gateway w)) else find_fsm j w)"
  "gateways (started c tag s w) = (gateways w)(next_gateway w \<mapsto>
     \<lparr>sg_tag = tag, sg_client_id = c, sg_next_sequence = 0, sg_event_handler = Some (next_fsm_id (app w)),
      sg_completion_error_code = 0, sg_use_count = 2\<rparr>)"
  "isConnected c w \<Longrightarrow> find_gateway c' t (started c tag s w) =
     (if c' = c \<and> t = tag then Some (next_gateway w) else find_gateway c' t w)"
  by (simp_all add: started_def Let_def find_fsm_def opened_find numeral_2_eq_2)

lemma open_channel_start:
  assumes "xp_des_request X payload = Some request" and "isConnected c w"
    and "find_fsm (next_fsm_id (app w)) w = None"
  shows "open_channel (exec_env X) c tag s payload w =
         gateway_release (exec_env0 X) (next_gateway w)
           (Fsm_start X (next_fsm_id (app w)) request (started c tag s w))"
proof -
  have "exec_factory X s (next_gateway w) payload (opened c tag w) =
      Fsm_start X (next_fsm_id (app w)) request (started c tag s w)"
    by (subst exec_factory_eq [OF opened_gateway _ _ assms(1)])
       (simp_all add: opened_find [OF assms(2)] Let_def started_def insert_fsm_def releaseFsmBy_def
         assms(3) new_fsm_def)
  then show ?thesis by (simp add: open_channel_eq)
qed

lemma Fsm_start_issue:
  assumes "node_ids request \<noteq> []" and "set_order_ok (xp_set_order X)"
    and "issue_calls X (cy_now X (presentation (app w)) + timeout_us request)
           (req_command request, req_parameter request) (xp_set_order X (node_ids request))
           (presentation (app w)) = (err, ops, cy)"
  shows "Fsm_start X (next_fsm_id (app w)) request (started c tag s w) =
    (let w1 = with_ops (next_fsm_id (app w)) (new_fsm s [] (next_gateway w)) ops cy (started c tag s w)
     in if err \<noteq> 0 then Fsm_complete X (next_fsm_id (app w)) err w1 else w1)"
proof -
  let ?i = "next_fsm_id (app w)"
  have "find_fsm ?i (started c tag s w) = Some (new_fsm s [] (next_gateway w))" by (simp add: started_simps)
  moreover have "distinct (xp_set_order X (node_ids request))" using assms(2) by (simp add: set_order_ok_def)
  ultimately show ?thesis
    using assms(1,3) by (simp add: Fsm_start_def call_nodes_issue started_simps(2))
qed

text \<open>
  C22. A request for which every Cyphal call can be made opens exactly one session: it waits for
  each distinct node of the request once, in one pending operation, and nothing is sent to the
  client yet; no other session changes.
\<close>

theorem request_opens_session:
  assumes "new_request X c msg tag s request w" and "node_ids request \<noteq> []"
    and "set_order_ok (xp_set_order X)"
    and "issue_calls X (cy_now X (presentation (app w)) + timeout_us request)
           (req_command request, req_parameter request) (xp_set_order X (node_ids request))
           (presentation (app w)) = (0, ops, cy)"
    and "daemon_step X (FromPipe (PipeMessage c msg)) w = Some w'"
  shows "find_fsm j w' = (if j = next_fsm_id (app w) then Some (new_fsm s ops (next_gateway w)) else find_fsm j w) \<and>
         find_gateway c' t w' = (if c' = c \<and> t = tag then Some (next_gateway w) else find_gateway c' t w) \<and>
         presentation (app w') = cy \<and> server_pipe w' = server_pipe w"
proof -
  let ?i = "next_fsm_id (app w)" and ?g = "next_gateway w"
  obtain payload where p: "xp_des_request X payload = Some request" "w' = open_channel (exec_env X) c tag s payload w"
    using new_request_step [OF assms(1)] assms(5) by (metis option.inject)
  have con: "isConnected c w" and free: "find_fsm ?i w = None" using assms(1) by (simp_all add: new_request_def)
  let ?w1 = "with_ops ?i (new_fsm s [] ?g) ops cy (started c tag s w)"
  have "w' = gateway_release (exec_env0 X) ?g ?w1"
    by (simp add: p(2) open_channel_start [OF p(1) con free] Fsm_start_issue [OF assms(2-4)])
  also have "\<dots> = update_gateway ?g (\<lambda>gw. gw\<lparr>sg_use_count := sg_use_count gw - 1\<rparr>) ?w1"
    by (simp add: gateway_release_def started_simps(4))
  finally show ?thesis using con by (simp add: started_simps)
qed

text \<open>
  C23. When a Cyphal call of a request fails, the client is told the error in the one end of
  channel it gets, no session remains, and the calls already made to earlier nodes are cancelled
  on this side, although those nodes may have got the command.
\<close>

theorem request_fails_midway:
  assumes "new_request X c msg tag s request w" and "node_ids request \<noteq> []"
    and "set_order_ok (xp_set_order X)" and "err \<noteq> 0"
    and "issue_calls X (cy_now X (presentation (app w)) + timeout_us request)
           (req_command request, req_parameter request) (xp_set_order X (node_ids request))
           (presentation (app w)) = (err, ops, cy)"
    and "serialize (xp_codec X) (RouteChannelEnd tag err) = Some frame"
    and "daemon_step X (FromPipe (PipeMessage c msg)) w = Some w'"
  shows "find_fsm j w' = find_fsm j w \<and> find_gateway c' t w' = find_gateway c' t w \<and>
         presentation (app w') = fold (drop_op X) (map snd ops) cy \<and>
         server_pipe w' = snd (xp_pipe_send X c [frame] (server_pipe w))"
proof -
  let ?i = "next_fsm_id (app w)" and ?g = "next_gateway w"
  obtain payload where p: "xp_des_request X payload = Some request" "w' = open_channel (exec_env X) c tag s payload w"
    using new_request_step [OF assms(1)] assms(7) by (metis option.inject)
  have con: "isConnected c w" and free: "find_fsm ?i w = None" and tag: "find_gateway c tag w = None"
    using assms(1) by (simp_all add: new_request_def)
  let ?w1 = "with_ops ?i (new_fsm s [] ?g) ops cy (started c tag s w)"
  let ?w2 = "gateway_complete ?g err (drop_ops X ops (update_fsms (\<lambda>m. m(?i := None)) ?w1))"
  let ?w3 = "update_gateway ?g (\<lambda>gw. gw\<lparr>sg_use_count := sg_use_count gw - 1\<rparr>) ?w2"
  have f: "find_fsm ?i ?w1 = Some (new_fsm s ops ?g)" by simp
  have "Fsm_complete X ?i err ?w1 = gateway_release (exec_env0 X) ?g ?w2"
    by (simp add: Fsm_complete_eq [OF f])
  also have "\<dots> = ?w3"
    by (simp add: gateway_release_def gateway_complete_def drop_ops_def started_simps(4))
  finally have "w' = gateway_release (exec_env0 X) ?g ?w3"
    using assms(4) by (simp add: p(2) open_channel_start [OF p(1) con free] Fsm_start_issue [OF assms(2,3,5)])
  also have "\<dots> = onGatewayDisposal (exec_env0 X) c tag err (?w3\<lparr>gateways := (gateways ?w3)(?g := None)\<rparr>)"
    by (simp add: gateway_release_def gateway_complete_def drop_ops_def started_simps(4))
  finally have w': "w' = \<dots>" .
  have reg: "find_gateway c t (?w3\<lparr>gateways := x\<rparr>) = (if c = c \<and> t = tag then Some ?g else find_gateway c t w)" for t x
    by (simp add: gateway_complete_def drop_ops_def started_simps(5) [OF con])
  have "find_fsm j w' = find_fsm j w"
    using free by (simp add: w' find_fsm_def gateway_complete_def drop_ops_def with_ops_def started_def subscribed_def
        Let_def gateway_share_def)
  moreover have "find_gateway c' t w' = find_gateway c' t w"
    using tag by (auto simp: w' find_gateway_disposed gateway_complete_def drop_ops_def started_simps(5) [OF con])
  moreover have "presentation (app w') = fold (drop_op X) (map snd ops) cy"
    by (simp add: w' gateway_complete_def drop_ops_def)
  moreover have "server_pipe w' = snd (xp_pipe_send X c [frame] (server_pipe w))"
    using assms(6) reg [of tag] by (simp add: w' onGatewayDisposal_pipe [where frame = frame])
      (simp add: gateway_complete_def drop_ops_def started_simps(1))
  ultimately show ?thesis by blast
qed

end
