(* ===== verification/Exec_Cmd_Client.thy ===== *)
theory Exec_Cmd_Client
  imports Client_Gateway Exec_Cmd_Life
begin

text \<open>
  The SDK's side of a command: the service client (src/sdk/svc/node/exec_cmd_client.cpp), the
  command client over it (src/sdk/node_command_client.cpp) and the receiver a synchronous wait
  uses (include/ocvsmd/sdk/execution.hpp). A receiver is an identity; what it is given is
  recorded in the log \<open>results\<close>. The pipe and the generated serializers are arguments.
\<close>

subsection \<open>Data\<close>

record node_response =
  nr_status :: u8
  nr_output :: bytes

datatype command_result = Success "(u16 \<times> node_response) list" | Failure int

type_synonym receiver = nat

record exec_client =
  ec_request :: exec_request
  ec_channel :: channel
  ec_receiver :: "receiver option"
  node_id_to_response :: "(u16 \<times> node_response) list"

record sdk_app =
  exec_clients :: "nat \<rightharpoonup> exec_client"
  next_exec_client :: nat
  results :: "(receiver \<times> command_result) list"

type_synonym 'p sdk = "(nat, 'p, sdk_app) client_router"

record 'p sdk_params =
  sp_pipe_send :: "bytes list \<Rightarrow> 'p \<Rightarrow> int \<times> 'p"
  sp_codec :: codec
  sp_ser_request :: "exec_request \<Rightarrow> bytes option"
  sp_des_response :: "bytes \<Rightarrow> exec_response option"

definition sdk_update :: "(sdk_app \<Rightarrow> sdk_app) \<Rightarrow> 'p sdk \<Rightarrow> 'p sdk" where
  "sdk_update f w = w\<lparr>cl_app := f (cl_app w)\<rparr>"

definition find_client :: "nat \<Rightarrow> 'p sdk \<Rightarrow> exec_client option" where
  "find_client i w = exec_clients (cl_app w) i"

text \<open>\<open>emplace\<close> keeps the entry that is already there.\<close>

definition emplace :: "'k \<Rightarrow> 'v \<Rightarrow> ('k \<times> 'v) list \<Rightarrow> ('k \<times> 'v) list" where
  "emplace k v m = (if map_of m k = None then m @ [(k, v)] else m)"

subsection \<open>The service client\<close>

definition call_receiver :: "exec_client \<Rightarrow> command_result \<Rightarrow> 'p sdk \<Rightarrow> 'p sdk" where
  "call_receiver c result =
     (case ec_receiver c of
        None \<Rightarrow> (\<lambda>w. w)
      | Some r \<Rightarrow> sdk_update (\<lambda>a. a\<lparr>results := results a @ [(r, result)]\<rparr>))"

definition sdk_env0 :: "'p sdk_params \<Rightarrow> (nat, 'p, sdk_app) client_env" where
  "sdk_env0 X = \<lparr>cl_pipe_send = sp_pipe_send X, cl_codec = sp_codec X, cl_run_handler = (\<lambda>_ _ w. (0, w))\<rparr>"

definition response_of :: "exec_response \<Rightarrow> node_response" where
  "response_of input = \<lparr>nr_status = res_status input, nr_output = res_output input\<rparr>"

definition ExecCmdClient_handleEvent ::
    "'p sdk_params \<Rightarrow> nat \<Rightarrow> exec_response channel_event \<Rightarrow> 'p sdk \<Rightarrow> 'p sdk" where
  "ExecCmdClient_handleEvent X i ev w =
     (case find_client i w of
        None \<Rightarrow> w
      | Some c \<Rightarrow>
          (case ev of
             ChConnected \<Rightarrow>
               (let (err, w1) = channel_send (cl_gateway_send (sdk_env0 X)) (sp_ser_request X) (ec_channel c) (ec_request c) w
                in if err \<noteq> 0 then call_receiver c (Failure err) w1 else w1)
           | ChInput input \<Rightarrow>
               sdk_update (\<lambda>a. a\<lparr>exec_clients := (exec_clients a)(i \<mapsto>
                 c\<lparr>node_id_to_response := emplace (res_node_id input) (response_of input) (node_id_to_response c)\<rparr>)\<rparr>) w
           | ChCompleted error_code \<Rightarrow>
               (if error_code \<noteq> ErrorCode_Success then call_receiver c (Failure error_code) w
                else call_receiver c (Success (node_id_to_response c)) w)))"

definition sdk_handler :: "'p sdk_params \<Rightarrow> nat \<Rightarrow> gateway_event \<Rightarrow> 'p sdk \<Rightarrow> int \<times> 'p sdk" where
  "sdk_handler X i = channel_adapter (sp_des_response X) (ExecCmdClient_handleEvent X i)"

definition sdk_env :: "'p sdk_params \<Rightarrow> (nat, 'p, sdk_app) client_env" where
  "sdk_env X = (sdk_env0 X)\<lparr>cl_run_handler := sdk_handler X\<rparr>"

definition ExecCmdClient_make :: "(string \<Rightarrow> u64) \<Rightarrow> string \<Rightarrow> exec_request \<Rightarrow> 'p sdk \<Rightarrow> nat \<times> 'p sdk" where
  "ExecCmdClient_make crc64 full_name_and_version request w =
     (let (ch, w1) = makeChannel crc64 full_name_and_version svc_full_name w; i = next_exec_client (cl_app w1)
      in (i, sdk_update (\<lambda>a. a\<lparr>next_exec_client := i + 1, exec_clients := (exec_clients a)(i \<mapsto>
               \<lparr>ec_request = request, ec_channel = ch, ec_receiver = None, node_id_to_response = []\<rparr>)\<rparr>) w1))"

definition ExecCmdClient_submit :: "'p sdk_params \<Rightarrow> nat \<Rightarrow> receiver \<Rightarrow> 'p sdk \<Rightarrow> 'p sdk" where
  "ExecCmdClient_submit X i receiver w =
     (case find_client i w of
        None \<Rightarrow> w
      | Some c \<Rightarrow>
          channel_subscribe (cl_gateway_subscribe (sdk_env X)) (ec_channel c) (Some i)
            (sdk_update (\<lambda>a. a\<lparr>exec_clients := (exec_clients a)(i \<mapsto> c\<lparr>ec_receiver := Some receiver\<rparr>)\<rparr>) w))"

text \<open>The last owner of the client lets it go, and with it the channel.\<close>

definition ExecCmdClient_destroy :: "'p sdk_params \<Rightarrow> nat \<Rightarrow> 'p sdk \<Rightarrow> 'p sdk" where
  "ExecCmdClient_destroy X i w =
     (case find_client i w of
        None \<Rightarrow> w
      | Some c \<Rightarrow> cl_release (sdk_env X) (ch_gateway (ec_channel c))
                    (sdk_update (\<lambda>a. a\<lparr>exec_clients := (exec_clients a)(i := None)\<rparr>) w))"

subsection \<open>The command client\<close>

definition COMMAND_RESTART :: u16 where "COMMAND_RESTART = 65535"
definition COMMAND_BEGIN_SOFTWARE_UPDATE :: u16 where "COMMAND_BEGIN_SOFTWARE_UPDATE = 65533"

text \<open>
  \<open>std::max<std::uint64_t>(0, timeout.count())\<close>: the signed count is converted to 64 unsigned
  bits before it is compared.
\<close>

definition command_request :: "u16 list \<Rightarrow> u16 \<Rightarrow> bytes \<Rightarrow> int \<Rightarrow> exec_request" where
  "command_request nodes command parameter timeout =
     \<lparr>timeout_us = max 0 (of_int timeout), node_ids = nodes, req_command = command, req_parameter = parameter\<rparr>"

definition sendCommand ::
    "(string \<Rightarrow> u64) \<Rightarrow> string \<Rightarrow> u16 list \<Rightarrow> u16 \<Rightarrow> bytes \<Rightarrow> int \<Rightarrow> 'p sdk \<Rightarrow> nat \<times> 'p sdk" where
  "sendCommand crc64 name nodes command parameter timeout =
     ExecCmdClient_make crc64 name (command_request nodes command parameter timeout)"

definition restart :: "(string \<Rightarrow> u64) \<Rightarrow> string \<Rightarrow> u16 list \<Rightarrow> int \<Rightarrow> 'p sdk \<Rightarrow> nat \<times> 'p sdk" where
  "restart crc64 name nodes timeout = sendCommand crc64 name nodes COMMAND_RESTART [] timeout"

definition beginSoftwareUpdate ::
    "(string \<Rightarrow> u64) \<Rightarrow> string \<Rightarrow> u16 list \<Rightarrow> bytes \<Rightarrow> int \<Rightarrow> 'p sdk \<Rightarrow> nat \<times> 'p sdk" where
  "beginSoftwareUpdate crc64 name nodes file_path timeout =
     sendCommand crc64 name nodes COMMAND_BEGIN_SOFTWARE_UPDATE file_path timeout"

text \<open>\<open>CommandSender::transform\<close>: a success is copied pair by pair, a failure is kept.\<close>

fun transform :: "command_result \<Rightarrow> command_result" where
  "transform (Success m) = Success (fold (\<lambda>(n, r). emplace n r) m [])"
| "transform (Failure e) = Failure e"

text \<open>\<open>ReceiverOf\<close> emplaces into its \<open>StateOf\<close>: a later result replaces an earlier one.\<close>

fun StateOf_result :: "receiver \<Rightarrow> (receiver \<times> command_result) list \<Rightarrow> command_result option" where
  "StateOf_result r [] = None"
| "StateOf_result r ((r', res) # log) =
     (case StateOf_result r log of
        None \<Rightarrow> (if r' = r then Some (transform res) else None)
      | Some res' \<Rightarrow> Some res')"

definition StateOf_completed :: "receiver \<Rightarrow> 'p sdk \<Rightarrow> bool" where
  "StateOf_completed r w \<longleftrightarrow> StateOf_result r (results (cl_app w)) \<noteq> None"

subsection \<open>Facts\<close>

lemma sdk_env_simps [simp]:
  "cl_pipe_send (sdk_env0 X) = sp_pipe_send X" "cl_codec (sdk_env0 X) = sp_codec X"
  "cl_pipe_send (sdk_env X) = sp_pipe_send X" "cl_codec (sdk_env X) = sp_codec X"
  "cl_run_handler (sdk_env X) = sdk_handler X"
  by (simp_all add: sdk_env0_def sdk_env_def)

lemma sdk_update_frame [simp]:
  "next_tag (sdk_update f w) = next_tag w" "is_connected (sdk_update f w) = is_connected w"
  "map_of_gateways (sdk_update f w) = map_of_gateways w" "cl_gateways (sdk_update f w) = cl_gateways w"
  "cl_next_gateway (sdk_update f w) = cl_next_gateway w" "client_pipe (sdk_update f w) = client_pipe w"
  "cl_app (sdk_update f w) = f (cl_app w)" "cl_find t (sdk_update f w) = cl_find t w"
  by (simp_all add: sdk_update_def cl_find_def)

lemma sdk_update_inv: "client_inv (\<lambda>_ _. 0) H w \<Longrightarrow> client_inv (\<lambda>_ _. 0) H (sdk_update f w)"
  by (erule client_inv_cong) simp_all

lemma call_receiver_inv: "client_inv (\<lambda>_ _. 0) H w \<Longrightarrow> client_inv (\<lambda>_ _. 0) H (call_receiver c r w)"
  by (simp add: call_receiver_def sdk_update_inv split: option.split)

lemma sdk_handler_inv:
  "client_inv (\<lambda>_ _. 0) H w \<Longrightarrow> client_inv (\<lambda>_ _. 0) H (snd (sdk_handler X i ev w))"
proof -
  assume inv: "client_inv (\<lambda>_ _. 0) H w"
  have "client_inv (\<lambda>_ _. 0) H (snd (channel_send (cl_gateway_send (sdk_env0 X)) ser ch req w))" for ser ch and req :: exec_request
    by (simp add: channel_send_def tryPerformOnSerialized_def inv cl_gateway_send_inv split: option.split)
  then have "client_inv (\<lambda>_ _. 0) H (ExecCmdClient_handleEvent X i e w)" for e
    using inv by (auto simp: ExecCmdClient_handleEvent_def call_receiver_inv sdk_update_inv
        split: option.split channel_event.split prod.split) (metis call_receiver_inv snd_conv)+
  then show ?thesis using inv by (cases ev) (simp_all add: sdk_handler_def split: option.split)
qed

text \<open>Handlers take and release no pointer: those of the clients are held outside the router.\<close>

interpretation sdk: client_app "sdk_env X" "\<lambda>_ _. 0" for X
  by unfold_locales (simp add: sdk_handler_inv)

subsection \<open>A broken pipe\<close>

text \<open>The receivers of the commands behind a gateway: that of its client, once it was submitted.\<close>

definition receivers_at :: "'p sdk \<Rightarrow> gateway_id \<Rightarrow> receiver list" where
  "receivers_at w g =
     (case Option.bind (handler_at w g) (\<lambda>i. Option.bind (find_client i w) ec_receiver) of None \<Rightarrow> [] | Some r \<Rightarrow> [r])"

definition fail_client :: "nat \<Rightarrow> sdk_app \<Rightarrow> sdk_app" where
  "fail_client i a = (case Option.bind (exec_clients a i) ec_receiver of None \<Rightarrow> a
     | Some r \<Rightarrow> a\<lparr>results := results a @ [(r, Failure ErrorCode_Disconnected)]\<rparr>)"

lemma sdk_handlers_disconnected: "app_handlers (sdk_env X) (GCompleted ErrorCode_Disconnected) fail_client"
  by (simp add: app_handlers_def fail_client_def sdk_handler_def ExecCmdClient_handleEvent_def call_receiver_def
      find_client_def sdk_update_def split: option.split)

lemma fold_fail_client:
  "fold (\<lambda>(t, g). tell fail_client (handler_at w g)) gws (a\<lparr>results := rs\<rparr>) =
   a\<lparr>results := rs @ map (\<lambda>r. (r, Failure ErrorCode_Disconnected)) (concat (map ((\<lambda>g.
      case Option.bind (handler_at w g) (\<lambda>i. Option.bind (exec_clients a i) ec_receiver) of None \<Rightarrow> [] | Some r \<Rightarrow> [r]) \<circ> snd) gws))\<rparr>"
proof (induction gws arbitrary: rs)
  case (Cons x gws)
  obtain t g where x: "x = (t, g)" by fastforce
  have "tell fail_client (handler_at w g) (a\<lparr>results := rs\<rparr>) = a\<lparr>results := rs @
      map (\<lambda>r. (r, Failure ErrorCode_Disconnected))
        (case Option.bind (handler_at w g) (\<lambda>i. Option.bind (exec_clients a i) ec_receiver) of None \<Rightarrow> [] | Some r \<Rightarrow> [r])\<rparr>"
    by (simp add: tell_def fail_client_def split: option.split)
  with Cons.IH show ?case by (simp add: x)
qed simp

text \<open>
  C32. When its pipe breaks, a connected SDK fails the commands in flight: every gateway that is
  registered, in turn, has its command's receiver told \<open>Disconnected\<close>, once; nobody else is told,
  no registration remains, nothing is sent, and nothing else changes. If the router was not
  connected (the handshake was not answered, or the break was already handled), nobody is told
  and nothing changes: the commands that were submitted wait on.
\<close>

theorem sdk_disconnect_fails_commands:
  assumes "client_inv (\<lambda>_ _. 0) H w"
  shows "distinct (map snd (map_of_gateways w)) \<and>
    cl_handlePipeEvent (sdk_env X) ClPipeDisconnected w = Some (0, if is_connected w
      then w\<lparr>is_connected := False, map_of_gateways := [],
             cl_app := (cl_app w)\<lparr>results := results (cl_app w) @
               map (\<lambda>r. (r, Failure ErrorCode_Disconnected)) (concat (map (receivers_at w \<circ> snd) (map_of_gateways w)))\<rparr>\<rparr>
      else w)"
proof -
  have "receivers_at w = (\<lambda>g. case Option.bind (handler_at w g) (\<lambda>i. Option.bind (exec_clients (cl_app w) i) ec_receiver) of
      None \<Rightarrow> [] | Some r \<Rightarrow> [r])"
    by (simp add: receivers_at_def find_client_def fun_eq_iff)
  then show ?thesis
    using disconnect_tells [OF sdk_handlers_disconnected assms, of X] registered_distinct [OF assms]
      fold_fail_client [of w "map_of_gateways w" "results (cl_app w)" "cl_app w"] by simp
qed

subsection \<open>Timeouts\<close>

text \<open>
  A negative timeout is not clamped to zero, as the use of \<open>max\<close> means it to be: the request
  asks the daemon for a timeout of almost 2^64 microseconds.
\<close>

theorem negative_timeout_not_clamped:
  assumes "- (2 ^ 63) \<le> timeout" and "timeout < 0"
  shows "int (unat (timeout_us (command_request ns command parameter timeout))) = 2 ^ 64 + timeout"
proof -
  have "timeout mod 2 ^ 64 = (timeout + 2 ^ 64) mod 2 ^ 64" by (rule mod_add_self2 [symmetric])
  also have "\<dots> = 2 ^ 64 + timeout" using assms by (subst mod_pos_pos_trivial) simp_all
  finally have "uint (of_int timeout :: u64) = 2 ^ 64 + timeout"
    by (simp add: unsigned_of_int take_bit_eq_mod)
  moreover have "max 0 (of_int timeout :: u64) = of_int timeout" by (simp add: max_def)
  ultimately show ?thesis by (simp add: command_request_def)
qed

end
