(* ===== verification/Socket_Client.thy ===== *)
theory Socket_Client
  imports Socket_Base Exec_Cmd_Client
begin

text \<open>
  The client end of the pipe (src/common/ipc/pipe/socket_client.cpp) under the client router that
  owns it: the world of its handlers is a router whose pipe is a socket client. Its one callback
  waits first for the connection to be made, then for data; once it is gone the client is done.
\<close>

subsection \<open>State\<close>

datatype socket_callback = OnWritable int | OnReadable int

record 'k socket_client =
  sc_address :: socket_address
  sc_state :: socket_state
  sc_callback :: "socket_callback option"
  sc_kernel :: 'k

definition SocketClient_make :: "socket_address \<Rightarrow> 'k \<Rightarrow> 'k socket_client" where
  "SocketClient_make address k =
     \<lparr>sc_address = address, sc_state = socket_state_default, sc_callback = None, sc_kernel = k\<rparr>"

subsection \<open>Operations of the pipe\<close>

text \<open>
  The test against \<open>EINPROGRESS\<close> is the code's; \<open>connect\<close> has turned that one into 0 already.
\<close>

definition client_makeSocketHandle :: "'k posix \<Rightarrow> 'k socket_client \<Rightarrow> (int \<times> 'k socket_client) option" where
  "client_makeSocketHandle P s = do {
     (maybe_socket, k) \<leftarrow> SocketAddress_socket P (sc_address s) SOCK_STREAM (sc_kernel s);
     case maybe_socket of
       Inl err \<Rightarrow> Some (err, s\<lparr>sc_kernel := k\<rparr>)
     | Inr socket_fd \<Rightarrow> do {
         (err, k) \<leftarrow> SocketAddress_connect P (sc_address s) socket_fd k;
         if err \<noteq> 0 \<and> err \<noteq> EINPROGRESS then Some (err, s\<lparr>sc_kernel := OwnFd_destroy P socket_fd k\<rparr>)
         else do {
           let (fd, k) = OwnFd_assign P (st_fd (sc_state s)) socket_fd k;
           Some (0, s\<lparr>sc_state := (sc_state s)\<lparr>st_fd := fd\<rparr>, sc_kernel := k\<rparr>)
         }
       }
   }"

definition SocketClient_start :: "'k posix \<Rightarrow> 'k socket_client \<Rightarrow> (int \<times> 'k socket_client) option" where
  "SocketClient_start P s = do {
     (err, s) \<leftarrow> client_makeSocketHandle P s;
     if err \<noteq> 0 then Some (err, s)
     else Some (0, s\<lparr>sc_callback := Some (OnWritable (st_fd (sc_state s)))\<rparr>)
   }"

definition SocketClient_send :: "'k posix \<Rightarrow> bytes list \<Rightarrow> 'k socket_client \<Rightarrow> (int \<times> 'k socket_client) option" where
  "SocketClient_send P payloads s = do {
     (err, k) \<leftarrow> SocketBase_send P (sc_state s) payloads (sc_kernel s);
     Some (err, s\<lparr>sc_kernel := k\<rparr>)
   }"

definition connectSocket :: "'k posix \<Rightarrow> int \<Rightarrow> sockaddr \<Rightarrow> nat \<Rightarrow> 'k \<Rightarrow> (int \<times> 'k) option" where
  "connectSocket P fd addr addr_size k = do {
     (err, k) \<leftarrow> posixSyscallError (sys_connect P fd addr addr_size) k;
     Some (if err \<noteq> 0 \<and> err \<noteq> EINPROGRESS then err else 0, k)
   }"

subsection \<open>Operations under the router\<close>

type_synonym ('h, 'k, 'a) client_world = "('h, 'k socket_client, 'a) client_router"

definition cl_over_pipe :: "('p \<Rightarrow> 'p) \<Rightarrow> ('h, 'p, 'a) client_router \<Rightarrow> ('h, 'p, 'a) client_router" where
  "cl_over_pipe f w = w\<lparr>client_pipe := f (client_pipe w)\<rparr>"

definition ClientRouter_start :: "'k posix \<Rightarrow> ('h, 'k, 'a) client_world \<Rightarrow> (int \<times> ('h, 'k, 'a) client_world) option" where
  "ClientRouter_start P w = map_option (\<lambda>(err, s). (err, w\<lparr>client_pipe := s\<rparr>)) (SocketClient_start P (client_pipe w))"

definition close_client :: "'k posix \<Rightarrow> 'k socket_client \<Rightarrow> 'k socket_client" where
  "close_client P s =
     (let (fd, k) = OwnFd_reset P (st_fd (sc_state s)) (sc_kernel s)
      in s\<lparr>sc_callback := None, sc_state := (sc_state s)\<lparr>st_fd := fd, read_phase := Header\<rparr>, sc_kernel := k\<rparr>)"

definition handle_disconnect ::
    "'k posix \<Rightarrow> ('h, 'k socket_client, 'a) client_env \<Rightarrow> ('h, 'k, 'a) client_world \<Rightarrow> ('h, 'k, 'a) client_world option" where
  "handle_disconnect P env w =
     map_option snd (cl_handlePipeEvent env ClPipeDisconnected (cl_over_pipe (close_client P) w))"

definition handle_connect ::
    "'k posix \<Rightarrow> ('h, 'k socket_client, 'a) client_env \<Rightarrow> ('h, 'k, 'a) client_world \<Rightarrow> ('h, 'k, 'a) client_world option" where
  "handle_connect P env w = do {
     let s = (client_pipe w)\<lparr>sc_callback := None\<rparr>;
     (r, k) \<leftarrow> posixSyscall (sys_so_error P (st_fd (sc_state s))) (sc_kernel s);
     let so_error = (case r of Err err \<Rightarrow> err | Ret so_error \<Rightarrow> so_error);
     let w = w\<lparr>client_pipe := s\<lparr>sc_kernel := k\<rparr>\<rparr>;
     if so_error \<noteq> 0 then handle_disconnect P env w
     else map_option snd (cl_handlePipeEvent env ClPipeConnected (cl_over_pipe (\<lambda>s.
            s\<lparr>sc_callback := Some (OnReadable (st_fd (sc_state s))),
              sc_state := (sc_state s)\<lparr>read_phase := Header\<rparr>\<rparr>) w))
   }"

definition read_state :: "('h, 'k, 'a) client_world \<Rightarrow> socket_state \<times> 'k" where
  "read_state w = (sc_state (client_pipe w), sc_kernel (client_pipe w))"

definition write_state :: "socket_state \<times> 'k \<Rightarrow> ('h, 'k, 'a) client_world \<Rightarrow> ('h, 'k, 'a) client_world" where
  "write_state stk = cl_over_pipe (\<lambda>s. s\<lparr>sc_state := fst stk, sc_kernel := snd stk\<rparr>)"

definition handle_receive ::
    "'k posix \<Rightarrow> ('h, 'k socket_client, 'a) client_env \<Rightarrow> ('h, 'k, 'a) client_world \<Rightarrow> ('h, 'k, 'a) client_world option" where
  "handle_receive P env w = do {
     (err, w) \<leftarrow> receiveMessage P read_state write_state (\<lambda>payload. cl_handlePipeEvent env (ClPipeMessage payload)) w;
     if err \<noteq> 0 then handle_disconnect P env w else Some w
   }"

text \<open>The executor runs the callback that is registered; the SDK's own calls come in between.\<close>

inductive client_run ::
    "'k posix \<Rightarrow> ('h, 'k socket_client, 'a) client_env \<Rightarrow>
     (('h, 'k, 'a) client_world \<Rightarrow> ('h, 'k, 'a) client_world \<Rightarrow> bool) \<Rightarrow>
     ('h, 'k, 'a) client_world \<Rightarrow> ('h, 'k, 'a) client_world \<Rightarrow> bool"
  for P env other w0 where
  crun_start: "ClientRouter_start P w0 = Some (0, w) \<Longrightarrow> client_run P env other w0 w"
| crun_connect: "client_run P env other w0 w \<Longrightarrow> sc_callback (client_pipe w) = Some (OnWritable fd) \<Longrightarrow>
     handle_connect P env w = Some w' \<Longrightarrow> client_run P env other w0 w'"
| crun_receive: "client_run P env other w0 w \<Longrightarrow> sc_callback (client_pipe w) = Some (OnReadable fd) \<Longrightarrow>
     handle_receive P env w = Some w' \<Longrightarrow> client_run P env other w0 w'"
| crun_other: "client_run P env other w0 w \<Longrightarrow> other w w' \<Longrightarrow> client_run P env other w0 w'"

end
