(* ===== verification/Client_Sockets.thy ===== *)
theory Client_Sockets
  imports Socket_Client Server_Pipe_Use
begin

text \<open>
  The SDK over its socket. As on the server side, what the client router and its clients do to the
  pipe is send (locale \<open>cl_sends_only\<close>, interpreted on the SDK); so in every run the client has
  one descriptor, with its callback, until it is disconnected, and none from then on.
\<close>

subsection \<open>The router only sends\<close>

definition cl_sends_keep :: "('h, 'p, 'a) client_env \<Rightarrow> ('p \<Rightarrow> bool \<Rightarrow> bool) \<Rightarrow> bool" where
  "cl_sends_keep env I \<longleftrightarrow> (\<forall>payloads p b. I p b \<longrightarrow> I (snd (cl_pipe_send env payloads p)) b)"

definition cl_pipe_inv :: "('p \<Rightarrow> bool \<Rightarrow> bool) \<Rightarrow> ('h, 'p, 'a) client_router \<Rightarrow> bool" where
  "cl_pipe_inv I w = I (client_pipe w) (is_connected w)"

lemma cl_pipe_inv_frame [simp]:
  "cl_pipe_inv I (w\<lparr>cl_gateways := x\<rparr>) = cl_pipe_inv I w"
  "cl_pipe_inv I (w\<lparr>map_of_gateways := m\<rparr>) = cl_pipe_inv I w"
  "cl_pipe_inv I (w\<lparr>cl_app := a\<rparr>) = cl_pipe_inv I w"
  "cl_pipe_inv I (cl_update_gateway g f w) = cl_pipe_inv I w"
  "cl_pipe_inv I (cl_share g w) = cl_pipe_inv I w"
  "cl_pipe_inv I (cl_unregister t w) = cl_pipe_inv I w"
  by (simp_all add: cl_pipe_inv_def cl_share_def cl_unregister_def)

lemma cl_send_route_keep [pipe_intros]:
  assumes "cl_sends_keep env I" and "cl_pipe_inv I w"
  shows "cl_pipe_inv I (snd (cl_send_route env r ps w))"
proof (cases "serialize (cl_codec env) r")
  case None
  with assms(2) show ?thesis by (simp add: cl_send_route_def tryPerformOnSerialized_def)
next
  case (Some prefix)
  with assms show ?thesis
    by (simp add: cl_send_route_def tryPerformOnSerialized_def cl_send_to_pipe_def cl_sends_keep_def
        cl_pipe_inv_def split: prod.split) (metis snd_conv)
qed

lemma cl_onGatewayDisposal_keep [pipe_intros]:
  "cl_sends_keep env I \<Longrightarrow> cl_pipe_inv I w \<Longrightarrow> cl_pipe_inv I (cl_onGatewayDisposal env t b e w)"
  by (simp add: cl_onGatewayDisposal_def Let_def cl_send_route_keep)

lemma cl_release_keep [pipe_intros]:
  "cl_sends_keep env I \<Longrightarrow> cl_pipe_inv I w \<Longrightarrow> cl_pipe_inv I (cl_release env g w)"
  by (simp add: cl_release_def cl_onGatewayDisposal_keep split: option.split)

lemma cl_gateway_send_keep [pipe_intros]:
  "cl_sends_keep env I \<Longrightarrow> cl_pipe_inv I w \<Longrightarrow> cl_pipe_inv I (snd (cl_gateway_send env g s p w))"
  by (simp add: cl_gateway_send_def cl_send_route_keep split: option.split)

lemma lock_all_keep: "cl_pipe_inv I (snd (lock_all gws w)) = cl_pipe_inv I w"
proof (induction gws arbitrary: w)
  case (Cons x gws)
  obtain t g where "x = (t, g)" by fastforce
  with Cons.IH show ?case by (simp split: prod.split) (metis cl_pipe_inv_frame(5) snd_conv)
qed simp

lemma release_all_keep: "cl_sends_keep env I \<Longrightarrow> cl_pipe_inv I w \<Longrightarrow> cl_pipe_inv I (release_all env gs w)"
  by (induction gs arbitrary: w) (simp_all add: cl_release_keep)

subsection \<open>The contract\<close>

locale cl_sends_only =
  fixes env :: "('h, 'p, 'a) client_env"
  assumes handler_keep: "cl_sends_keep env I \<Longrightarrow> cl_pipe_inv I w \<Longrightarrow> cl_pipe_inv I (snd (cl_run_handler env h ev w))"
begin

lemma gateway_event_keep:
  "cl_sends_keep env I \<Longrightarrow> cl_pipe_inv I w \<Longrightarrow> cl_pipe_inv I (snd (cl_gateway_event env g ev w))"
  by (simp add: cl_gateway_event_def handler_keep split: option.split)

lemma with_locked_keep:
  assumes "cl_sends_keep env I" and "cl_pipe_inv I w"
    and "\<And>w. cl_pipe_inv I w \<Longrightarrow> cl_pipe_inv I (snd (action w))"
  shows "cl_pipe_inv I (snd (cl_with_locked env g action w))"
proof -
  have "cl_pipe_inv I (cl_release env g (snd (action (cl_share g w))))"
    using assms by (intro cl_release_keep) simp_all
  with assms(2) show ?thesis by (simp add: cl_with_locked_def split: prod.split) (metis snd_conv)
qed

lemma event_locked_keep:
  "cl_sends_keep env I \<Longrightarrow> cl_pipe_inv I w \<Longrightarrow> cl_pipe_inv I (snd (cl_with_locked env g (cl_gateway_event env g ev) w))"
  by (rule with_locked_keep) (simp_all add: gateway_event_keep)

lemma complete_all_keep:
  "cl_sends_keep env I \<Longrightarrow> cl_pipe_inv I w \<Longrightarrow> cl_pipe_inv I (cl_complete_all env gws w)"
proof (induction gws arbitrary: w)
  case (Cons x gws)
  obtain t g where "x = (t, g)" by fastforce
  with Cons event_locked_keep [OF Cons.prems] show ?case by simp
qed simp

lemma event_all_keep:
  "cl_sends_keep env I \<Longrightarrow> cl_pipe_inv I w \<Longrightarrow> cl_pipe_inv I (event_all env ev gs w)"
  by (induction gs arbitrary: w) (simp_all add: gateway_event_keep)

lemma forEach_keep:
  assumes "cl_sends_keep env I" and "cl_pipe_inv I w"
  shows "cl_pipe_inv I (forEachRegisteredGateway env ev w)"
proof -
  obtain gs w1 where l: "lock_all (map_of_gateways w) w = (gs, w1)" by fastforce
  then have "cl_pipe_inv I w1" using lock_all_keep [of I "map_of_gateways w" w] assms(2) by simp
  with assms(1) l show ?thesis
    by (simp add: forEachRegisteredGateway_def release_all_keep event_all_keep)
qed

lemma handlePipeMessage_keep:
  assumes keep: "cl_sends_keep env I" and I: "cl_pipe_inv I w" and con: "\<And>p b. I p b \<Longrightarrow> I p True"
    and step: "cl_handlePipeEvent env (ClPipeMessage payload) w = Some (r, w')"
  shows "cl_pipe_inv I w'"
proof -
  have c: "cl_pipe_inv I (snd (cl_handleRouteConnect env w))"
    using I con by (auto simp: cl_handleRouteConnect_def cl_pipe_inv_def
        intro!: forEach_keep [OF keep, unfolded cl_pipe_inv_def])
  have e: "cl_pipe_inv I (snd (cl_handleRouteChannelEnd env t err w))" for t err
  proof (cases "cl_find t w")
    case (Some g)
    have "cl_pipe_inv I (snd (cl_with_locked env g (\<lambda>w. cl_gateway_event env g (GCompleted err) (cl_unregister t w)) w))"
      by (rule with_locked_keep [OF keep I]) (simp add: gateway_event_keep [OF keep])
    with Some show ?thesis
      by (simp add: cl_handleRouteChannelEnd_def cl_findAndActOnRegisteredGateway_def)
  qed (simp add: cl_handleRouteChannelEnd_def cl_findAndActOnRegisteredGateway_def I)
  have m: "cl_pipe_inv I w'" if "cl_handleRouteChannelMsg env t q n payload w = Some (r, w')" for t q n
    using that I event_locked_keep [OF keep I]
    by (auto simp: cl_handleRouteChannelMsg_def split: option.splits) (metis snd_conv)
  show ?thesis
    using step I m c e by (auto simp: cl_handlePipeMessage_def split: option.splits route.splits) (metis snd_conv)+
qed

lemma handleDisconnected_keep:
  assumes keep: "cl_sends_keep env I" and I: "I (client_pipe w) False"
    and step: "cl_handlePipeEvent env ClPipeDisconnected w = Some (r, w')"
  shows "cl_pipe_inv I w'"
proof (cases "is_connected w")
  case True
  have "cl_pipe_inv I (w\<lparr>is_connected := False, map_of_gateways := []\<rparr>)"
    using I by (simp add: cl_pipe_inv_def)
  from complete_all_keep [OF keep this, of "map_of_gateways w"] step True show ?thesis
    by (auto simp: cl_handleDisconnected_def)
next
  case False
  with I step show ?thesis by (simp add: cl_handleDisconnected_def cl_pipe_inv_def)
qed

end

lemma cl_handleConnected_keep:
  "cl_sends_keep env I \<Longrightarrow> cl_pipe_inv I w \<Longrightarrow> cl_handlePipeEvent env ClPipeConnected w = Some (r, w') \<Longrightarrow> cl_pipe_inv I w'"
  using cl_send_route_keep [of env I w "RouteConnect VERSION_MAJOR VERSION_MINOR 0" "[]"]
  by (simp add: cl_handleConnected_def)

subsection \<open>The SDK\<close>

lemma cl_sends_keep_sdk [simp]: "cl_sends_keep (sdk_env X) I = cl_sends_keep (sdk_env0 X) I"
  by (simp add: cl_sends_keep_def)

lemma cl_pipe_inv_sdk [simp]:
  "cl_pipe_inv I (sdk_update f w) = cl_pipe_inv I w" "cl_pipe_inv I (call_receiver c r w) = cl_pipe_inv I w"
  by (simp_all add: sdk_update_def call_receiver_def split: option.split)

lemma handleEvent_keep:
  assumes "cl_sends_keep (sdk_env0 X) I" and "cl_pipe_inv I w"
  shows "cl_pipe_inv I (ExecCmdClient_handleEvent X i ev w)"
proof -
  have send: "cl_pipe_inv I (snd (channel_send (cl_gateway_send (sdk_env0 X)) ser ch q w))" for ser ch and q :: exec_request
    using assms by (simp add: channel_send_def tryPerformOnSerialized_def cl_gateway_send_keep split: option.split)
  show ?thesis
  proof (cases "find_client i w")
    case (Some c)
    obtain e w1 where "channel_send (cl_gateway_send (sdk_env0 X)) (sp_ser_request X) (ec_channel c) (ec_request c) w = (e, w1)"
      by fastforce
    with send [of "sp_ser_request X" "ec_channel c" "ec_request c"] assms(2) Some show ?thesis
      by (cases ev) (simp_all add: ExecCmdClient_handleEvent_def)
  qed (use assms(2) in \<open>simp add: ExecCmdClient_handleEvent_def\<close>)
qed

interpretation sdk_pipe: cl_sends_only "sdk_env X" for X
proof unfold_locales
  fix I :: "'a \<Rightarrow> bool \<Rightarrow> bool" and w :: "'a sdk" and h ev
  assume "cl_sends_keep (sdk_env X) I" "cl_pipe_inv I w"
  then show "cl_pipe_inv I (snd (cl_run_handler (sdk_env X) h ev w))"
    by (cases ev) (simp_all add: sdk_handler_def handleEvent_keep split: option.split)
qed

subsection \<open>Descriptors\<close>

definition client_pipe_over :: "'k posix \<Rightarrow> bytes list \<Rightarrow> 'k socket_client \<Rightarrow> int \<times> 'k socket_client" where
  "client_pipe_over P payloads s = (case SocketClient_send P payloads s of None \<Rightarrow> (EINTR, s) | Some r \<Rightarrow> r)"

text \<open>The three phases of the client's life, and what is open in each.\<close>

definition socket_inv :: "('k \<Rightarrow> int set) \<Rightarrow> int set \<Rightarrow> 'k socket_client \<Rightarrow> bool" where
  "socket_inv fds others s \<longleftrightarrow>
     (let fd = st_fd (sc_state s)
      in case sc_callback s of
           None \<Rightarrow> fd = - 1 \<and> fds (sc_kernel s) = others
         | Some cb \<Rightarrow> (cb = OnWritable fd \<or> cb = OnReadable fd) \<and> 0 \<le> fd \<and> fd \<notin> others \<and>
                      fds (sc_kernel s) = insert fd others)"

definition over_socket :: "('k \<Rightarrow> int set) \<Rightarrow> int set \<Rightarrow> 'k socket_client \<Rightarrow> bool \<Rightarrow> bool" where
  "over_socket fds others s connected \<longleftrightarrow> socket_inv fds others s \<and>
     (connected \<longrightarrow> sc_callback s = Some (OnReadable (st_fd (sc_state s))))"

definition receiving :: "('k \<Rightarrow> int set) \<Rightarrow> int set \<Rightarrow> 'k socket_client \<Rightarrow> bool \<Rightarrow> bool" where
  "receiving fds others s connected \<longleftrightarrow> socket_inv fds others s \<and> sc_callback s = Some (OnReadable (st_fd (sc_state s)))"

lemma socket_inv_kernel: "socket_inv fds others s \<Longrightarrow> fds k = fds (sc_kernel s) \<Longrightarrow> socket_inv fds others (s\<lparr>sc_kernel := k\<rparr>)"
  by (simp add: socket_inv_def Let_def cong: option.case_cong)

lemma client_pipe_over_frame:
  assumes "posix_fds P fds"
  shows "\<exists>k. snd (client_pipe_over P ps s) = s\<lparr>sc_kernel := k\<rparr> \<and> fds k = fds (sc_kernel s)"
proof (cases "SocketBase_send P (sc_state s) ps (sc_kernel s)")
  case None
  then show ?thesis by (intro exI [of _ "sc_kernel s"]) (simp add: client_pipe_over_def SocketClient_send_def)
next
  case (Some ek)
  obtain e k where ek: "ek = (e, k)" by fastforce
  with Some SocketBase_send_fds [OF assms, of "sc_state s" ps "sc_kernel s" e k] show ?thesis
    by (intro exI [of _ k]) (simp add: client_pipe_over_def SocketClient_send_def)
qed

lemma sends_keep_over_socket:
  assumes "posix_fds P fds" and "cl_pipe_send env = client_pipe_over P"
  shows "cl_sends_keep env (over_socket fds others)" and "cl_sends_keep env (receiving fds others)"
proof -
  have "over_socket fds others (snd (client_pipe_over P ps s)) b" if "over_socket fds others s b" for ps s b
    using client_pipe_over_frame [OF assms(1), of ps s] that by (auto simp: over_socket_def socket_inv_kernel)
  moreover have "receiving fds others (snd (client_pipe_over P ps s)) b" if "receiving fds others s b" for ps s b
    using client_pipe_over_frame [OF assms(1), of ps s] that by (auto simp: receiving_def socket_inv_kernel)
  ultimately show "cl_sends_keep env (over_socket fds others)" and "cl_sends_keep env (receiving fds others)"
    by (simp_all add: cl_sends_keep_def assms(2))
qed

lemma SocketClient_start_inv:
  assumes P: "posix_fds P fds" and st: "SocketClient_start P (SocketClient_make a k) = Some (0, s)"
  shows "socket_inv fds (fds k) s"
proof -
  let ?s0 = "SocketClient_make a k"
  from st obtain err s1 where 1: "client_makeSocketHandle P ?s0 = Some (err, s1)"
    by (auto simp: SocketClient_start_def bind_eq_Some_conv)
  with st have e: "err = 0" and s: "s = s1\<lparr>sc_callback := Some (OnWritable (st_fd (sc_state s1)))\<rparr>"
    by (auto simp: SocketClient_start_def split: if_splits)
  from 1 obtain r k1 where 2: "SocketAddress_socket P a SOCK_STREAM k = Some (r, k1)"
    by (auto simp: client_makeSocketHandle_def SocketClient_make_def bind_eq_Some_conv)
  note opened = socket_no_leak [OF P 2]
  show ?thesis
  proof (cases r)
    case (Inl e')
    with 1 2 opened e show ?thesis by (simp add: client_makeSocketHandle_def SocketClient_make_def)
  next
    case (Inr fd)
    with 1 2 obtain e2 k2 where 3: "SocketAddress_connect P a fd k1 = Some (e2, k2)"
      by (auto simp: client_makeSocketHandle_def SocketClient_make_def bind_eq_Some_conv)
    have f: "fds k2 = insert fd (fds k)" "0 \<le> fd" "fd \<notin> fds k"
      using SocketAddress_connect_keeps [OF P 3] opened Inr by simp_all
    have "s1 = ?s0\<lparr>sc_state := (sc_state ?s0)\<lparr>st_fd := fd\<rparr>, sc_kernel := k2\<rparr>"
      using 1 2 3 Inr e
      by (auto simp: client_makeSocketHandle_def SocketClient_make_def socket_state_default_def OwnFd_assign_def
          OwnFd_destroy_def OwnFd_reset_def split: if_splits)
    then show ?thesis using f by (simp add: s socket_inv_def SocketClient_make_def)
  qed
qed

lemma close_client_inv:
  assumes "posix_fds P fds" and "socket_inv fds others s"
  shows "over_socket fds others (close_client P s) False"
  using assms(2)
  by (auto simp: over_socket_def socket_inv_def close_client_def OwnFd_reset_def Let_def posix_fdsD(3) [OF assms(1)]
      split: option.splits)

subsection \<open>Runs of the SDK\<close>

lemma cl_pipe_inv_set [simp]:
  "cl_pipe_inv I (w\<lparr>client_pipe := s\<rparr>) = I s (is_connected w)"
  by (simp add: cl_pipe_inv_def)

lemma handle_disconnect_inv:
  assumes P: "posix_fds P fds" and send: "cl_pipe_send env = client_pipe_over P" and app: "cl_sends_only env"
    and inv: "socket_inv fds others (client_pipe w)" and step: "handle_disconnect P env w = Some w'"
  shows "cl_pipe_inv (over_socket fds others) w'"
proof -
  let ?w = "cl_over_pipe (close_client P) w"
  from step obtain r where h: "cl_handlePipeEvent env ClPipeDisconnected ?w = Some (r, w')"
    by (cases "cl_handlePipeEvent env ClPipeDisconnected ?w") (auto simp: handle_disconnect_def)
  have "over_socket fds others (client_pipe ?w) False"
    using close_client_inv [OF P inv] by (simp add: cl_over_pipe_def)
  from cl_sends_only.handleDisconnected_keep [OF app sends_keep_over_socket(1) [OF P send] this h] show ?thesis .
qed

lemma handle_connect_inv:
  assumes P: "posix_fds P fds" and send: "cl_pipe_send env = client_pipe_over P" and app: "cl_sends_only env"
    and inv: "cl_pipe_inv (over_socket fds others) w" and cb: "sc_callback (client_pipe w) = Some (OnWritable fd)"
    and step: "handle_connect P env w = Some w'"
  shows "cl_pipe_inv (over_socket fds others) w'"
proof -
  let ?s = "client_pipe w"
  have fd: "0 \<le> st_fd (sc_state ?s)" "st_fd (sc_state ?s) \<notin> others" "fds (sc_kernel ?s) = insert (st_fd (sc_state ?s)) others"
    and nc: "\<not> is_connected w"
    using inv cb by (auto simp: cl_pipe_inv_def over_socket_def socket_inv_def Let_def)
  from step obtain r k where 1: "posixSyscall (sys_so_error P (st_fd (sc_state ?s))) (sc_kernel ?s) = Some (r, k)"
    by (auto simp: handle_connect_def bind_eq_Some_conv)
  have k: "fds k = insert (st_fd (sc_state ?s)) others"
    using posixSyscall_keeps [OF posix_fdsD(11) [OF P] 1] fd(3) by simp
  let ?e = "case r of Err err \<Rightarrow> err | Ret so_error \<Rightarrow> so_error"
  let ?w = "w\<lparr>client_pipe := ?s\<lparr>sc_callback := None, sc_kernel := k\<rparr>\<rparr>"
  show ?thesis
  proof (cases "?e = 0")
    case True
    let ?w1 = "cl_over_pipe (\<lambda>s. s\<lparr>sc_callback := Some (OnReadable (st_fd (sc_state s))),
        sc_state := (sc_state s)\<lparr>read_phase := Header\<rparr>\<rparr>) ?w"
    have "map_option snd (cl_handlePipeEvent env ClPipeConnected ?w1) = Some w'"
      using step 1 True by (simp add: handle_connect_def Let_def del: cl_handlePipeEvent.simps)
    then obtain r' where h: "cl_handlePipeEvent env ClPipeConnected ?w1 = Some (r', w')"
      by (cases "cl_handlePipeEvent env ClPipeConnected ?w1") auto
    have "cl_pipe_inv (over_socket fds others) ?w1"
      using fd k by (simp add: cl_over_pipe_def over_socket_def socket_inv_def)
    from cl_handleConnected_keep [OF sends_keep_over_socket(1) [OF P send] this h] show ?thesis .
  next
    case False
    let ?c = "close_client P (?s\<lparr>sc_callback := None, sc_kernel := k\<rparr>)"
    have "over_socket fds others ?c False"
      using fd k by (auto simp: over_socket_def socket_inv_def close_client_def OwnFd_reset_def posix_fdsD(3) [OF P])
    then have I: "over_socket fds others (client_pipe (cl_over_pipe (close_client P) ?w)) False"
      by (simp add: cl_over_pipe_def)
    have "handle_disconnect P env ?w = Some w'" using step 1 False by (simp add: handle_connect_def Let_def)
    then obtain r' where h: "cl_handlePipeEvent env ClPipeDisconnected (cl_over_pipe (close_client P) ?w) = Some (r', w')"
      by (cases "cl_handlePipeEvent env ClPipeDisconnected (cl_over_pipe (close_client P) ?w)")
         (auto simp: handle_disconnect_def)
    from cl_sends_only.handleDisconnected_keep [OF app sends_keep_over_socket(1) [OF P send] I h] show ?thesis .
  qed
qed

lemma handle_receive_inv:
  fixes env :: "('h, 'k socket_client, 'a) client_env"
  assumes P: "posix_fds P fds" and send: "cl_pipe_send env = client_pipe_over P" and app: "cl_sends_only env"
    and inv: "cl_pipe_inv (over_socket fds others) w" and cb: "sc_callback (client_pipe w) = Some (OnReadable fd)"
    and step: "handle_receive P env w = Some w'"
  shows "cl_pipe_inv (over_socket fds others) w'"
proof -
  let ?s = "client_pipe w" and ?I = "receiving fds others"
  from step obtain err w1 where
    rec: "receiveMessage P read_state write_state (\<lambda>p. cl_handlePipeEvent env (ClPipeMessage p)) w = Some (err, w1)"
    by (auto simp: handle_receive_def bind_eq_Some_conv)
  then obtain r st k where read: "read_message P (sc_state ?s) (sc_kernel ?s) = Some (r, st, k)"
    by (auto simp: receiveMessage_def read_state_def bind_eq_Some_conv)
  let ?w = "write_state (st, k) w"
  have I: "cl_pipe_inv ?I ?w"
    using read_message_fds [OF P read] inv cb
    by (auto simp: write_state_def cl_over_pipe_def cl_pipe_inv_def receiving_def over_socket_def socket_inv_def Let_def)
  have "cl_pipe_inv ?I w1"
  proof (cases r)
    case (Done e)
    with rec read I show ?thesis by (simp add: receiveMessage_def read_state_def)
  next
    case (Deliver p)
    with rec read have h: "cl_handlePipeEvent env (ClPipeMessage p) ?w = Some (err, w1)"
      by (simp add: receiveMessage_def read_state_def)
    have "receiving fds others p True" if "receiving fds others p b" for p b
      using that by (simp add: receiving_def)
    from cl_sends_only.handlePipeMessage_keep [OF app sends_keep_over_socket(2) [OF P send] I this h] show ?thesis .
  qed
  then have w1: "socket_inv fds others (client_pipe w1)" "cl_pipe_inv (over_socket fds others) w1"
    by (simp_all add: cl_pipe_inv_def receiving_def over_socket_def)
  with step rec handle_disconnect_inv [OF P send app w1(1)] show ?thesis
    by (auto simp: handle_receive_def split: if_splits)
qed

text \<open>What a program does with the SDK: make commands, submit them, let them go.\<close>

definition sdk_call :: "'p sdk_params \<Rightarrow> 'p sdk \<Rightarrow> 'p sdk \<Rightarrow> bool" where
  "sdk_call X w w' \<longleftrightarrow>
     (\<exists>crc64 name nodes command parameter timeout. w' = snd (sendCommand crc64 name nodes command parameter timeout w)) \<or>
     (\<exists>i receiver. w' = ExecCmdClient_submit X i receiver w) \<or> (\<exists>i. w' = ExecCmdClient_destroy X i w)"

lemma sdk_call_keep:
  assumes keep: "cl_sends_keep (sdk_env0 X) I" and I: "cl_pipe_inv I w" and call: "sdk_call X w w'"
  shows "cl_pipe_inv I w'"
proof -
  have k: "cl_sends_keep (sdk_env X) I" using keep by simp
  have "cl_pipe_inv I (snd (sendCommand crc64 name nodes command parameter timeout w))" for crc64 name nodes command parameter timeout
    using I by (simp add: sendCommand_def ExecCmdClient_make_def makeChannel_def makeGateway_def cl_GatewayImpl_create_def Let_def cl_pipe_inv_def)
  moreover have "cl_pipe_inv I (ExecCmdClient_submit X i receiver w)" for i receiver
    using I by (auto simp: ExecCmdClient_submit_def cl_gateway_subscribe_def cl_onGatewaySubscription_def
        cl_findAndActOnRegisteredGateway_def sdk_pipe.event_locked_keep [OF k] split: option.split)
  moreover have "cl_pipe_inv I (ExecCmdClient_destroy X i w)" for i
    using I by (simp add: ExecCmdClient_destroy_def cl_release_keep [OF k] split: option.split)
  ultimately show ?thesis using call by (auto simp: sdk_call_def)
qed

text \<open>
  C18. In every run of the SDK over its socket exactly one descriptor is open besides those that
  were open before, with one callback that waits on it, until the client is disconnected; then
  none is, and no callback either. The router is connected only while the socket is receiving.
\<close>

theorem sdk_one_descriptor:
  assumes "posix_fds P fds" and "sp_pipe_send X = client_pipe_over P"
    and "client_pipe w0 = SocketClient_make a k" and "\<not> is_connected w0"
    and "client_run P (sdk_env X) (sdk_call X) w0 w"
  shows "over_socket fds (fds k) (client_pipe w) (is_connected w)"
proof -
  have send: "cl_pipe_send (sdk_env X) = client_pipe_over P" using assms(2) by simp
  note app = sdk_pipe.cl_sends_only_axioms [of X]
  from assms(5) have "cl_pipe_inv (over_socket fds (fds k)) w"
  proof induction
    case (crun_start w)
    then obtain s where "SocketClient_start P (SocketClient_make a k) = Some (0, s)" "w = w0\<lparr>client_pipe := s\<rparr>"
      using assms(3) by (auto simp: ClientRouter_start_def)
    with SocketClient_start_inv [OF assms(1)] assms(4) show ?case by (simp add: over_socket_def)
  next
    case (crun_connect w fd w')
    then show ?case by (blast intro: handle_connect_inv [OF assms(1) send app])
  next
    case (crun_receive w fd w')
    then show ?case by (blast intro: handle_receive_inv [OF assms(1) send app])
  next
    case (crun_other w w')
    have "cl_sends_keep (sdk_env0 X) (over_socket fds (fds k))"
      using sends_keep_over_socket(1) [OF assms(1) send] by simp
    from sdk_call_keep [OF this crun_other.IH crun_other.hyps(2)] show ?case .
  qed
  then show ?thesis by (simp add: cl_pipe_inv_def)
qed

text \<open>
  A connection that is refused, or that breaks before the server answered the handshake, tells
  nobody: the results the receivers have been given stay as they are, and there is no callback
  left that could give them one.
\<close>

theorem lost_connection_tells_nobody:
  assumes "\<not> is_connected w" and "handle_disconnect P (sdk_env X) w = Some w'"
  shows "results (cl_app w') = results (cl_app w) \<and> map_of_gateways w' = map_of_gateways w \<and>
         sc_callback (client_pipe w') = None"
  using assms by (auto simp: handle_disconnect_def cl_handleDisconnected_def cl_over_pipe_def close_client_def Let_def
      split: prod.split)

end
