(* ===== verification/Command_End_To_End.thy ===== *)
theory Command_End_To_End
  imports Exec_Cmd_Client
begin

text \<open>
  A command from end to end: the frames the daemon's session puts on the pipe, delivered in order
  to the client router, make the SDK's receiver get exactly one result, with the response of
  every node that answered successfully.
\<close>

subsection \<open>Delivering messages to the client\<close>

definition cl_deliver ::
    "('h, 'p, 'a) client_env \<Rightarrow> bytes list \<Rightarrow> ('h, 'p, 'a) client_router \<Rightarrow> ('h, 'p, 'a) client_router" where
  "cl_deliver env msgs w =
     fold (\<lambda>m w. case cl_handlePipeEvent env (ClPipeMessage m) w of None \<Rightarrow> w | Some (r, w') \<Rightarrow> w') msgs w"

lemma cl_deliver_simps [simp]:
  "cl_deliver env [] w = w"
  "cl_deliver env (m # ms) w =
     cl_deliver env ms (case cl_handlePipeEvent env (ClPipeMessage m) w of None \<Rightarrow> w | Some (r, w') \<Rightarrow> w')"
  "cl_deliver env (ms @ ms') w = cl_deliver env ms' (cl_deliver env ms w)"
  by (simp_all add: cl_deliver_def)

text \<open>A submitted command: its client subscribed to its registered gateway.\<close>

definition client_session ::
    "nat \<Rightarrow> exec_client \<Rightarrow> nat client_gateway \<Rightarrow> receiver \<Rightarrow> 'p sdk \<Rightarrow> bool" where
  "client_session i c gw receiver w \<longleftrightarrow>
     find_client i w = Some c \<and> ec_receiver c = Some receiver \<and>
     cl_gateways w (ch_gateway (ec_channel c)) = Some gw \<and> 0 < cg_use_count gw \<and>
     cg_event_handler gw = Some i \<and> cl_find (cg_tag gw) w = Some (ch_gateway (ec_channel c))"

lemma find_client_share [simp]: "find_client i (cl_share g w) = find_client i w"
  by (simp add: find_client_def cl_share_def)

lemma cl_app_share [simp]: "cl_app (cl_share g w) = cl_app w"
  by (simp add: cl_share_def)

lemma input_delivered:
  assumes s: "client_session i c gw receiver w"
    and m: "deserialize (sp_codec Y) m = Some (RouteChannelMsg (cg_tag gw) sq sid n)"
    and p: "real_payload m n = Some p" and r: "sp_des_response Y p = Some resp"
  shows "cl_handlePipeEvent (sdk_env Y) (ClPipeMessage m) w =
    Some (0, sdk_update (\<lambda>a. a\<lparr>exec_clients := (exec_clients a)(i \<mapsto>
      c\<lparr>node_id_to_response := emplace (res_node_id resp) (response_of resp) (node_id_to_response c)\<rparr>)\<rparr>) w)"
proof -
  let ?g = "ch_gateway (ec_channel c)"
  let ?f = "\<lambda>a. a\<lparr>exec_clients := (exec_clients a)(i \<mapsto>
      c\<lparr>node_id_to_response := emplace (res_node_id resp) (response_of resp) (node_id_to_response c)\<rparr>)\<rparr>"
  note s' = s [unfolded client_session_def]
  have "sdk_handler Y i (GMessage sq p) (cl_share ?g w) = (0, (cl_share ?g w)\<lparr>cl_app := ?f (cl_app w)\<rparr>)"
    using s' r by (simp add: sdk_handler_def ExecCmdClient_handleEvent_def sdk_update_def)
  then have "cl_with_locked (sdk_env Y) ?g (cl_gateway_event (sdk_env Y) ?g (GMessage sq p)) w =
      (0, cl_release (sdk_env Y) ?g ((cl_share ?g w)\<lparr>cl_app := ?f (cl_app w)\<rparr>))"
    using s' by (simp add: cl_with_locked_event)
  also have "cl_release (sdk_env Y) ?g ((cl_share ?g w)\<lparr>cl_app := ?f (cl_app w)\<rparr>) = sdk_update ?f w"
    unfolding sdk_update_def using s' by (intro cl_share_release) auto
  finally show ?thesis
    using s' m p by (simp add: cl_handlePipeMessage_def cl_handleRouteChannelMsg_def)
qed

lemma cl_share_unregister: "cl_share g (cl_unregister t w) = cl_unregister t (cl_share g w)"
  by (simp add: cl_share_def cl_update_gateway_def cl_unregister_def)

definition end_result :: "error_code \<Rightarrow> exec_client \<Rightarrow> command_result" where
  "end_result e c = (if e \<noteq> ErrorCode_Success then Failure e else Success (node_id_to_response c))"

lemma end_delivered:
  assumes s: "client_session i c gw receiver w"
    and m: "deserialize (sp_codec Y) m = Some (RouteChannelEnd (cg_tag gw) e)"
  shows "cl_handlePipeEvent (sdk_env Y) (ClPipeMessage m) w =
    Some (0, sdk_update (\<lambda>a. a\<lparr>results := results a @ [(receiver, end_result e c)]\<rparr>) (cl_unregister (cg_tag gw) w))"
proof -
  let ?g = "ch_gateway (ec_channel c)" and ?w = "cl_unregister (cg_tag gw) w"
  let ?f = "\<lambda>a. a\<lparr>results := results a @ [(receiver, end_result e c)]\<rparr>"
  note s' = s [unfolded client_session_def]
  have gw: "cl_gateways ?w ?g = Some gw" "find_client i ?w = Some c" "cl_app ?w = cl_app w"
    using s' by (simp_all add: cl_unregister_def find_client_def)
  have "sdk_handler Y i (GCompleted e) (cl_share ?g ?w) = (0, (cl_share ?g ?w)\<lparr>cl_app := ?f (cl_app w)\<rparr>)"
    using s' gw(2,3)
    by (simp add: sdk_handler_def ExecCmdClient_handleEvent_def sdk_update_def call_receiver_def end_result_def)
  then have "cl_with_locked (sdk_env Y) ?g (cl_gateway_event (sdk_env Y) ?g (GCompleted e)) ?w =
      (0, cl_release (sdk_env Y) ?g ((cl_share ?g ?w)\<lparr>cl_app := ?f (cl_app w)\<rparr>))"
    using s' gw(1) by (simp add: cl_with_locked_event)
  also have "cl_release (sdk_env Y) ?g ((cl_share ?g ?w)\<lparr>cl_app := ?f (cl_app w)\<rparr>) = sdk_update ?f ?w"
    unfolding sdk_update_def using s' gw(3) by (subst cl_share_release [OF gw(1)]) simp_all
  finally have locked: "cl_with_locked (sdk_env Y) ?g
      (\<lambda>w. cl_gateway_event (sdk_env Y) ?g (GCompleted e) (cl_unregister (cg_tag gw) w)) w = (0, sdk_update ?f ?w)"
    using s' gw(1) by (simp add: cl_with_locked_def cl_share_unregister cl_alive_def)
  then show ?thesis
    using s' m by (simp add: cl_handlePipeMessage_def cl_handleRouteChannelEnd_def cl_findAndActOnRegisteredGateway_def)
qed

subsection \<open>Collecting the responses\<close>

definition collect :: "exec_response list \<Rightarrow> (u16 \<times> node_response) list \<Rightarrow> (u16 \<times> node_response) list" where
  "collect = fold (\<lambda>r. emplace (res_node_id r) (response_of r))"

definition with_responses :: "nat \<Rightarrow> exec_client \<Rightarrow> exec_response list \<Rightarrow> 'p sdk \<Rightarrow> 'p sdk" where
  "with_responses i c rs =
     sdk_update (\<lambda>a. a\<lparr>exec_clients := (exec_clients a)(i \<mapsto>
       c\<lparr>node_id_to_response := collect rs (node_id_to_response c)\<rparr>)\<rparr>)"

lemma with_responses_session:
  assumes "client_session i c gw receiver w"
  shows "client_session i (c\<lparr>node_id_to_response := m\<rparr>) gw receiver
    (sdk_update (\<lambda>a. a\<lparr>exec_clients := (exec_clients a)(i \<mapsto> c\<lparr>node_id_to_response := m\<rparr>)\<rparr>) w)"
  using assms by (simp add: client_session_def find_client_def)

text \<open>The frames of a channel, joined, are messages whose payloads the client collects.\<close>

lemma frames_collected:
  assumes "client_session i c gw receiver w" and "dsdl_codec (sp_codec Y)"
    and ser: "\<And>sq n. serialize (sp_codec Y) (RouteChannelMsg (cg_tag gw) sq sid n) =
                Some (ser (RouteChannelMsg (cg_tag gw) sq sid n))"
    and short: "\<And>r. length (ser r) < 2 ^ 32"
    and payloads: "list_all2 (\<lambda>p r. sp_des_response Y p = Some r \<and> length p < 2 ^ 32) ps rs"
  shows "cl_deliver (sdk_env Y) (map concat (channel_frames ser (cg_tag gw) sq sid ps)) w = with_responses i c rs w"
  using payloads assms(1)
proof (induction ps rs arbitrary: sq w c rule: list_all2_induct)
  case Nil
  then have "exec_clients (cl_app w) i = Some c" by (simp add: client_session_def find_client_def)
  then show ?case
    by (intro client_router.equality sdk_app.equality)
       (simp_all add: with_responses_def collect_def sdk_update_def fun_upd_idem)
next
  case (Cons p ps r rs)
  let ?prefix = "ser (RouteChannelMsg (cg_tag gw) sq sid (of_nat (length p)))"
  let ?m = "emplace (res_node_id r) (response_of r) (node_id_to_response c)"
  let ?w = "sdk_update (\<lambda>a. a\<lparr>exec_clients := (exec_clients a)(i \<mapsto> c\<lparr>node_id_to_response := ?m\<rparr>)\<rparr>) w"
  have len: "length (?prefix @ p) < 2 ^ 64" "length p < 2 ^ 64"
    using short [of "RouteChannelMsg (cg_tag gw) sq sid (of_nat (length p))"] Cons.hyps(1) by simp_all
  have "cl_handlePipeEvent (sdk_env Y) (ClPipeMessage (?prefix @ p)) w = Some (0, ?w)"
    by (rule input_delivered [OF Cons.prems dsdl_codecD [OF assms(2) ser] real_payload_suffix [OF len(2,1)]])
       (use Cons.hyps(1) in simp)
  moreover have "cl_deliver (sdk_env Y) (map concat (channel_frames ser (cg_tag gw) (sq + 1) sid ps)) ?w =
      with_responses i (c\<lparr>node_id_to_response := ?m\<rparr>) rs ?w"
    by (rule Cons.IH [OF with_responses_session [OF Cons.prems]])
  moreover have "with_responses i (c\<lparr>node_id_to_response := ?m\<rparr>) rs ?w = with_responses i c (r # rs) w"
    by (simp add: with_responses_def sdk_update_def collect_def)
  ultimately show ?case by simp
qed

lemma client_collects:
  fixes sq :: u64
  assumes s: "client_session i c gw receiver w" and codec: "dsdl_codec (sp_codec Y)"
    and ser: "\<And>sq n. serialize (sp_codec Y) (RouteChannelMsg (cg_tag gw) sq sid n) =
                Some (ser (RouteChannelMsg (cg_tag gw) sq sid n))"
    and short: "\<And>r. length (ser r) < 2 ^ 32"
    and payloads: "list_all2 (\<lambda>p r. sp_des_response Y p = Some r \<and> length p < 2 ^ 32) ps rs"
    and frame: "serialize (sp_codec Y) (RouteChannelEnd (cg_tag gw) e) = Some frame"
  defines "w' \<equiv> cl_deliver (sdk_env Y) (map concat (channel_frames ser (cg_tag gw) sq sid ps @ [[frame]])) w"
  shows "results (cl_app w') = results (cl_app w) @
           [(receiver, end_result e (c\<lparr>node_id_to_response := collect rs (node_id_to_response c)\<rparr>))]"
    and "cl_find (cg_tag gw) w' = None"
proof -
  let ?c = "c\<lparr>node_id_to_response := collect rs (node_id_to_response c)\<rparr>"
  have s1: "client_session i ?c gw receiver (with_responses i c rs w)"
    unfolding with_responses_def by (rule with_responses_session [OF s])
  have "cl_deliver (sdk_env Y) (map concat (channel_frames ser (cg_tag gw) sq sid ps)) w = with_responses i c rs w"
    by (rule frames_collected [OF s codec ser short payloads])
  moreover have end_frame: "deserialize (sp_codec Y) frame = Some (RouteChannelEnd (cg_tag gw) e)"
    using dsdl_codecD [OF codec frame, of "[]"] by simp
  ultimately have "w' = sdk_update (\<lambda>a. a\<lparr>results := results a @ [(receiver, end_result e ?c)]\<rparr>)
      (cl_unregister (cg_tag gw) (with_responses i c rs w))"
    using end_delivered [OF s1 end_frame] by (simp add: w'_def)
  then show "results (cl_app w') = results (cl_app w) @ [(receiver, end_result e ?c)]"
    and "cl_find (cg_tag gw) w' = None"
    by (simp_all add: cl_unregister_def with_responses_def cl_find_def)
qed

subsection \<open>From end to end\<close>

text \<open>What the answers of the nodes amount to for the caller.\<close>

definition answer_responses :: "(u16 \<times> (cy_error + u8 \<times> bytes)) list \<Rightarrow> exec_response list" where
  "answer_responses rs = concat (map (\<lambda>(n, r).
     case r of Inl e \<Rightarrow> [] | Inr (status, output) \<Rightarrow>
       [\<lparr>res_node_id = n, res_status = status, res_output = output\<rparr>]) rs)"

definition successful :: "(u16 \<times> (cy_error + u8 \<times> bytes)) list \<Rightarrow> (u16 \<times> node_response) list" where
  "successful rs = map (\<lambda>r. (res_node_id r, response_of r)) (answer_responses rs)"

lemma answer_responses_Cons:
  "answer_responses ((n, Inl e) # rs) = answer_responses rs"
  "answer_responses ((n, Inr (st, out)) # rs) =
     \<lparr>res_node_id = n, res_status = st, res_output = out\<rparr> # answer_responses rs"
  by (simp_all add: answer_responses_def)

lemma answer_nodes: "res_node_id ` set (answer_responses rs) \<subseteq> fst ` set rs"
  by (auto simp: answer_responses_def split: sum.splits) force

lemma answer_distinct: "distinct (map fst rs) \<Longrightarrow> distinct (map res_node_id (answer_responses rs))"
proof (induction rs)
  case (Cons a rs)
  obtain n r where a: "a = (n, r)" by fastforce
  with Cons answer_nodes [of rs] show ?case
    by (cases r) (auto simp: answer_responses_Cons)
qed (simp add: answer_responses_def)

lemma collect_distinct:
  "distinct (map res_node_id rs) \<Longrightarrow> res_node_id ` set rs \<inter> fst ` set m = {} \<Longrightarrow>
   collect rs m = m @ map (\<lambda>r. (res_node_id r, response_of r)) rs"
proof (induction rs arbitrary: m)
  case (Cons r rs)
  have "map_of m (res_node_id r) = None" using Cons.prems(2) by (simp add: map_of_eq_None_iff)
  then have "emplace (res_node_id r) (response_of r) m = m @ [(res_node_id r, response_of r)]"
    by (simp add: emplace_def)
  with Cons.IH [of "m @ [(res_node_id r, response_of r)]"] Cons.prems show ?case
    by (auto simp: collect_def)
qed (simp add: collect_def)

text \<open>The two sides speak the same language: a response the daemon sends is one the SDK reads.\<close>

definition responses_agree ::
    "('c, 'r, 'p, 'cy) exec_params \<Rightarrow> 'q sdk_params \<Rightarrow> (u16 \<times> (cy_error + u8 \<times> bytes)) list \<Rightarrow> bool" where
  "responses_agree X Y rs \<longleftrightarrow>
     list_all (\<lambda>r. case xp_ser_response X r of None \<Rightarrow> False
                   | Some p \<Rightarrow> sp_des_response Y p = Some r \<and> length p < 2 ^ 32) (answer_responses rs)"

lemma answers_agree:
  "responses_agree X Y rs \<Longrightarrow>
   list_all2 (\<lambda>p r. sp_des_response Y p = Some r \<and> length p < 2 ^ 32)
     (concat (map (answer_payloads X) rs)) (answer_responses rs)"
proof (induction rs)
  case (Cons a rs)
  obtain n r where a: "a = (n, r)" by fastforce
  show ?case
  proof (cases r)
    case (Inl e)
    with Cons show ?thesis
      by (simp add: a answer_payloads_def answer_responses_Cons responses_agree_def)
  next
    case (Inr b)
    obtain st out where b: "b = (st, out)" by fastforce
    with Cons Inr show ?thesis
      by (auto simp: a answer_payloads_def answer_responses_Cons responses_agree_def split: option.splits)
  qed
qed (simp add: answer_responses_def)

text \<open>A pipe that delivers: what is sent is appended to what the client will receive.\<close>

definition delivers :: "('c, 'r, (client_id \<times> bytes list) list, 'cy) exec_params \<Rightarrow> bool" where
  "delivers X \<longleftrightarrow> xp_pipe_send X = (\<lambda>c ps p. (0, p @ [(c, ps)]))"

lemma pipe_sends_delivers:
  "delivers X \<Longrightarrow> pipe_sends (exec_env0 X) c fs p = p @ map (Pair c) fs"
  by (induction fs arbitrary: p) (simp_all add: delivers_def)

lemma command_delivered:
  fixes w :: "('c, 'r, (client_id \<times> bytes list) list, 'cy) daemon"
  assumes "daemon_inv w" and "find_fsm i w = Some f" and "gateways w (fsm_gateway f) = Some gw"
    and "rs \<noteq> []" and "distinct (map fst rs)" and "set (map fst rs) = fst ` set (node_id_to_op f)"
    and "\<And>sq k. serialize (xp_codec X) (RouteChannelMsg (sg_tag gw) sq (ch_service_id (fsm_channel f)) k) =
                Some (ser (RouteChannelMsg (sg_tag gw) sq (ch_service_id (fsm_channel f)) k))"
    and "serialize (xp_codec X) (RouteChannelEnd (sg_tag gw) 0) = Some frame"
    and "\<And>r. length (ser r) < 2 ^ 32" and "dsdl_codec (xp_codec X)" and "delivers X"
    and "sp_codec Y = xp_codec X" and "responses_agree X Y rs"
    and "client_session j c cgw receiver cw" and "cg_tag cgw = sg_tag gw" and "node_id_to_response c = []"
  shows "results (cl_app (cl_deliver (sdk_env Y)
           (map (concat \<circ> snd) (drop (length (server_pipe w)) (server_pipe (answers X i rs w)))) cw)) =
         results (cl_app cw) @ [(receiver, Success (successful rs))]"
proof -
  let ?ps = "concat (map (answer_payloads X) rs)" and ?sid = "ch_service_id (fsm_channel f)"
  let ?frames = "channel_frames ser (sg_tag gw) (sg_next_sequence gw) ?sid ?ps @ [[frame]]"
  have "server_pipe (answers X i rs w) = pipe_sends (exec_env0 X) (sg_client_id gw) ?frames (server_pipe w)"
    using session_completes_frames [OF assms(1-8)] by blast
  then have sent: "map (concat \<circ> snd) (drop (length (server_pipe w)) (server_pipe (answers X i rs w))) = map concat ?frames"
    by (simp add: pipe_sends_delivers [OF assms(11)])
  have msg: "serialize (sp_codec Y) (RouteChannelMsg (cg_tag cgw) sq ?sid n) =
      Some (ser (RouteChannelMsg (cg_tag cgw) sq ?sid n))" for sq n
    using assms(7) by (simp add: assms(12,15))
  have "dsdl_codec (sp_codec Y)" using assms(10,12) by simp
  moreover have "serialize (sp_codec Y) (RouteChannelEnd (cg_tag cgw) 0) = Some frame"
    using assms(8) by (simp add: assms(12,15))
  ultimately have "results (cl_app (cl_deliver (sdk_env Y) (map concat ?frames) cw)) = results (cl_app cw) @
      [(receiver, end_result 0 (c\<lparr>node_id_to_response := collect (answer_responses rs) (node_id_to_response c)\<rparr>))]"
    using client_collects(1) [OF assms(14) _ msg assms(9) answers_agree [OF assms(13)], of 0 frame "sg_next_sequence gw"]
    by (simp add: assms(15))
  moreover have "collect (answer_responses rs) [] = successful rs"
    using collect_distinct [OF answer_distinct [OF assms(5)], of "[]"] by (simp add: successful_def)
  ultimately show ?thesis by (simp add: sent end_result_def assms(16))
qed

text \<open>
  C1. A command end to end. Once every node has answered, in whatever order, and the frames of
  the session have been delivered, the receiver has been given exactly one result more: success,
  with the response of each node that answered successfully and of no other node.
\<close>

theorem command_end_to_end:
  fixes w :: "('c, 'r, (client_id \<times> bytes list) list, 'cy) daemon"
  assumes "daemon_inv w" and "find_fsm i w = Some f" and "gateways w (fsm_gateway f) = Some gw"
    and "rs \<noteq> []" and "distinct (map fst rs)" and "set (map fst rs) = fst ` set (node_id_to_op f)"
    and "\<And>sq k. serialize (xp_codec X) (RouteChannelMsg (sg_tag gw) sq (ch_service_id (fsm_channel f)) k) =
                Some (ser (RouteChannelMsg (sg_tag gw) sq (ch_service_id (fsm_channel f)) k))"
    and "serialize (xp_codec X) (RouteChannelEnd (sg_tag gw) 0) = Some frame"
    and "\<And>r. length (ser r) < 2 ^ 32" and "dsdl_codec (xp_codec X)" and "delivers X"
    and "sp_codec Y = xp_codec X" and "responses_agree X Y rs"
    and "client_session j c cgw receiver cw" and "cg_tag cgw = sg_tag gw" and "node_id_to_response c = []"
  shows "results (cl_app (cl_deliver (sdk_env Y)
           (map (concat \<circ> snd) (drop (length (server_pipe w)) (server_pipe (answers X i rs w)))) cw)) =
         results (cl_app cw) @ [(receiver, Success (successful rs))]"
  by (rule command_delivered [OF assms])

end
