(* ===== verification/Sample_Codec.thy ===== *)
theory Sample_Codec
  imports Ipc_Types
begin

text \<open>
  A concrete codec for the routing messages, so that the development's hypotheses about generated
  code can be seen to hold: one tag byte, then the fields in little-endian order. It is no model
  of the generated code, which every definition takes as an argument.
\<close>

fun sample_serialize :: "route \<Rightarrow> bytes option" where
  "sample_serialize RouteEmpty = Some [0]"
| "sample_serialize (RouteConnect major minor e) =
     (if - (2 ^ 31) \<le> e \<and> e < 2 ^ 31
      then Some (1 # major # minor # le_bytes 4 (unat (of_int e :: u32))) else None)"
| "sample_serialize (RouteChannelMsg tag sequence service_id n) =
     Some (2 # le_bytes 8 (unat tag) @ le_bytes 8 (unat sequence) @ le_bytes 8 (unat service_id) @
           le_bytes 8 (unat n))"
| "sample_serialize (RouteChannelEnd tag e) =
     (if - (2 ^ 31) \<le> e \<and> e < 2 ^ 31
      then Some (3 # le_bytes 8 (unat tag) @ le_bytes 4 (unat (of_int e :: u32))) else None)"

definition get_u64 :: "nat \<Rightarrow> bytes \<Rightarrow> u64" where
  "get_u64 k bs = of_nat (le_nat (take 8 (drop k bs)))"

definition get_i32 :: "nat \<Rightarrow> bytes \<Rightarrow> int" where
  "get_i32 k bs = sint (of_nat (le_nat (take 4 (drop k bs))) :: u32)"

definition sample_deserialize :: "bytes \<Rightarrow> route option" where
  "sample_deserialize bs =
     (case bs of
        [] \<Rightarrow> None
      | t # r \<Rightarrow>
          (if t = 0 then Some RouteEmpty
           else if t = 1 then (if length r < 6 then None else Some (RouteConnect (r ! 0) (r ! 1) (get_i32 2 r)))
           else if t = 2 then
             (if length r < 32 then None
              else Some (RouteChannelMsg (get_u64 0 r) (get_u64 8 r) (get_u64 16 r) (get_u64 24 r)))
           else if t = 3 then (if length r < 12 then None else Some (RouteChannelEnd (get_u64 0 r) (get_i32 8 r)))
           else None))"

definition sample_codec :: codec where
  "sample_codec = \<lparr>serialize = sample_serialize, deserialize = sample_deserialize\<rparr>"

lemma sample_codec_simps [simp]:
  "serialize sample_codec = sample_serialize" "deserialize sample_codec = sample_deserialize"
  by (simp_all add: sample_codec_def)

lemma get_u64_at:
  "length p = k \<Longrightarrow> get_u64 k (p @ le_bytes 8 (unat x) @ rest) = x"
  by (simp add: get_u64_def le_nat_u64)

lemma get_i32_at:
  assumes "length p = k" and "- (2 ^ 31) \<le> e" and "e < 2 ^ 31"
  shows "get_i32 k (p @ le_bytes 4 (unat (of_int e :: u32)) @ rest) = e"
proof -
  have "sint (of_int e :: u32) = e"
    using assms(2,3) by (simp add: signed_of_int signed_take_bit_int_eq_self)
  with assms(1) show ?thesis by (simp add: get_i32_def le_nat_u32)
qed

lemma sample_dsdl_codec: "dsdl_codec sample_codec"
proof -
  have "sample_deserialize (p @ rest) = Some r" if "sample_serialize r = Some p" for r p rest
  proof (cases r)
    case (RouteConnect major minor e)
    with that get_i32_at [of "[major, minor]" 2 e rest] show ?thesis
      by (auto simp: sample_deserialize_def split: if_splits)
  next
    case (RouteChannelMsg tag sq sid n)
    with that get_u64_at [of "[]" 0 tag] get_u64_at [of "le_bytes 8 (unat tag)" 8 sq]
      get_u64_at [of "le_bytes 8 (unat tag) @ le_bytes 8 (unat sq)" 16 sid]
      get_u64_at [of "le_bytes 8 (unat tag) @ le_bytes 8 (unat sq) @ le_bytes 8 (unat sid)" 24 n rest]
    show ?thesis by (auto simp: sample_deserialize_def simp del: le_bytes.simps)
  next
    case (RouteChannelEnd tag e)
    with that get_u64_at [of "[]" 0 tag] get_i32_at [of "le_bytes 8 (unat tag)" 8 e rest] show ?thesis
      by (auto simp: sample_deserialize_def simp del: le_bytes.simps split: if_splits)
  qed (use that in \<open>auto simp: sample_deserialize_def\<close>)
  then show ?thesis by (simp add: dsdl_codec_def)
qed

end
