(* ===== verification/Scenarios.thy ===== *)
theory Scenarios
  imports Exec_Cmd_Life Sample_Codec
begin

text \<open>
  Concrete runs of the daemon: an environment whose pipe and library record what they are asked
  to do, the states of a short session, and the development's theorems applied there, so that
  their hypotheses are seen to hold together.
\<close>

subsection \<open>An environment that records\<close>

definition sample_des_request :: "bytes \<Rightarrow> exec_request option" where
  "sample_des_request bs =
     (case bs of
        [] \<Rightarrow> None
      | cmd # nodes \<Rightarrow>
          Some \<lparr>timeout_us = 1000, node_ids = map ucast nodes, req_command = ucast cmd, req_parameter = []\<rparr>)"

definition sample_ser_response :: "exec_response \<Rightarrow> bytes option" where
  "sample_ser_response r = Some (ucast (res_node_id r) # res_status r # res_output r)"

datatype cyphal_action = MadeClient u16 | Requested u16 u64 u16 | DroppedPromise u16 | DroppedClient u16

type_synonym sent = "(client_id \<times> bytes list) list"

text \<open>Node 9 cannot be reached: its client is made, its request fails.\<close>

definition sample_params :: "(u16, u16, sent, cyphal_action list) exec_params" where
  "sample_params = \<lparr>
     xp_pipe_send = (\<lambda>c ps p. (0, p @ [(c, ps)])),
     xp_codec = sample_codec,
     xp_des_request = sample_des_request,
     xp_ser_response = sample_ser_response,
     xp_set_order = remdups,
     cy_now = (\<lambda>_. 500),
     cy_makeClient = (\<lambda>n cy. (Inr n, cy @ [MadeClient n])),
     cy_request = (\<lambda>n d m p cy. if n = 9 then (Inl CapacityError, cy) else (Inr n, cy @ [Requested n d m])),
     cy_dropPromise = (\<lambda>n cy. cy @ [DroppedPromise n]),
     cy_dropClient = (\<lambda>n cy. cy @ [DroppedClient n])\<rparr>"

type_synonym sample_daemon = "(u16, u16, sent, cyphal_action list) daemon"

definition channel_msg :: "u64 \<Rightarrow> u64 \<Rightarrow> bytes \<Rightarrow> bytes" where
  "channel_msg tag sequence payload =
     the (sample_serialize (RouteChannelMsg tag sequence 42 (of_nat (length payload)))) @ payload"

definition w_start :: sample_daemon where "w_start = daemon_initial 42 [] []"

text \<open>Client 7 has connected.\<close>

definition w_connected :: sample_daemon where
  "w_connected = w_start\<lparr>client_id_to_map_of_gateways := Map.empty(7 \<mapsto> []),
                         server_pipe := [(7, [[1, 0, 1, 0, 0, 0, 0]])]\<rparr>"

text \<open>It has a session, under its tag 5, that waits for nodes 21 and 20.\<close>

definition open_gateway :: "u64 server_gateway" where
  "open_gateway = \<lparr>sg_tag = 5, sg_client_id = 7, sg_next_sequence = 0, sg_event_handler = Some 0,
                   sg_completion_error_code = 0, sg_use_count = 1\<rparr>"

abbreviation open_fsm :: "(u16, u16) fsm" where
  "open_fsm \<equiv> new_fsm 42 [(21, 21, 21), (20, 20, 20)] 0"

definition w_open :: sample_daemon where
  "w_open = w_connected\<lparr>client_id_to_map_of_gateways := Map.empty(7 \<mapsto> [(5, 0)]),
                        gateways := Map.empty(0 \<mapsto> open_gateway), next_gateway := 1,
                        app := \<lparr>next_fsm_id = 1, id_to_fsm = Map.empty(0 \<mapsto> open_fsm),
                                presentation = [MadeClient 21, Requested 21 1500 1, MadeClient 20, Requested 20 1500 1]\<rparr>\<rparr>"

lemmas w_defs = w_start_def w_connected_def w_open_def daemon_initial_def registerChannelFactory_def ServerRouter_make_def

lemma w_open_simps [simp]:
  "find_fsm i w_open = (if i = 0 then Some open_fsm else None)"
  "gateways w_open g = (if g = 0 then Some open_gateway else None)"
  "find_gateway c t w_open = (if c = 7 \<and> t = 5 then Some 0 else None)"
  "client_id_to_map_of_gateways w_open c = (if c = 7 then Some [(5, 0)] else None)"
  "next_gateway w_open = 1"
  "fsm_owners (app w_open) g = (if g = 0 then 1 else 0)"
  by (simp_all add: w_defs find_fsm_def find_gateway_def fsm_owners_def)

lemma w_connected_simps [simp]:
  "find_fsm i w_connected = None" "gateways w_connected g = None" "find_gateway c t w_connected = None"
  "client_id_to_map_of_gateways w_connected c = (if c = 7 then Some [] else None)"
  "app w_connected = \<lparr>next_fsm_id = 0, id_to_fsm = Map.empty, presentation = []\<rparr>"
  by (simp_all add: w_defs find_fsm_def find_gateway_def)

lemma sample_xp [simp]:
  "xp_codec sample_params = sample_codec" "xp_des_request sample_params = sample_des_request"
  "xp_ser_response sample_params = sample_ser_response" "xp_set_order sample_params = remdups"
  "xp_pipe_send sample_params = (\<lambda>c ps p. (0, p @ [(c, ps)]))"
  by (simp_all add: sample_params_def)

lemma sample_frames:
  "sample_deserialize [1, 0, 1, 0, 0, 0, 0] = Some (RouteConnect 0 1 0)"
  "sample_serialize (RouteConnect 0 1 0) = Some [1, 0, 1, 0, 0, 0, 0]"
  "sample_serialize (RouteChannelEnd 5 0) = Some [3, 5, 0, 0, 0, 0, 0, 0, 0, 0, 0, 0, 0]"
  by code_simp+

lemma step_connected: "daemon_step sample_params (FromPipe (PipeMessage 7 [1, 0, 1, 0, 0, 0, 0])) w_start = Some w_connected"
  by (simp add: handlePipeMessage_def sample_frames handleRouteConnect_def send_route_def
      tryPerformOnSerialized_def send_to_pipe_def VERSION_MAJOR_def VERSION_MINOR_def w_defs
      del: sample_serialize.simps)

lemma reach_connected: "daemon_reachable sample_params (daemon_initial 42 [] []) w_connected"
  using daemon_reachable.step [OF daemon_reachable.start step_connected] by (simp add: w_start_def)

lemma inv_connected: "daemon_inv w_connected"
  by (rule daemon_step_daemon_inv [OF _ step_connected]) (simp add: w_start_def daemon_initial_inv)

lemma inv_open: "daemon_inv w_open"
  by (auto simp: daemon_inv_def sessions_ok_def session_ok_def open_gateway_def
      intro!: server_invI split: if_splits)

definition sample_ser :: "route \<Rightarrow> bytes" where
  "sample_ser r = the (sample_serialize r)"

lemma sample_ser_msg: "sample_serialize (RouteChannelMsg t q s n) = Some (sample_ser (RouteChannelMsg t q s n))"
  by (simp add: sample_ser_def)

subsection \<open>The theorems at work\<close>

theorem session_completes_witness:
  "find_fsm 0 (answers sample_params 0 [(20, Inl ResponsePromiseExpired), (21, Inr (0, [8]))] w_open) = None"
proof -
  have "find_fsm 0 (answers sample_params 0 [(20, Inl ResponsePromiseExpired), (21, Inr (0, [8]))] w_open) = None \<and>
     find_gateway (sg_client_id open_gateway) (sg_tag open_gateway)
       (answers sample_params 0 [(20, Inl ResponsePromiseExpired), (21, Inr (0, [8]))] w_open) = None \<and>
     server_pipe (answers sample_params 0 [(20, Inl ResponsePromiseExpired), (21, Inr (0, [8]))] w_open) =
       pipe_sends (exec_env0 sample_params) (sg_client_id open_gateway)
         (channel_frames sample_ser (sg_tag open_gateway) (sg_next_sequence open_gateway)
            (ch_service_id (fsm_channel open_fsm))
            (concat (map (answer_payloads sample_params) [(20, Inl ResponsePromiseExpired), (21, Inr (0, [8]))])) @
          [[[3, 5, 0, 0, 0, 0, 0, 0, 0, 0, 0, 0, 0]]])
         (server_pipe w_open)"
    by (rule session_completes [OF inv_open])
       (auto simp: open_gateway_def sample_ser_msg sample_frames simp del: sample_serialize.simps)
  then show ?thesis by (rule conjunct1)
qed

lemma w_open_sgw [simp]: "sgw_connected 0 w_open" "sgw_registered 0 w_open" "isConnected 7 w_open" "isConnected 7 w_connected"
  by (simp_all add: sgw_connected_def sgw_registered_def isConnected_def isRegisteredGateway_def open_gateway_def)

theorem server_sends_numbered_frames_witness:
  "server_pipe (snd (sgw.send_all (exec_env sample_params) 0 42 [[1], [2, 3]] w_open)) =
   server_pipe w_open @ [(7, [sample_ser (RouteChannelMsg 5 0 42 1), [1]]), (7, [sample_ser (RouteChannelMsg 5 1 42 2), [2, 3]])]"
  by (subst server_sends_numbered_frames [of w_open 0 open_gateway "exec_env sample_params" 42 sample_ser])
     (simp_all add: open_gateway_def sample_ser_msg del: sample_serialize.simps sgw.send_all.simps)

definition msg_frame :: bytes where
  "msg_frame = [2, 5, 0, 0, 0, 0, 0, 0, 0, 1, 0, 0, 0, 0, 0, 0, 0, 42, 0, 0, 0, 0, 0, 0, 0, 2, 0, 0, 0, 0, 0, 0, 0]"

lemma msg_frame_facts:
  "sample_serialize (RouteChannelMsg 5 1 42 2) = Some msg_frame" "length msg_frame = 33"
  "sample_ser (RouteChannelMsg 5 1 42 2) = msg_frame"
  by code_simp+

lemma msg_frame_deserialize: "sample_deserialize (msg_frame @ p) = Some (RouteChannelMsg 5 1 42 2)"
  using dsdl_codecD [OF sample_dsdl_codec, of "RouteChannelMsg 5 1 42 2" msg_frame p] msg_frame_facts(1)
  by (simp del: sample_serialize.simps)

theorem server_delivers_payload_witness:
  "handlePipeEvent (exec_env sample_params) (PipeMessage 7 (msg_frame @ [9, 9])) w_open =
   Some (let (r, w1) = exec_handler sample_params 0 (GMessage 1 [9, 9]) (gateway_share 0 w_open)
         in (r, gateway_release (exec_env sample_params) 0 w1))"
  using server_delivers_payload [of "exec_env sample_params" 5 1 42 "[9, 9]" msg_frame 7 w_open 0 open_gateway 0]
  by (simp add: sample_dsdl_codec open_gateway_def msg_frame_facts del: sample_serialize.simps)

theorem server_ignores_unsolicited_witness:
  "handlePipeEvent (exec_env sample_params) (PipeMessage 7 (msg_frame @ [9, 9])) w_connected = Some (0, w_connected)"
proof (rule server_ignores_unsolicited)
  show "deserialize (env_codec (exec_env sample_params)) (msg_frame @ [9, 9]) = Some (RouteChannelMsg 5 1 42 2)"
    by (simp only: exec_env_simps sample_xp sample_codec_simps msg_frame_deserialize)
  show "unat (2 :: u64) \<le> length (msg_frame @ [9, 9])" by (simp add: msg_frame_facts)
  show "length (msg_frame @ [9, 9]) < 2 ^ 63" by (simp add: msg_frame_facts)
  show "\<not> isConnected 7 w_connected \<or> find_gateway 7 5 w_connected = None \<and>
        (1 \<noteq> (0 :: u64) \<or> service_id_to_channel_factory w_connected 42 = None)" by simp
qed

text \<open>A prefix that announces 64 bytes, with none behind it.\<close>

definition short_frame :: bytes where
  "short_frame = [2, 5, 0, 0, 0, 0, 0, 0, 0, 1, 0, 0, 0, 0, 0, 0, 0, 42, 0, 0, 0, 0, 0, 0, 0, 64, 0, 0, 0, 0, 0, 0, 0]"

lemma short_frame_facts:
  "sample_serialize (RouteChannelMsg 5 1 42 64) = Some short_frame" "length short_frame = 33"
  by code_simp+

lemma short_frame_deserialize: "sample_deserialize short_frame = Some (RouteChannelMsg 5 1 42 64)"
  using dsdl_codecD [OF sample_dsdl_codec, of "RouteChannelMsg 5 1 42 64" short_frame "[]"] short_frame_facts(1)
  by (simp del: sample_serialize.simps)

theorem server_span_fault_witness:
  "handlePipeEvent (exec_env sample_params) (PipeMessage 7 short_frame) w_start = None"
  using server_span_fault_iff [of short_frame "exec_env sample_params" 7 w_start]
  by (simp add: short_frame_facts(2) short_frame_deserialize)

theorem server_handshake_witness: "isConnected 7 w_connected"
proof -
  have "handlePipeEvent (exec_env sample_params) (PipeMessage 7 [1, 0, 1, 0, 0, 0, 0]) w_start = Some (0, w_connected)"
    using step_connected by (simp add: handlePipeMessage_def sample_frames handleRouteConnect_def send_route_def
      tryPerformOnSerialized_def send_to_pipe_def VERSION_MAJOR_def VERSION_MINOR_def del: sample_serialize.simps)
  from server_handshake [OF _ this, of 0 1 0] show ?thesis by (simp add: sample_frames)
qed

theorem server_channel_end_witness:
  "server_pipe (gateway_release (exec_env sample_params) 0 w_open) =
   server_pipe w_open @ [(7, [[3, 5, 0, 0, 0, 0, 0, 0, 0, 0, 0, 0, 0]])]"
  using server_channel_end [of w_open 0 open_gateway "exec_env sample_params" "[3, 5, 0, 0, 0, 0, 0, 0, 0, 0, 0, 0, 0]"]
  by (simp add: open_gateway_def sample_frames del: sample_serialize.simps)

theorem server_invalid_first_payload_witness:
  "server_pipe (open_channel (exec_env sample_params) 7 5 42 [] w_connected) =
   server_pipe w_connected @ [(7, [[3, 5, 0, 0, 0, 0, 0, 0, 0, 0, 0, 0, 0]])]"
proof -
  have "run_factory (exec_env sample_params) 42 = registerChannel_factory sample_des_request
      (\<lambda>g. ExecCmdServiceImpl_call sample_params \<lparr>ch_gateway = g, ch_service_id = 42\<rparr>)"
    by (simp add: exec_factory_def)
  from server_invalid_first_payload [OF this, of "[]" 7 w_connected 5 "[3, 5, 0, 0, 0, 0, 0, 0, 0, 0, 0, 0, 0]"]
  show ?thesis by (simp add: sample_des_request_def sample_frames del: sample_serialize.simps)
qed

theorem client_ends_session_witness:
  "daemon_step sample_params (FromPipe (PipeMessage 7 [3, 5, 0, 0, 0, 0, 0, 0, 0, 0, 0, 0, 0])) w_open =
   Some (end_session sample_params 0 open_fsm (unregister_gateway 7 5 w_open))"
proof -
  have "sample_deserialize [3, 5, 0, 0, 0, 0, 0, 0, 0, 0, 0, 0, 0] = Some (RouteChannelEnd 5 0)" by code_simp
  then show ?thesis
    using client_ends_session [OF inv_open, of 0 open_fsm open_gateway sample_params] by (simp add: open_gateway_def)
qed

theorem client_disconnect_witness:
  "\<exists>w'. daemon_step sample_params (FromPipe (PipeDisconnected 7)) w_open = Some w' \<and> find_fsm 0 w' = None"
proof -
  obtain w' where w': "daemon_step sample_params (FromPipe (PipeDisconnected 7)) w_open = Some w'" by simp
  from client_disconnect [OF inv_open _ this] have "find_fsm 0 w' = None"
    by (simp add: session_client_def open_gateway_def)
  with w' show ?thesis by blast
qed

theorem daemon_reachable_inv_witness: "daemon_inv w_connected"
  by (rule daemon_reachable_inv [OF reach_connected])

theorem node_answers_witness:
  "find_fsm 0 (on_promise sample_params 0 20 (Inr (0, [])) w_open) = Some (new_fsm 42 [(21, 21, 21)] 0)"
  using node_answers [of 0 w_open open_fsm 20 "(20, 20)" 0 sample_params "Inr (0, [])"] by simp

text \<open>Two requests: node 9 of the second cannot be reached, after node 20 was asked.\<close>

definition request_frame :: "bytes \<Rightarrow> bytes" where
  "request_frame p = [2, 5, 0, 0, 0, 0, 0, 0, 0, 0, 0, 0, 0, 0, 0, 0, 0, 42, 0, 0, 0, 0, 0, 0, 0, 4, 0, 0, 0, 0, 0, 0, 0] @ p"

definition sample_request :: "u16 list \<Rightarrow> exec_request" where
  "sample_request ns = \<lparr>timeout_us = 1000, node_ids = ns, req_command = 1, req_parameter = []\<rparr>"

lemma sample_msg:
  "sample_deserialize (request_frame [1, 20, 21, 20]) = Some (RouteChannelMsg 5 0 42 4)"
  "real_payload (request_frame [1, 20, 21, 20]) 4 = Some [1, 20, 21, 20]"
  "sample_deserialize (request_frame [1, 20, 9, 22]) = Some (RouteChannelMsg 5 0 42 4)"
  "real_payload (request_frame [1, 20, 9, 22]) 4 = Some [1, 20, 9, 22]"
  "sample_des_request [1, 20, 21, 20] = Some (sample_request [20, 21, 20])"
  "sample_des_request [1, 20, 9, 22] = Some (sample_request [20, 9, 22])"
  by code_simp+

lemma sample_new_request:
  "new_request sample_params 7 (request_frame [1, 20, 21, 20]) 5 42 (sample_request [20, 21, 20]) w_connected"
  "new_request sample_params 7 (request_frame [1, 20, 9, 22]) 5 42 (sample_request [20, 9, 22]) w_connected"
  by (simp_all add: new_request_def sample_msg) (simp_all add: w_defs)

lemma remdups_order [simp]: "set_order_ok remdups"
  by (simp add: set_order_ok_def)

lemma sample_issue:
  "issue_calls sample_params 1500 (1, []) [21, 20] [] =
     (0, [(21, 21, 21), (20, 20, 20)], [MadeClient 21, Requested 21 1500 1, MadeClient 20, Requested 20 1500 1])"
  "issue_calls sample_params 1500 (1, []) [20, 9, 22] [] =
     (ENOMEM, [(20, 20, 20)], [MadeClient 20, Requested 20 1500 1, MadeClient 9, DroppedClient 9])"
  by code_simp+

lemma sample_now [simp]: "cy_now sample_params cy = 500"
  by (simp add: sample_params_def)

theorem request_opens_session_witness:
  "\<exists>w'. daemon_step sample_params (FromPipe (PipeMessage 7 (request_frame [1, 20, 21, 20]))) w_connected = Some w' \<and>
        find_fsm 0 w' = Some (new_fsm 42 [(21, 21, 21), (20, 20, 20)] (next_gateway w_connected))"
proof -
  obtain w' where w': "daemon_step sample_params (FromPipe (PipeMessage 7 (request_frame [1, 20, 21, 20]))) w_connected = Some w'"
    using new_request_step [OF sample_new_request(1)] by metis
  have "find_fsm 0 w' = Some (new_fsm 42 [(21, 21, 21), (20, 20, 20)] (next_gateway w_connected))"
    using request_opens_session [OF sample_new_request(1) _ _ _ w', of _ _ 0] sample_issue(1)
    by (simp add: sample_request_def)
  with w' show ?thesis by blast
qed

theorem request_fails_midway_witness:
  "\<exists>w'. daemon_step sample_params (FromPipe (PipeMessage 7 (request_frame [1, 20, 9, 22]))) w_connected = Some w' \<and>
        presentation (app w') = [MadeClient 20, Requested 20 1500 1, MadeClient 9, DroppedClient 9, DroppedPromise 20, DroppedClient 20]"
proof -
  obtain w' where w': "daemon_step sample_params (FromPipe (PipeMessage 7 (request_frame [1, 20, 9, 22]))) w_connected = Some w'"
    using new_request_step [OF sample_new_request(2)] by metis
  have "serialize (xp_codec sample_params) (RouteChannelEnd 5 ENOMEM) = Some (sample_ser (RouteChannelEnd 5 ENOMEM))"
    by (simp add: sample_ser_def)
  from request_fails_midway [OF sample_new_request(2) _ _ _ _ this w',
      of "[(20, 20, 20)]" "[MadeClient 20, Requested 20 1500 1, MadeClient 9, DroppedClient 9]" 0 7 5]
  have "presentation (app w') = [MadeClient 20, Requested 20 1500 1, MadeClient 9, DroppedClient 9, DroppedPromise 20, DroppedClient 20]"
    using sample_issue(2) by (simp add: sample_request_def drop_op_def sample_params_def)
  with w' show ?thesis by blast
qed

end
