(* ===== verification/Client_Scenarios.thy ===== *)
theory Client_Scenarios
  imports Command_End_To_End Scenarios
begin

text \<open>
  Concrete states of the client router and of the SDK, and the theorems about them applied there:
  a gateway of tag 5, alone or next to one that a handler lets go, then under a command client
  whose session the daemon of \<open>Scenarios\<close> serves.
\<close>

subsection \<open>A router with one gateway\<close>

type_synonym event_log = "(nat \<times> gateway_event) list"

definition log_env :: "(nat, bytes list list, event_log) client_env" where
  "log_env = \<lparr>cl_pipe_send = (\<lambda>ps p. (0, p @ [ps])), cl_codec = sample_codec,
     cl_run_handler = (\<lambda>h ev w. (0, w\<lparr>cl_app := cl_app w @ [(h, ev)]\<rparr>))\<rparr>"

definition client_gw :: "nat client_gateway" where
  "client_gw = \<lparr>cg_tag = 5, cg_next_sequence = 1, cg_event_handler = Some 0,
                cg_completion_error_code = 0, cg_use_count = 1\<rparr>"

definition one_gateway :: "bool \<Rightarrow> 'a \<Rightarrow> (nat, bytes list list, 'a) client_router" where
  "one_gateway connected a = \<lparr>next_tag = 6, is_connected = connected, map_of_gateways = [(5, 0)],
     cl_gateways = Map.empty(0 \<mapsto> client_gw), cl_next_gateway = 1, client_pipe = [], cl_app = a\<rparr>"

lemma one_gateway_simps [simp]:
  "is_connected (one_gateway b a) = b" "map_of_gateways (one_gateway b a) = [(5, 0)]"
  "cl_gateways (one_gateway b a) g = (if g = 0 then Some client_gw else None)"
  "cl_find t (one_gateway b a) = (if t = 5 then Some 0 else None)"
  "client_pipe (one_gateway b a) = []" "cl_app (one_gateway b a) = a" "cl_next_gateway (one_gateway b a) = 1"
  by (simp_all add: one_gateway_def cl_find_def)

lemma client_gw_simps [simp]:
  "cg_tag client_gw = 5" "cg_next_sequence client_gw = 1" "cg_event_handler client_gw = Some 0"
  "cg_completion_error_code client_gw = 0" "cg_use_count client_gw = 1"
  by (simp_all add: client_gw_def)

lemma log_env_simps [simp]:
  "cl_codec log_env = sample_codec" "cl_pipe_send log_env = (\<lambda>ps p. (0, p @ [ps]))"
  "cl_run_handler log_env h ev w = (0, w\<lparr>cl_app := cl_app w @ [(h, ev)]\<rparr>)"
  by (simp_all add: log_env_def)

lemma one_gateway_inv: "client_inv (\<lambda>_ _. 0) (\<lambda>g. if g = 0 then 1 else 0) (one_gateway b a)"
  by (rule client_invI) (auto split: if_splits)

subsection \<open>The router's theorems at work\<close>

theorem client_refuses_before_handshake_witness:
  "snd (cgw.send_all log_env 0 42 [[1], [2]] (one_gateway False [])) = one_gateway False []"
  by (rule client_refuses_before_handshake [THEN conjunct1]) (simp_all add: cl_alive_def)

theorem client_channel_end_witness:
  "client_pipe (cl_release log_env 0 (one_gateway True [])) = [[[3, 5, 0, 0, 0, 0, 0, 0, 0, 0, 0, 0, 0]]]"
  using client_channel_end [of "one_gateway True []" 0 client_gw log_env "[3, 5, 0, 0, 0, 0, 0, 0, 0, 0, 0, 0, 0]"]
  by (simp add: sample_frames del: sample_serialize.simps)

text \<open>
  Two gateways, of which the application owns the second one, under handlers that note what they
  are told; the handler of the first lets the other gateway go as soon as it is told anything.
\<close>

type_synonym owning_app = "gateway_id option \<times> event_log"

definition quiet_env :: "(nat, bytes list list, owning_app) client_env" where
  "quiet_env = \<lparr>cl_pipe_send = (\<lambda>ps p. (0, p @ [ps])), cl_codec = sample_codec, cl_run_handler = (\<lambda>h ev w. (0, w))\<rparr>"

definition dropping_env :: "(nat, bytes list list, owning_app) client_env" where
  "dropping_env = quiet_env\<lparr>cl_run_handler := (\<lambda>h ev w.
     let (pointer, log) = cl_app w; log = log @ [(h, ev)]
     in (0, case pointer of
              None \<Rightarrow> w\<lparr>cl_app := (None, log)\<rparr>
            | Some g \<Rightarrow> (if h = 0 then cl_release quiet_env g (w\<lparr>cl_app := (None, log)\<rparr>) else w\<lparr>cl_app := (pointer, log)\<rparr>)))\<rparr>"

lemma dropping_env_simps [simp]: "cl_codec dropping_env = sample_codec" "cl_pipe_send dropping_env = (\<lambda>ps p. (0, p @ [ps]))"
  by (simp_all add: dropping_env_def quiet_env_def)

fun app_pointers :: "owning_app \<Rightarrow> gateway_id \<Rightarrow> nat" where
  "app_pointers (pointer, log) g = (if pointer = Some g then 1 else 0)"

lemma dropping_app: "client_app dropping_env app_pointers"
proof
  fix H h ev and w :: "(nat, bytes list list, owning_app) client_router"
  assume inv: "client_inv app_pointers H w"
  obtain pointer log where app: "cl_app w = (pointer, log)" by (cases "cl_app w")
  have keep: "client_inv app_pointers H (w\<lparr>cl_app := (pointer, log')\<rparr>)" for log'
    by (rule client_inv_cong [OF inv]) (auto simp: app fun_eq_iff)
  have drop: "client_inv app_pointers H (cl_release quiet_env g (w\<lparr>cl_app := (None, log')\<rparr>))" if "pointer = Some g" for g log'
  proof -
    have "client_inv app_pointers (H(g := H g + 1)) (w\<lparr>cl_app := (None, log')\<rparr>)"
      by (rule client_inv_move [OF inv]) (use that client_invD(1) [OF inv] in \<open>auto simp: app cl_find_def\<close>)
    from cl_release_inv [OF this, of g quiet_env] show ?thesis by simp
  qed
  show "client_inv app_pointers H (snd (cl_run_handler dropping_env h ev w))"
    using keep drop by (auto simp: dropping_env_def app Let_def split: option.split)
qed

definition two_gateways :: "(nat, bytes list list, owning_app) client_router" where
  "two_gateways = \<lparr>next_tag = 7, is_connected = False, map_of_gateways = [(5, 0), (6, 1)],
     cl_gateways = Map.empty(0 \<mapsto> client_gw, 1 \<mapsto> client_gw\<lparr>cg_tag := 6, cg_event_handler := Some 1\<rparr>),
     cl_next_gateway = 2, client_pipe = [], cl_app = (Some 1, [])\<rparr>"

lemma two_gateways_inv: "client_inv app_pointers (\<lambda>g. if g = 0 then 1 else 0) two_gateways"
  by (rule client_invI) (auto simp: two_gateways_def cl_find_def split: if_splits)

text \<open>The second handler is told too, and only then is its gateway gone, which is told to the server.\<close>

theorem client_handshake_tells_all_witness:
  "\<exists>w'. cl_handlePipeEvent dropping_env (ClPipeMessage [1, 0, 1, 0, 0, 0, 0]) two_gateways = Some (0, w') \<and>
        cl_app w' = (None, [(0, GConnected), (1, GConnected)]) \<and> cl_gateways w' 1 = None \<and>
        client_pipe w' = [[[3, 6, 0, 0, 0, 0, 0, 0, 0, 0, 0, 0, 0]]]"
proof -
  have "deserialize (cl_codec dropping_env) [1, 0, 1, 0, 0, 0, 0] = Some (RouteConnect 0 1 0)"
    by (simp add: sample_frames)
  from client_handshake_tells_all [OF dropping_app two_gateways_inv this] obtain w' where
    told: "gateways_told dropping_env GConnected [0, 1] (with_counts (+) [0, 1] (two_gateways\<lparr>is_connected := True\<rparr>)) w'"
    and step: "cl_handlePipeEvent dropping_env (ClPipeMessage [1, 0, 1, 0, 0, 0, 0]) two_gateways =
      Some (0, release_all dropping_env [0, 1] w')"
    by (auto simp: two_gateways_def)
  let ?gw1 = "client_gw\<lparr>cg_tag := 6, cg_event_handler := Some 1\<rparr>"
  have w': "cl_app w' = (None, [(0, GConnected), (1, GConnected)])" "cl_gateways w' 0 = Some (client_gw\<lparr>cg_use_count := 2\<rparr>)"
    "cl_gateways w' 1 = Some ?gw1" "map_of_gateways w' = [(5, 0), (6, 1)]" "is_connected w'" "client_pipe w' = []"
    using told
    by (simp_all add: gateways_told_simps two_gateways_def with_counts_def dropping_env_def cl_release_def cl_update_gateway_def
        client_gw_def quiet_env_def)
  have "cl_release dropping_env 0 w' = cl_update_gateway 0 (\<lambda>gw. gw\<lparr>cg_use_count := cg_use_count gw - 1\<rparr>) w'"
    using w' by (simp add: cl_release_def)
  then have "release_all dropping_env [0, 1] w' = cl_onGatewayDisposal dropping_env 6 True 0
      ((cl_update_gateway 0 (\<lambda>gw. gw\<lparr>cg_use_count := cg_use_count gw - 1\<rparr>) w')\<lparr>cl_gateways :=
        (cl_gateways (cl_update_gateway 0 (\<lambda>gw. gw\<lparr>cg_use_count := cg_use_count gw - 1\<rparr>) w'))(1 := None)\<rparr>)"
    using w' by (simp add: cl_release_def)
  moreover have "sample_serialize (RouteChannelEnd 6 0) = Some [3, 6, 0, 0, 0, 0, 0, 0, 0, 0, 0, 0, 0]" by code_simp
  ultimately show ?thesis using step w'
    by (simp add: cl_onGatewayDisposal_def cl_isRegisteredGateway_def cl_find_def cl_send_route_def tryPerformOnSerialized_def
        cl_send_to_pipe_def Let_def cl_update_gateway_def del: sample_serialize.simps)
qed

text \<open>The frame of the client's second message, of two bytes.\<close>

lemma msg_frame_1: "sample_serialize (RouteChannelMsg 5 1 42 2) = Some msg_frame" "length msg_frame = 33"
  by (rule msg_frame_facts)+

theorem client_to_server_roundtrip_witness:
  "\<exists>parts. client_pipe (snd (cl_gateway_send log_env 0 42 [9, 9] (one_gateway True []))) = [parts] \<and>
     handlePipeEvent (exec_env sample_params) (PipeMessage 7 (concat parts)) w_open =
       Some (let (r, w1) = exec_handler sample_params 0 (GMessage 1 [9, 9]) (gateway_share 0 w_open)
             in (r, gateway_release (exec_env sample_params) 0 w1))"
  using client_to_server_roundtrip [of "one_gateway True []" 0 client_gw log_env "exec_env sample_params"
      42 "[9, 9]" msg_frame 7 w_open 0 open_gateway 0]
  by (simp add: cl_isRegisteredGateway_def sample_dsdl_codec msg_frame_1 open_gateway_def del: sample_serialize.simps)

definition reply_frame :: bytes where
  "reply_frame = [2, 5, 0, 0, 0, 0, 0, 0, 0, 0, 0, 0, 0, 0, 0, 0, 0, 42, 0, 0, 0, 0, 0, 0, 0, 2, 0, 0, 0, 0, 0, 0, 0]"

lemma reply_frame_facts: "sample_serialize (RouteChannelMsg 5 0 42 2) = Some reply_frame" "length reply_frame = 33"
  by code_simp+

theorem server_to_client_roundtrip_witness:
  "\<exists>parts. server_pipe (snd (gateway_send (exec_env sample_params) 0 42 [9, 9] w_open)) = server_pipe w_open @ [(7, parts)] \<and>
     cl_handlePipeEvent log_env (ClPipeMessage (concat parts)) (one_gateway True []) =
       Some (let (r, w1) = cl_run_handler log_env 0 (GMessage 0 [9, 9]) (cl_share 0 (one_gateway True []))
             in (r, cl_release log_env 0 w1))"
  using server_to_client_roundtrip [of w_open 0 open_gateway log_env "exec_env sample_params"
      42 "[9, 9]" reply_frame "one_gateway True []" 0 client_gw 0]
  by (simp add: open_gateway_def isRegisteredGateway_def sample_dsdl_codec reply_frame_facts del: sample_serialize.simps)

subsection \<open>A command\<close>

definition sample_des_response :: "bytes \<Rightarrow> exec_response option" where
  "sample_des_response bs = (case bs of
     n # st # out \<Rightarrow> Some \<lparr>res_node_id = ucast n, res_status = st, res_output = out\<rparr> | _ \<Rightarrow> None)"

definition sample_sdk_params :: "bytes list list sdk_params" where
  "sample_sdk_params = \<lparr>sp_pipe_send = (\<lambda>ps p. (0, p @ [ps])), sp_codec = sample_codec,
     sp_ser_request = (\<lambda>q. Some (ucast (req_command q) # map ucast (node_ids q))), sp_des_response = sample_des_response\<rparr>"

definition waiting_client :: exec_client where
  "waiting_client = \<lparr>ec_request = sample_request [21, 20], ec_channel = \<lparr>ch_gateway = 0, ch_service_id = 42\<rparr>,
     ec_receiver = Some 3, node_id_to_response = []\<rparr>"

definition sdk_waiting :: "bytes list list sdk" where
  "sdk_waiting = one_gateway True \<lparr>exec_clients = Map.empty(0 \<mapsto> waiting_client), next_exec_client = 1, results = []\<rparr>"

theorem sdk_disconnect_fails_commands_witness:
  "\<exists>w'. cl_handlePipeEvent (sdk_env sample_sdk_params) ClPipeDisconnected sdk_waiting = Some (0, w') \<and>
        results (cl_app w') = [(3, Failure ErrorCode_Disconnected)] \<and> map_of_gateways w' = []"
  using sdk_disconnect_fails_commands [where X = sample_sdk_params, OF one_gateway_inv [of True], folded sdk_waiting_def]
  by (simp add: sdk_waiting_def receivers_at_def handler_at_def find_client_def waiting_client_def)

definition total_ser :: "route \<Rightarrow> bytes" where
  "total_ser r = (case sample_serialize r of None \<Rightarrow> [] | Some p \<Rightarrow> p)"

lemma total_ser_short: "length (total_ser r) < 2 ^ 32"
  by (cases r) (simp_all add: total_ser_def)

theorem command_end_to_end_witness:
  "results (cl_app (cl_deliver (sdk_env sample_sdk_params)
     (map (concat \<circ> snd) (drop (length (server_pipe w_open)) (server_pipe
        (answers sample_params 0 [(20, Inl ResponsePromiseExpired), (21, Inr (0, [8]))] w_open)))) sdk_waiting)) =
   [(3, Success [(21, \<lparr>nr_status = 0, nr_output = [8]\<rparr>)])]"
proof -
  let ?rs = "[(20, Inl ResponsePromiseExpired), (21, Inr (0, [8]))] :: (u16 \<times> (cy_error + u8 \<times> bytes)) list"
  have agree: "responses_agree sample_params sample_sdk_params ?rs"
    by (simp add: responses_agree_def answer_responses_def sample_ser_response_def sample_sdk_params_def sample_des_response_def)
  have session: "client_session 0 waiting_client client_gw 3 sdk_waiting"
    by (simp add: client_session_def sdk_waiting_def find_client_def waiting_client_def)
  have ser: "serialize (xp_codec sample_params) (RouteChannelMsg t q s n) = Some (total_ser (RouteChannelMsg t q s n))" for t q s n
    by (simp add: total_ser_def)
  have "results (cl_app (cl_deliver (sdk_env sample_sdk_params)
     (map (concat \<circ> snd) (drop (length (server_pipe w_open)) (server_pipe (answers sample_params 0 ?rs w_open)))) sdk_waiting)) =
     results (cl_app sdk_waiting) @ [(3, Success (successful ?rs))]"
    by (rule command_end_to_end [OF inv_open _ _ _ _ _ ser _ total_ser_short _ _ _ agree session,
          where f = open_fsm and gw = open_gateway and frame = "[3, 5, 0, 0, 0, 0, 0, 0, 0, 0, 0, 0, 0]"])
       (auto simp: open_gateway_def sample_frames sample_dsdl_codec delivers_def sample_sdk_params_def waiting_client_def
          simp del: sample_serialize.simps)
  also have "results (cl_app sdk_waiting) = []" by (simp add: sdk_waiting_def)
  also have "successful ?rs = [(21, \<lparr>nr_status = 0, nr_output = [8]\<rparr>)]"
    by (simp add: successful_def answer_responses_def response_of_def)
  finally show ?thesis by (simp only: append_Nil)
qed

theorem negative_timeout_not_clamped_witness:
  "int (unat (timeout_us (command_request [21] COMMAND_RESTART [] (- 1)))) = 2 ^ 64 + (- 1)"
  by (rule negative_timeout_not_clamped) simp_all

end
