(* ===== verification/Sample_Kernel.thy ===== *)
theory Sample_Kernel
  imports Daemon_Sockets Client_Sockets Client_Scenarios
begin

text \<open>
  A concrete kernel, so that the hypotheses about kernels can be seen to hold: it numbers its
  descriptors upwards, has some connections waiting, and one stream that never fills up. Then the
  theorems about sockets applied to it.
\<close>

record sample_kernel =
  sk_next :: nat
  sk_open :: "int list"
  sk_waiting :: nat
  sk_stream :: bytes

definition sample_open :: "sample_kernel \<Rightarrow> int \<times> sample_kernel" where
  "sample_open k = (int (sk_next k),
     k\<lparr>sk_next := sk_next k + 1, sk_open := int (sk_next k) # filter (\<lambda>fd. fd < int (sk_next k)) (sk_open k)\<rparr>)"

definition sample_posix :: "sample_kernel posix" where
  "sample_posix = \<lparr>
     sys_socket = (\<lambda>family ty k. let (fd, k') = sample_open k in (Ret fd, k')),
     sys_fcntl_nonblock = (\<lambda>fd k. (Ret (), k)),
     sys_setsockopt = (\<lambda>fd opt v k. (Ret (), k)),
     sys_bind = (\<lambda>fd sa n k. (Ret (), k)),
     sys_connect = (\<lambda>fd sa n k. (Err EINPROGRESS, k)),
     sys_listen = (\<lambda>fd n k. (Ret (), k)),
     sys_accept = (\<lambda>fd n k. if sk_waiting k = 0 then (Err EAGAIN, k)
        else (let (fd', k') = sample_open k in (Ret (fd', Sockaddr_In 0 [127, 0, 0, 1], 16), k'\<lparr>sk_waiting := sk_waiting k - 1\<rparr>))),
     sys_so_error = (\<lambda>fd k. (Ret 0, k)),
     sys_send = (\<lambda>fd bs k. (Ret (length bs), k\<lparr>sk_stream := sk_stream k @ bs\<rparr>)),
     sys_recv = (\<lambda>fd n k. (if sk_stream k = [] then Err EAGAIN else Ret (take n (sk_stream k)),
                           k\<lparr>sk_stream := drop n (sk_stream k)\<rparr>)),
     sys_close = (\<lambda>fd k. (Ret (), k\<lparr>sk_open := filter (\<lambda>fd'. fd' \<noteq> fd) (sk_open k)\<rparr>))\<rparr>"

definition sample_fds :: "sample_kernel \<Rightarrow> int set" where
  "sample_fds k = {fd. fd \<in> set (sk_open k) \<and> fd < int (sk_next k)}"

lemma sample_open_opens:
  "sample_open k = (fd, k') \<Longrightarrow> 0 \<le> fd \<and> fd \<notin> sample_fds k \<and> sample_fds k' = insert fd (sample_fds k)"
  by (auto simp: sample_open_def sample_fds_def)

lemma sample_posix_fds: "posix_fds sample_posix sample_fds"
proof -
  have w: "sample_fds (k\<lparr>sk_waiting := n\<rparr>) = sample_fds k" "sample_fds (k\<lparr>sk_stream := bs\<rparr>) = sample_fds k" for k n bs
    by (simp_all add: sample_fds_def)
  have c: "sample_fds (k\<lparr>sk_open := filter (\<lambda>fd'. fd' \<noteq> fd) (sk_open k)\<rparr>) = sample_fds k - {fd}" for k fd
    by (auto simp: sample_fds_def)
  show ?thesis
    unfolding posix_fds_def opens_fd_def keeps_fds_def
    by (auto simp: sample_posix_def w c split: prod.split dest: sample_open_opens)
qed

lemma sample_stream: "stream_sends sample_posix sk_stream fd" "stream_receives sample_posix sk_stream fd"
  by (simp_all add: stream_sends_def stream_receives_def sample_posix_def)

definition k_start :: sample_kernel where
  "k_start = \<lparr>sk_next = 5, sk_open = [0, 1, 2], sk_waiting = 1, sk_stream = []\<rparr>"

definition kernel_params :: "(u16, u16, sample_kernel socket_server, cyphal_action list) exec_params" where
  "kernel_params = \<lparr>
     xp_pipe_send = pipe_over_sockets sample_posix, xp_codec = sample_codec,
     xp_des_request = sample_des_request, xp_ser_response = sample_ser_response, xp_set_order = remdups,
     cy_now = cy_now sample_params, cy_makeClient = cy_makeClient sample_params, cy_request = cy_request sample_params,
     cy_dropPromise = cy_dropPromise sample_params, cy_dropClient = cy_dropClient sample_params\<rparr>"

definition sample_address :: socket_address where
  "sample_address = \<lparr>is_wildcard = False, addr_len = 16, addr_storage = Sockaddr_In (htons 9875) [127, 0, 0, 1]\<rparr>"

definition d_start :: "(u16, u16, sample_kernel socket_server, cyphal_action list) daemon" where
  "d_start = daemon_initial 42 (SocketServer_make sample_address k_start) []"

definition d_listening :: "(u16, u16, sample_kernel socket_server, cyphal_action list) daemon" where
  "d_listening = snd (the (ServerRouter_start sample_posix d_start))"

definition d_accepted :: "(u16, u16, sample_kernel socket_server, cyphal_action list) daemon" where
  "d_accepted = the (handleAccept sample_posix (exec_env kernel_params) d_listening)"

lemma sample_calls [simp]:
  "posixSyscall (sys_socket sample_posix family ty) k = Some (Ret (fst (sample_open k)), snd (sample_open k))"
  "posixSyscallError (sys_fcntl_nonblock sample_posix fd) k = Some (0, k)"
  "posixSyscallError (sys_setsockopt sample_posix fd opt v) k = Some (0, k)"
  "posixSyscallError (sys_bind sample_posix fd sa n) k = Some (0, k)"
  "posixSyscallError (sys_connect sample_posix fd sa n) k = Some (EINPROGRESS, k)"
  "posixSyscallError (sys_listen sample_posix fd m) k = Some (0, k)"
  "posixSyscall (sys_so_error sample_posix fd) k = Some (Ret 0, k)"
  "posixSyscallError (sys_send sample_posix fd bs) k = Some (0, k\<lparr>sk_stream := sk_stream k @ bs\<rparr>)"
  by (simp_all add: sample_posix_def posixSyscallError_def posixSyscall_now split: prod.split)

lemma d_listening_run: "ServerRouter_start sample_posix d_start = Some (0, d_listening)"
  by (simp add: d_listening_def ServerRouter_start_def SocketServer_start_def server_makeSocketHandle_def
      SocketAddress_socket_def SocketAddress_bind_def configureNoDelay_def Let_def bind_eq_Some_conv
      d_start_def daemon_initial_def registerChannelFactory_def ServerRouter_make_def SocketServer_make_def
      sample_address_def isAnyInet_def SOCK_STREAM_def OwnFd_assign_def)

lemma sample_accept:
  "SocketAddress_accept sample_posix a fd k =
     (if sk_waiting k = 0 then Some (None, a\<lparr>addr_len := sizeof_storage\<rparr>, k)
      else Some (Some (fst (sample_open k)), a\<lparr>addr_len := 16, addr_storage := Sockaddr_In 0 [127, 0, 0, 1]\<rparr>,
                 (snd (sample_open k))\<lparr>sk_waiting := sk_waiting k - 1\<rparr>))"
  by (subst SocketAddress_accept.simps)
     (simp add: sample_posix_def [THEN arg_cong, of sys_accept] accepted_def configureNoDelay_def Let_def split: prod.split)

lemma d_listening_pipe:
  "server_pipe d_listening = \<lparr>server_fd = 5, server_address = sample_address, unique_client_id_counter = 0,
     accept_callback = Some 5, client_id_to_context = Map.empty,
     ss_kernel = k_start\<lparr>sk_next := 6, sk_open := [5, 0, 1, 2]\<rparr>\<rparr>"
  by (simp add: d_listening_def ServerRouter_start_def SocketServer_start_def server_makeSocketHandle_def
      SocketAddress_socket_def SocketAddress_bind_def configureNoDelay_def Let_def bind_eq_Some_conv
      d_start_def daemon_initial_def registerChannelFactory_def ServerRouter_make_def SocketServer_make_def
      sample_address_def isAnyInet_def SOCK_STREAM_def OwnFd_assign_def OwnFd_destroy_def OwnFd_reset_def
      sample_open_def k_start_def)

lemma d_accepted_run: "handleAccept sample_posix (exec_env kernel_params) d_listening = Some d_accepted"
  by (simp add: d_accepted_def handleAccept_def accept_client_def sample_accept Let_def d_listening_pipe k_start_def)

subsection \<open>The theorems at work\<close>

definition ready_state :: socket_state where
  "ready_state = socket_state_default\<lparr>st_fd := 6\<rparr>"

lemma ready_phase [simp]: "read_phase ready_state = Header" "st_fd ready_state = 6"
  by (simp_all add: ready_state_def socket_state_default_def)

theorem message_roundtrip_witness:
  "\<exists>k1 k2. SocketBase_send sample_posix ready_state [[1, 2], [3]] k_start = Some (0, k1) \<and> sk_stream k2 = [] \<and>
    (\<forall>rd wr action w. rd w = (ready_state, k1) \<longrightarrow> receiveMessage sample_posix rd wr action w =
      action (concat [[1, 2], [3]])
        (wr (ready_state\<lparr>read_msg_size := length (concat [[1, 2], [3 :: u8]]), read_phase := Header\<rparr>, k2) w))"
  by (rule message_roundtrip [OF sample_stream]) (simp_all add: k_start_def MsgMaxSize_def)

theorem messages_in_order_witness:
  "\<exists>k1 st k2. send_messages sample_posix ready_state [[[1], [2]], [[3]]] k_start = Some k1 \<and>
    receive_messages sample_posix (length [[[1], [2]], [[3 :: u8]]]) ready_state k1 = Some (map concat [[[1], [2]], [[3]]], st, k2) \<and>
    read_phase st = Header \<and> sk_stream k2 = []"
  by (rule messages_in_order [OF sample_stream]) (simp_all add: k_start_def MsgMaxSize_def)

theorem bad_size_refused_witness:
  "\<exists>k1 k2. SocketBase_send sample_posix ready_state [] k_start = Some (0, k1) \<and>
           read_message sample_posix ready_state k1 = Some (Done EINVAL, ready_state, k2)"
  by (rule bad_size_refused [OF sample_stream]) (simp_all add: k_start_def)

theorem split_message_witness:
  "\<exists>k'. read_message sample_posix ready_state (k_start\<lparr>sk_stream := msg_header 2 @ [9]\<rparr>) =
        Some (Done EINVAL, ready_state\<lparr>read_msg_size := 2, read_phase := Payload\<rparr>, k')"
  using split_message [OF sample_stream(2), of ready_state 2 "k_start\<lparr>sk_stream := msg_header 2 @ [9]\<rparr>" 9 "[9, 9]"]
  by (simp add: MsgMaxSize_def)

theorem short_send_succeeds_witness:
  "\<exists>k'. SocketBase_send (sample_posix\<lparr>sys_send := \<lambda>fd bs k. (Ret 1, k\<lparr>sk_stream := sk_stream k @ take 1 bs\<rparr>)\<rparr>)
          ready_state [[1, 2]] k_start = Some (0, k')"
  by (rule short_send_succeeds) simp

lemma d_run: "server_run sample_posix (exec_env kernel_params) (node_step kernel_params) d_start d_accepted"
proof (rule run_accept [OF run_start [OF d_listening_run] _ d_accepted_run])
  show "accept_callback (server_pipe d_listening) \<noteq> None" by (simp add: d_listening_pipe)
qed

theorem daemon_no_fd_leak_witness: "sockets_inv sample_fds (sample_fds k_start) (server_pipe d_accepted)"
proof -
  have "server_pipe d_start = SocketServer_make sample_address k_start" "client_id_to_map_of_gateways d_start = Map.empty"
    by (simp_all add: d_start_def daemon_initial_def registerChannelFactory_def ServerRouter_make_def)
  moreover have "xp_pipe_send kernel_params = pipe_over_sockets sample_posix" by (simp add: kernel_params_def)
  ultimately show ?thesis using daemon_no_fd_leak [OF sample_posix_fds _ _ _ d_run] by blast
qed

text \<open>
  The accepted client has sent its connect request, and a first byte of something else; no other
  client waits to be accepted.
\<close>

definition connect_body :: bytes where "connect_body = [1, 0, 1, 0, 0, 0, 0]"

definition d_readable :: "(u16, u16, sample_kernel socket_server, cyphal_action list) daemon" where
  "d_readable = over_pipe (\<lambda>s. s\<lparr>ss_kernel := (ss_kernel s)\<lparr>sk_stream := msg_header 7 @ connect_body @ [5]\<rparr>\<rparr>) d_accepted"

lemma d_accepted_pipe:
  "server_pipe d_accepted = \<lparr>server_fd = 5, server_address = sample_address, unique_client_id_counter = 1,
     accept_callback = Some 5, client_id_to_context = Map.empty(1 \<mapsto> new_context 6),
     ss_kernel = k_start\<lparr>sk_next := 7, sk_open := [6, 5, 0, 1, 2], sk_waiting := 0\<rparr>\<rparr>"
  by (simp add: d_accepted_def handleAccept_def accept_client_def sample_accept Let_def d_listening_pipe k_start_def
      emplace_context_def sample_open_def)

theorem socket_server_refines_witness:
  "handleAccept sample_posix (exec_env kernel_params) d_readable = Some d_readable \<and>
   (\<exists>k'. sk_stream k' = [5] \<and> handleClientRequest sample_posix (exec_env kernel_params) 1 d_readable =
      (case handlePipeEvent (exec_env kernel_params) (PipeMessage 1 connect_body)
              (write_context 1 ((ctx_state (new_context 6))\<lparr>read_msg_size := 7\<rparr>, k') d_readable) of
         None \<Rightarrow> None
       | Some (err, w2) \<Rightarrow> if err = 0 then Some w2 else end_client sample_posix (exec_env kernel_params) 1 w2))"
proof -
  have pipe: "client_id_to_context (server_pipe d_readable) = Map.empty(1 \<mapsto> new_context 6)"
    "unique_client_id_counter (server_pipe d_readable) = 1" "sk_waiting (ss_kernel (server_pipe d_readable)) = 0"
    "sk_stream (ss_kernel (server_pipe d_readable)) = take 15 (msg_header 7 @ connect_body) @ [5]"
    by (simp_all add: d_readable_def over_pipe_def d_accepted_pipe connect_body_def)
  have accept: "SocketAddress_accept sample_posix socket_address_default (server_fd (server_pipe d_readable))
      (ss_kernel (server_pipe d_readable)) =
      Some (None, socket_address_default\<lparr>addr_len := sizeof_storage\<rparr>, ss_kernel (server_pipe d_readable))"
    using pipe(3) by (simp add: sample_accept)
  have header: "read_phase (ctx_state (new_context 6)) = Header" by (simp add: new_context_def socket_state_default_def)
  show ?thesis
    using socket_server_refines [of sample_posix d_readable "exec_env kernel_params", THEN conjunct1, rule_format, OF conjI, OF accept]
      socket_server_refines [of sample_posix d_readable "exec_env kernel_params", THEN conjunct2, rule_format,
        of 1 "new_context 6" sk_stream 7 connect_body 15 "[5]"]
      pipe header sample_stream(2)
    by (simp add: connect_body_def MsgMaxSize_def over_pipe_def Let_def del: handlePipeEvent.simps)
qed

subsection \<open>The SDK\<close>

definition kernel_sdk :: "sample_kernel socket_client sdk_params" where
  "kernel_sdk = \<lparr>sp_pipe_send = client_pipe_over sample_posix, sp_codec = sample_codec,
     sp_ser_request = sp_ser_request sample_sdk_params, sp_des_response = sample_des_response\<rparr>"

definition c_start :: "sample_kernel socket_client sdk" where
  "c_start = ClientRouter_make (SocketClient_make sample_address k_start)
     \<lparr>exec_clients = Map.empty, next_exec_client = 0, results = []\<rparr>"

definition c_connecting :: "sample_kernel socket_client sdk" where
  "c_connecting = snd (the (ClientRouter_start sample_posix c_start))"

definition c_connected :: "sample_kernel socket_client sdk" where
  "c_connected = the (handle_connect sample_posix (sdk_env kernel_sdk) c_connecting)"

lemma c_connecting_run: "ClientRouter_start sample_posix c_start = Some (0, c_connecting)"
  by (simp add: c_connecting_def ClientRouter_start_def SocketClient_start_def client_makeSocketHandle_def
      SocketAddress_socket_def SocketAddress_connect_def configureNoDelay_def Let_def bind_eq_Some_conv
      c_start_def ClientRouter_make_def SocketClient_make_def socket_state_default_def
      sample_address_def isAnyInet_def SOCK_STREAM_def OwnFd_assign_def)

lemma c_connecting_pipe:
  "sc_callback (client_pipe c_connecting) = Some (OnWritable 5)" "\<not> is_connected c_connecting"
  by (simp_all add: c_connecting_def ClientRouter_start_def SocketClient_start_def client_makeSocketHandle_def
      SocketAddress_socket_def SocketAddress_connect_def configureNoDelay_def Let_def bind_eq_Some_conv
      c_start_def ClientRouter_make_def SocketClient_make_def socket_state_default_def
      sample_address_def isAnyInet_def SOCK_STREAM_def OwnFd_assign_def OwnFd_destroy_def OwnFd_reset_def
      sample_open_def k_start_def)

lemma c_connected_run: "handle_connect sample_posix (sdk_env kernel_sdk) c_connecting = Some c_connected"
  by (simp add: c_connected_def handle_connect_def Let_def)

theorem sdk_one_descriptor_witness:
  "over_socket sample_fds (sample_fds k_start) (client_pipe c_connected) (is_connected c_connected)"
proof (rule sdk_one_descriptor [OF sample_posix_fds])
  show "sp_pipe_send kernel_sdk = client_pipe_over sample_posix" by (simp add: kernel_sdk_def)
  show "client_pipe c_start = SocketClient_make sample_address k_start" "\<not> is_connected c_start"
    by (simp_all add: c_start_def ClientRouter_make_def)
  show "client_run sample_posix (sdk_env kernel_sdk) (sdk_call kernel_sdk) c_start c_connected"
    by (rule crun_connect [OF crun_start [OF c_connecting_run] c_connecting_pipe(1) c_connected_run])
qed

theorem lost_connection_tells_nobody_witness:
  "\<exists>w'. handle_disconnect sample_posix (sdk_env kernel_sdk) c_connecting = Some w' \<and>
        results (cl_app w') = results (cl_app c_connecting)"
proof -
  obtain w' where w': "handle_disconnect sample_posix (sdk_env kernel_sdk) c_connecting = Some w'"
    by (simp add: handle_disconnect_def)
  from lost_connection_tells_nobody [OF c_connecting_pipe(2) this] w' show ?thesis by blast
qed

end
