(* ===== verification/C_Calls.thy ===== *)
theory C_Calls
  imports Sockets
begin

text \<open>
  System calls as the C files of the daemon use them (src/daemon/engine/platform): a failing call
  returns a negative value and stores its error in \<open>errno\<close>, a successful one leaves \<open>errno\<close> alone,
  nothing is retried, and the error is read from \<open>errno\<close> later, after the cleanup. The state of
  such a function is therefore \<open>errno\<close> with the kernel.
\<close>

abbreviation EIO :: int where "EIO \<equiv> 5"
abbreviation EBADF :: int where "EBADF \<equiv> 9"
abbreviation EFBIG :: int where "EFBIG \<equiv> 27"
abbreviation ENAMETOOLONG :: int where "ENAMETOOLONG \<equiv> 36"

abbreviation INT16_MIN :: int where "INT16_MIN \<equiv> - 32768"

type_synonym 'k c_state = "int \<times> 'k"

abbreviation errno_of :: "'k c_state \<Rightarrow> int" where "errno_of s \<equiv> fst s"
abbreviation kernel_of :: "'k c_state \<Rightarrow> 'k" where "kernel_of s \<equiv> snd s"

subsection \<open>One call\<close>

text \<open>\<open>None\<close> is the value -1.\<close>

fun c_call :: "('k, 'a) syscall \<Rightarrow> 'k c_state \<Rightarrow> 'a option \<times> 'k c_state" where
  "c_call call (en, k) = (case call k of (Ret a, k') \<Rightarrow> (Some a, en, k') | (Err e, k') \<Rightarrow> (None, e, k'))"

text \<open>\<open>ok = ok && call() == 0\<close>, and \<open>(void) call()\<close>.\<close>

definition c_and :: "('k, unit) syscall \<Rightarrow> bool \<times> 'k c_state \<Rightarrow> bool \<times> 'k c_state" where
  "c_and call = (\<lambda>(ok, s). if ok then let (r, s) = c_call call s in (r \<noteq> None, s) else (False, s))"

definition c_void :: "('k, 'a) syscall \<Rightarrow> 'k c_state \<Rightarrow> 'k c_state" where
  "c_void call s = snd (c_call call s)"

lemma c_call_Ret: "call k = (Ret a, k') \<Longrightarrow> c_call call (en, k) = (Some a, en, k')"
  by simp

lemma c_call_Err: "call k = (Err e, k') \<Longrightarrow> c_call call (en, k) = (None, e, k')"
  by simp

lemma c_and_simps [simp]:
  "c_and call (False, s) = (False, s)"
  "c_and call (True, s) = (let (r, s) = c_call call s in (r \<noteq> None, s))"
  by (simp_all add: c_and_def)

subsection \<open>What a call does to the open descriptors\<close>

text \<open>
  A call that fails has an \<open>errno\<close> between 1 and 4095 (the largest Linux has). \<open>close\<close> takes its descriptor away; of a descriptor that
  is not open it fails with \<open>EBADF\<close>.
\<close>

definition valid_errno :: "int \<Rightarrow> bool" where
  "valid_errno e \<longleftrightarrow> 0 < e \<and> e < 4096"

definition fails_positive :: "('k, 'a) syscall \<Rightarrow> bool" where
  "fails_positive call \<longleftrightarrow> (\<forall>k e k'. call k = (Err e, k') \<longrightarrow> valid_errno e)"

definition closes_fd :: "('k \<Rightarrow> int set) \<Rightarrow> int \<Rightarrow> ('k, unit) syscall \<Rightarrow> bool" where
  "closes_fd fds fd call \<longleftrightarrow>
     (\<forall>k. fds (snd (call k)) = fds k - {fd} \<and> (fd \<notin> fds k \<longrightarrow> fst (call k) = Err EBADF))"

definition quiet_call :: "('k \<Rightarrow> int set) \<Rightarrow> ('k, 'a) syscall \<Rightarrow> bool" where
  "quiet_call fds call \<longleftrightarrow> keeps_fds fds call \<and> fails_positive call"

lemma quiet_c_call:
  assumes "quiet_call fds call" and "c_call call s = (r, s')"
  shows "fds (kernel_of s') = fds (kernel_of s)" and "r = None \<Longrightarrow> valid_errno (errno_of s')"
    and "r \<noteq> None \<Longrightarrow> errno_of s' = errno_of s"
proof -
  obtain en k where s: "s = (en, k)" by (cases s)
  obtain c k1 where c: "call k = (c, k1)" by (cases "call k")
  note q = assms(1) [unfolded quiet_call_def fails_positive_def]
  show "fds (kernel_of s') = fds (kernel_of s)"
  proof -
    have "kernel_of s' = k1" using assms(2) by (cases c) (clarsimp simp: s c)+
    then show ?thesis by (simp add: s keeps_fdsD [OF q [THEN conjunct1] c])
  qed
  show "r = None \<Longrightarrow> valid_errno (errno_of s')" using assms(2) c q [THEN conjunct2, rule_format, of k _ k1] by (cases c) (auto simp: s)
  show "r \<noteq> None \<Longrightarrow> errno_of s' = errno_of s" using assms(2) c by (cases c) (auto simp: s)
qed

lemma quiet_c_void: "quiet_call fds call \<Longrightarrow> fds (kernel_of (c_void call s)) = fds (kernel_of s)"
  using quiet_c_call(1) [of fds call s "fst (c_call call s)" "snd (c_call call s)"] by (simp add: c_void_def)

lemma quiet_c_and:
  assumes "quiet_call fds call" and "c_and call (ok, s) = (ok', s')"
  shows "fds (kernel_of s') = fds (kernel_of s)" and "ok' \<Longrightarrow> ok" and "(ok \<or> valid_errno (errno_of s)) \<Longrightarrow> \<not> ok' \<Longrightarrow> valid_errno (errno_of s')"
proof -
  obtain r s1 where c: "c_call call s = (r, s1)" by (cases "c_call call s")
  note q = quiet_c_call [OF assms(1) c]
  show "fds (kernel_of s') = fds (kernel_of s)" and "ok' \<Longrightarrow> ok" and "(ok \<or> valid_errno (errno_of s)) \<Longrightarrow> \<not> ok' \<Longrightarrow> valid_errno (errno_of s')"
    using assms(2) q by (cases r; auto simp: c_and_def c split: if_splits)+
qed

lemma opens_c_call:
  assumes "opens_fd fds fd_of call" and "c_call call s = (r, s')"
  shows "case r of Some a \<Rightarrow> 0 \<le> fd_of a \<and> fd_of a \<notin> fds (kernel_of s) \<and>
                             fds (kernel_of s') = insert (fd_of a) (fds (kernel_of s)) \<and> errno_of s' = errno_of s
                 | None \<Rightarrow> 0 < errno_of s' \<and> fds (kernel_of s') = fds (kernel_of s)"
proof -
  obtain en k where s: "s = (en, k)" by (cases s)
  obtain c k1 where c: "call k = (c, k1)" by (cases "call k")
  from assms(1) [unfolded opens_fd_def, rule_format, of k] assms(2) show ?thesis
    by (cases c; clarsimp simp: s c)
qed

lemma closes_c_void:
  assumes "closes_fd fds fd call"
  shows "fds (kernel_of (c_void call s)) = fds (kernel_of s) - {fd}"
    and "fd \<notin> fds (kernel_of s) \<Longrightarrow> errno_of (c_void call s) = EBADF"
proof -
  obtain en k where s: "s = (en, k)" by (cases s)
  obtain c k1 where c: "call k = (c, k1)" by (cases "call k")
  note q = assms [unfolded closes_fd_def, rule_format, of k]
  show "fds (kernel_of (c_void call s)) = fds (kernel_of s) - {fd}"
    using q by (cases c; clarsimp simp: s c c_void_def)
  show "fd \<notin> fds (kernel_of s) \<Longrightarrow> errno_of (c_void call s) = EBADF"
    using q by (cases c; clarsimp simp: s c c_void_def)
qed

lemma errno_after_close:
  assumes "fails_positive call" and "valid_errno (errno_of s)"
  shows "valid_errno (errno_of (c_void call s))"
proof -
  obtain en k where s: "s = (en, k)" by (cases s)
  obtain c k1 where c: "call k = (c, k1)" by (cases "call k")
  with assms show ?thesis by (cases c) (auto simp: s c_void_def fails_positive_def)
qed

lemma c_call_kernel: "c_call call s = (r, s') \<Longrightarrow> kernel_of s' = snd (call (kernel_of s))"
  by (cases s; cases "call (kernel_of s)"; cases "fst (call (kernel_of s))") auto

lemma c_call_SomeD: "c_call call s = (Some a, s') \<Longrightarrow> call (kernel_of s) = (Ret a, kernel_of s')"
  by (cases s; cases "call (kernel_of s)"; cases "fst (call (kernel_of s))") auto

lemma c_call_errno: "fails_positive call \<Longrightarrow> c_call call s = (None, s') \<Longrightarrow> valid_errno (errno_of s')"
  by (cases s; cases "call (kernel_of s)"; cases "fst (call (kernel_of s))") (auto simp: fails_positive_def, blast)

declare c_call.simps [simp del]

end
