(* ===== verification/Socket_Can.thy ===== *)
theory Socket_Can
  imports C_Calls
begin

text \<open>
  The SocketCAN driver of the daemon, src/daemon/engine/platform/can/socketcan.c. The kernel is an
  argument (\<open>can_posix\<close>). A pointer argument that may be NULL is an option, the memory behind it is
  the list of its bytes. A function that would leave the memory it was given (a \<open>memcpy\<close> past its
  destination or source, a NULL dereference) has the value \<open>None\<close>. Assertions are compiled out.
\<close>

unbundle bit_operations_syntax

subsection \<open>Frames, filters and the kernel\<close>

abbreviation CAN_EFF_FLAG :: u32 where "CAN_EFF_FLAG \<equiv> 0x80000000"
abbreviation CAN_RTR_FLAG :: u32 where "CAN_RTR_FLAG \<equiv> 0x40000000"
abbreviation CAN_ERR_FLAG :: u32 where "CAN_ERR_FLAG \<equiv> 0x20000000"
abbreviation CAN_EFF_MASK :: u32 where "CAN_EFF_MASK \<equiv> 0x1FFFFFFF"
abbreviation MSG_CONFIRM :: u32 where "MSG_CONFIRM \<equiv> 0x800"
abbreviation CANFD_BRS :: u8 where "CANFD_BRS \<equiv> 1"
abbreviation CAN_MAX_DLEN :: nat where "CAN_MAX_DLEN \<equiv> 8"
abbreviation CANFD_MAX_DLEN :: nat where "CANFD_MAX_DLEN \<equiv> 64"
abbreviation CAN_MTU :: nat where "CAN_MTU \<equiv> 16"
abbreviation CANFD_MTU :: nat where "CANFD_MTU \<equiv> 72"
abbreviation CAN_RAW_FILTER_MAX :: nat where "CAN_RAW_FILTER_MAX \<equiv> 512"
abbreviation IFNAMSIZ :: nat where "IFNAMSIZ \<equiv> 16"
abbreviation POLLIN :: u16 where "POLLIN \<equiv> 1"
abbreviation POLLOUT :: u16 where "POLLOUT \<equiv> 4"
abbreviation SOL_SOCKET :: int where "SOL_SOCKET \<equiv> 1"
abbreviation SO_TIMESTAMP_type :: int where "SO_TIMESTAMP_type \<equiv> 29"

record canard_frame =
  extended_can_id :: u32
  payload_size :: nat
  payload_data :: "bytes option"

record canard_filter =
  filter_id :: u32
  filter_mask :: u32

record canfd_frame =
  can_id :: u32
  frame_len :: u8
  frame_flags :: u8
  frame_data :: bytes

record can_filter =
  cf_id :: u32
  cf_mask :: u32

datatype can_option = CAN_RAW_FD_FRAMES | SO_TIMESTAMP | CAN_RAW_RECV_OWN_MSGS

record control_message =
  cmsg_level :: int
  cmsg_type :: int
  tv_sec :: u64
  tv_usec :: u64

record can_message =
  msg_iov :: bytes
  msg_flags :: u32
  msg_control :: "control_message list"

record 'k can_posix =
  can_socket :: "('k, int) syscall"
  can_ifindex :: "int \<Rightarrow> string \<Rightarrow> ('k, int) syscall"
  can_bind :: "int \<Rightarrow> int \<Rightarrow> ('k, unit) syscall"
  can_setsockopt :: "int \<Rightarrow> can_option \<Rightarrow> int \<Rightarrow> ('k, unit) syscall"
  can_setfilter :: "int \<Rightarrow> can_filter list \<Rightarrow> ('k, unit) syscall"
  can_ppoll :: "int \<Rightarrow> u16 \<Rightarrow> int \<Rightarrow> int \<Rightarrow> ('k, u16 option) syscall"
  can_write :: "int \<Rightarrow> bytes \<Rightarrow> ('k, nat) syscall"
  can_recvmsg :: "int \<Rightarrow> nat \<Rightarrow> ('k, can_message) syscall"
  can_close :: "int \<Rightarrow> ('k, unit) syscall"

text \<open>The layout of \<open>struct canfd_frame\<close>: the two reserved bytes are zero.\<close>

definition frame_bytes :: "canfd_frame \<Rightarrow> bytes" where
  "frame_bytes f = le_bytes 4 (unat (can_id f)) @ [frame_len f, frame_flags f, 0, 0] @ frame_data f"

definition frame_of :: "bytes \<Rightarrow> canfd_frame" where
  "frame_of bs = \<lparr>can_id = of_nat (le_nat (take 4 bs)), frame_len = bs ! 4, frame_flags = bs ! 5,
                  frame_data = drop 8 bs\<rparr>"

definition memcpy :: "bytes \<Rightarrow> bytes \<Rightarrow> nat \<Rightarrow> bytes option" where
  "memcpy dst src n = (if n \<le> length dst \<and> n \<le> length src then Some (take n src @ drop n dst) else None)"

subsection \<open>Operations\<close>

definition getNegatedErrno :: "'k c_state \<Rightarrow> int" where
  "getNegatedErrno s = (let out = - \<bar>errno_of s\<bar>
     in if out < 0 then (if INT16_MIN \<le> out then out else INT16_MIN) else INT16_MIN)"

definition doPoll :: "'k can_posix \<Rightarrow> int \<Rightarrow> u16 \<Rightarrow> u64 \<Rightarrow> 'k c_state \<Rightarrow> int \<times> 'k c_state" where
  "doPoll P fd events timeout_usec s =
     (let sec = uint (timeout_usec div 1000000); nsec = uint (timeout_usec mod 1000000) * 1000;
          (poll_result, s) = c_call (can_ppoll P fd events sec nsec) s
      in case poll_result of
           None \<Rightarrow> (getNegatedErrno s, s)
         | Some None \<Rightarrow> (0, s)
         | Some (Some revents) \<Rightarrow> if revents AND events = 0 then (- EIO, s) else (1, s))"

definition socketcanOpen :: "'k can_posix \<Rightarrow> string \<Rightarrow> bool \<Rightarrow> 'k c_state \<Rightarrow> int \<times> 'k c_state" where
  "socketcanOpen P iface_name can_fd s =
     (if IFNAMSIZ < length iface_name + 1 then (- ENAMETOOLONG, s)
      else let
        (sock, s) = c_call (can_socket P) s;
        fd = (case sock of Some fd \<Rightarrow> fd | None \<Rightarrow> - 1);
        ok = (0 \<le> fd);
        (ok, s) = (if ok then
             let (ifindex, s) = c_call (can_ifindex P fd iface_name) s
             in case ifindex of None \<Rightarrow> (False, s) | Some ifr \<Rightarrow> c_and (can_bind P fd ifr) (True, s)
           else (ok, s));
        (ok, s) = (if ok \<and> can_fd then c_and (can_setsockopt P fd CAN_RAW_FD_FRAMES 1) (ok, s) else (ok, s));
        (ok, s) = c_and (can_setsockopt P fd SO_TIMESTAMP 1) (ok, s);
        (ok, s) = c_and (can_setsockopt P fd CAN_RAW_RECV_OWN_MSGS 1) (ok, s)
      in if ok then (fd, s)
         else let s = c_void (can_close P fd) s in (getNegatedErrno s, s))"

text \<open>The frame \<open>socketcanPush\<close> writes, without its payload, and how many of its bytes.\<close>

definition push_frame :: "canard_frame \<Rightarrow> canfd_frame" where
  "push_frame f = \<lparr>can_id = extended_can_id f OR CAN_EFF_FLAG, frame_len = of_nat (payload_size f),
                   frame_flags = CANFD_BRS, frame_data = replicate CANFD_MAX_DLEN 0\<rparr>"

definition push_mtu :: "canard_frame \<Rightarrow> nat" where
  "push_mtu f = (if CAN_MAX_DLEN < payload_size f then CANFD_MTU else CAN_MTU)"

definition socketcanPush ::
    "'k can_posix \<Rightarrow> int \<Rightarrow> canard_frame option \<Rightarrow> u64 \<Rightarrow> 'k c_state \<Rightarrow> (int \<times> 'k c_state) option" where
  "socketcanPush P fd frame timeout_usec s =
     (case frame of None \<Rightarrow> Some (- EINVAL, s)
      | Some f \<Rightarrow>
        (case payload_data f of None \<Rightarrow> Some (- EINVAL, s)
         | Some payload \<Rightarrow>
           (if 255 < payload_size f then Some (- EINVAL, s)
            else let (poll_result, s) = doPoll P fd POLLOUT timeout_usec s
              in if 0 < poll_result then
                   (let cfd = push_frame f
                    in case memcpy (frame_data cfd) payload (payload_size f) of
                         None \<Rightarrow> None
                       | Some bs \<Rightarrow>
                           (let cfd = cfd\<lparr>frame_data := bs\<rparr>;
                                (written, s) = c_call (can_write P fd (take (push_mtu f) (frame_bytes cfd))) s
                            in if written = None then Some (getNegatedErrno s, s) else Some (poll_result, s)))
                 else Some (poll_result, s))))"

text \<open>What \<open>socketcanPop\<close> is given pointers to: each may be NULL.\<close>

record pop_io =
  out_frame :: "canard_frame option"
  out_timestamp_usec :: "u64 option"
  payload_buffer :: "bytes option"
  loopback :: "bool option"

definition frame_valid :: "canfd_frame \<Rightarrow> bool" where
  "frame_valid f \<longleftrightarrow> can_id f AND CAN_EFF_FLAG \<noteq> 0 \<and> can_id f AND CAN_ERR_FLAG = 0 \<and> can_id f AND CAN_RTR_FLAG = 0"

text \<open>The time stamp of the message: \<open>Inl\<close> is an early return, \<open>None\<close> the dereference of NULL.\<close>

definition pop_timestamp :: "can_message \<Rightarrow> pop_io \<Rightarrow> (int + pop_io) option" where
  "pop_timestamp msg io =
     (if out_timestamp_usec io = None then Some (Inr io)
      else case msg_control msg of [] \<Rightarrow> None
        | cmsg # _ \<Rightarrow>
            (if cmsg_level cmsg = SOL_SOCKET \<and> cmsg_type cmsg = SO_TIMESTAMP_type then
               Some (Inr (io\<lparr>out_frame := Some \<lparr>extended_can_id = 0, payload_size = 0, payload_data = None\<rparr>,
                             out_timestamp_usec := Some (tv_sec cmsg * 1000000 + tv_usec cmsg)\<rparr>))
             else Some (Inl (- EIO))))"

text \<open>The payload and the frame: the data pointer of the frame is the buffer.\<close>

definition pop_store :: "canfd_frame \<Rightarrow> bytes \<Rightarrow> pop_io \<Rightarrow> pop_io option" where
  "pop_store cfd buf io =
     map_option (\<lambda>buf'. io\<lparr>out_frame := Some \<lparr>extended_can_id = can_id cfd AND CAN_EFF_MASK,
          payload_size = unat (frame_len cfd), payload_data = Some buf'\<rparr>, payload_buffer := Some buf'\<rparr>)
       (memcpy buf (frame_data cfd) (unat (frame_len cfd)))"

text \<open>What becomes of a received message, read into \<open>sockcan_frame\<close>.\<close>

definition pop_received :: "nat \<Rightarrow> can_message \<Rightarrow> canfd_frame \<Rightarrow> bytes \<Rightarrow> pop_io \<Rightarrow> (int \<times> pop_io) option" where
  "pop_received payload_buffer_size msg sockcan_frame buf io =
     (let read_size = length (msg_iov msg); loopback_frame = (msg_flags msg AND MSG_CONFIRM \<noteq> 0)
      in if read_size \<noteq> CAN_MTU \<and> read_size \<noteq> CANFD_MTU then Some (- EIO, io)
         else if payload_buffer_size < unat (frame_len sockcan_frame) then Some (- EFBIG, io)
         else if \<not> frame_valid sockcan_frame then Some (0, io)
         else if loopback io = None \<and> loopback_frame then Some (0, io)
         else
           (let io = io\<lparr>loopback := map_option (\<lambda>_. loopback_frame) (loopback io)\<rparr>
            in case pop_timestamp msg io of None \<Rightarrow> None
               | Some (Inl err) \<Rightarrow> Some (err, io)
               | Some (Inr io) \<Rightarrow> map_option (\<lambda>io. (1, io)) (pop_store sockcan_frame buf io)))"

definition socketcanPop ::
    "'k can_posix \<Rightarrow> int \<Rightarrow> nat \<Rightarrow> u64 \<Rightarrow> pop_io \<Rightarrow> 'k c_state \<Rightarrow> (int \<times> pop_io \<times> 'k c_state) option" where
  "socketcanPop P fd payload_buffer_size timeout_usec io s =
     (case (out_frame io, payload_buffer io) of
        (Some _, Some buf) \<Rightarrow>
          (let (poll_result, s) = doPoll P fd POLLIN timeout_usec s
           in if 0 < poll_result then
                (let (msg, s) = c_call (can_recvmsg P fd CANFD_MTU) s
                 in case msg of None \<Rightarrow> Some (getNegatedErrno s, io, s)
                    | Some msg \<Rightarrow>
                        map_option (\<lambda>(r, io). (r, io, s))
                          (pop_received payload_buffer_size msg
                             (frame_of (msg_iov msg @ replicate (CANFD_MTU - length (msg_iov msg)) 0)) buf io))
              else Some (poll_result, io, s))
      | _ \<Rightarrow> Some (- EINVAL, io, s))"

definition kernel_filter :: "canard_filter \<Rightarrow> can_filter" where
  "kernel_filter c = \<lparr>cf_id = (filter_id c AND CAN_EFF_MASK) OR CAN_EFF_FLAG,
                      cf_mask = (filter_mask c AND CAN_EFF_MASK) OR CAN_EFF_FLAG OR CAN_RTR_FLAG\<rparr>"

definition socketcanFilter ::
    "'k can_posix \<Rightarrow> int \<Rightarrow> nat \<Rightarrow> canard_filter list option \<Rightarrow> 'k c_state \<Rightarrow> (int \<times> 'k c_state) option" where
  "socketcanFilter P fd num_configs configs s =
     (case configs of None \<Rightarrow> Some (- EINVAL, s)
      | Some cs \<Rightarrow>
          (if CAN_RAW_FILTER_MAX < num_configs then Some (- EFBIG, s)
           else if length cs < num_configs then None
           else let (ret, s) = c_call (can_setfilter P fd (map kernel_filter (take num_configs cs))) s
             in Some (if ret = None then getNegatedErrno s else 0, s)))"

end
