(* ===== verification/Socket_Can_Open.thy ===== *)
theory Socket_Can_Open
  imports Socket_Can
begin

text \<open>
  What the operations of src/daemon/engine/platform/can/socketcan.c leave open and which errors they
  report. \<open>can_fds\<close> is what is assumed of the kernel.
\<close>

definition can_fds :: "'k can_posix \<Rightarrow> ('k \<Rightarrow> int set) \<Rightarrow> bool" where
  "can_fds P fds \<longleftrightarrow>
     (\<forall>k. \<forall>fd \<in> fds k. 0 \<le> fd) \<and>
     opens_fd fds id (can_socket P) \<and>
     (\<forall>fd. closes_fd fds fd (can_close P fd) \<and> fails_positive (can_close P fd)) \<and>
     (\<forall>fd name. quiet_call fds (can_ifindex P fd name)) \<and>
     (\<forall>fd i. quiet_call fds (can_bind P fd i)) \<and>
     (\<forall>fd opt v. quiet_call fds (can_setsockopt P fd opt v)) \<and>
     (\<forall>fd cs. quiet_call fds (can_setfilter P fd cs)) \<and>
     (\<forall>fd m sec nsec. quiet_call fds (can_ppoll P fd m sec nsec)) \<and>
     (\<forall>fd bs. quiet_call fds (can_write P fd bs)) \<and>
     (\<forall>fd n. quiet_call fds (can_recvmsg P fd n))"

lemma can_fdsD:
  assumes "can_fds P fds"
  shows "- 1 \<notin> fds k" and "opens_fd fds id (can_socket P)"
    and "closes_fd fds fd (can_close P fd)" and "fails_positive (can_close P fd)"
    and "quiet_call fds (can_ifindex P fd name)" and "quiet_call fds (can_bind P fd i)"
    and "quiet_call fds (can_setsockopt P fd opt v)" and "quiet_call fds (can_setfilter P fd cs)"
    and "quiet_call fds (can_ppoll P fd m sec nsec)" and "quiet_call fds (can_write P fd bs)"
    and "quiet_call fds (can_recvmsg P fd n)"
proof -
  show "- 1 \<notin> fds k" using assms unfolding can_fds_def by fastforce
qed (use assms in \<open>auto simp: can_fds_def\<close>)

subsection \<open>The error that is read from errno\<close>

lemma getNegatedErrno_bounds: "INT16_MIN \<le> getNegatedErrno s \<and> getNegatedErrno s < 0"
  by (auto simp: getNegatedErrno_def Let_def)

lemma getNegatedErrno_pos: "0 < errno_of s \<Longrightarrow> errno_of s \<le> 32768 \<Longrightarrow> getNegatedErrno s = - errno_of s"
  by (simp add: getNegatedErrno_def)

subsection \<open>Opening\<close>

text \<open>Everything between the creation of the socket and the decision.\<close>

definition open_setup :: "'k can_posix \<Rightarrow> string \<Rightarrow> bool \<Rightarrow> int \<Rightarrow> 'k c_state \<Rightarrow> bool \<times> 'k c_state" where
  "open_setup P iface_name can_fd fd s =
     (let (ok, s) = (case c_call (can_ifindex P fd iface_name) s of
                       (None, s) \<Rightarrow> (False, s) | (Some ifr, s) \<Rightarrow> c_and (can_bind P fd ifr) (True, s));
          (ok, s) = (if can_fd then c_and (can_setsockopt P fd CAN_RAW_FD_FRAMES 1) (ok, s) else (ok, s))
      in c_and (can_setsockopt P fd CAN_RAW_RECV_OWN_MSGS 1) (c_and (can_setsockopt P fd SO_TIMESTAMP 1) (ok, s)))"

lemma socketcanOpen_long: "15 < length iface_name \<Longrightarrow> socketcanOpen P iface_name can_fd s = (- ENAMETOOLONG, s)"
  by (simp add: socketcanOpen_def)

lemma socketcanOpen_socket_fails:
  "length iface_name \<le> 15 \<Longrightarrow> c_call (can_socket P) s = (None, s1) \<Longrightarrow>
   socketcanOpen P iface_name can_fd s = (let s = c_void (can_close P (- 1)) s1 in (getNegatedErrno s, s))"
  by (simp add: socketcanOpen_def)

lemma socketcanOpen_socket:
  "length iface_name \<le> 15 \<Longrightarrow> c_call (can_socket P) s = (Some fd, s1) \<Longrightarrow> 0 \<le> fd \<Longrightarrow>
   socketcanOpen P iface_name can_fd s =
     (case open_setup P iface_name can_fd fd s1 of
        (True, s2) \<Rightarrow> (fd, s2)
      | (False, s2) \<Rightarrow> (let s = c_void (can_close P fd) s2 in (getNegatedErrno s, s)))"
  by (auto simp: socketcanOpen_def open_setup_def Let_def split: prod.splits option.splits bool.splits)

lemma open_setup_fds:
  assumes "can_fds P fds" and "open_setup P iface_name can_fd fd s = (ok, s')"
  shows "fds (kernel_of s') = fds (kernel_of s) \<and> (\<not> ok \<longrightarrow> valid_errno (errno_of s'))"
proof -
  obtain r s1 where 1: "c_call (can_ifindex P fd iface_name) s = (r, s1)" by (metis surj_pair)
  obtain ok2 s2 where 2: "(case r of None \<Rightarrow> (False, s1) | Some i \<Rightarrow> c_and (can_bind P fd i) (True, s1)) = (ok2, s2)"
    by (metis surj_pair)
  obtain ok3 s3 where 3: "(if can_fd then c_and (can_setsockopt P fd CAN_RAW_FD_FRAMES 1) (ok2, s2) else (ok2, s2)) = (ok3, s3)"
    by (metis surj_pair)
  obtain ok4 s4 where 4: "c_and (can_setsockopt P fd SO_TIMESTAMP 1) (ok3, s3) = (ok4, s4)" by (metis surj_pair)
  have 5: "c_and (can_setsockopt P fd CAN_RAW_RECV_OWN_MSGS 1) (ok4, s4) = (ok, s')"
  proof -
    have "(case c_call (can_ifindex P fd iface_name) s of
             (None, s) \<Rightarrow> (False, s) | (Some ifr, s) \<Rightarrow> c_and (can_bind P fd ifr) (True, s)) = (ok2, s2)"
      using 2 by (cases r) (simp_all add: 1 del: c_and_simps)
    with assms(2) show ?thesis by (simp only: open_setup_def Let_def prod.case 3 4)
  qed
  note quiet = can_fdsD [OF assms(1)]
  have A: "fds (kernel_of s2) = fds (kernel_of s) \<and> (ok2 \<or> valid_errno (errno_of s2))"
  proof (cases r)
    case None
    with quiet_c_call [OF quiet(5) 1] 2 show ?thesis by simp
  next
    case (Some i)
    then have "c_and (can_bind P fd i) (True, s1) = (ok2, s2)" using 2 by simp
    from quiet_c_and [OF quiet(6) this] quiet_c_call [OF quiet(5) 1] show ?thesis by auto
  qed
  have B: "fds (kernel_of s3) = fds (kernel_of s) \<and> (ok3 \<or> valid_errno (errno_of s3))"
  proof (cases can_fd)
    case True
    then have "c_and (can_setsockopt P fd CAN_RAW_FD_FRAMES 1) (ok2, s2) = (ok3, s3)" using 3 by simp
    from quiet_c_and [OF quiet(7) this] A show ?thesis by auto
  next
    case False
    with 3 A show ?thesis by simp
  qed
  from quiet_c_and [OF quiet(7) 4] quiet_c_and [OF quiet(7) 5] B show ?thesis by auto
qed

lemma socketcanOpen_fds:
  assumes "can_fds P fds" and "socketcanOpen P iface_name can_fd s = (r, s')"
  shows "if 0 \<le> r then r \<notin> fds (kernel_of s) \<and> fds (kernel_of s') = insert r (fds (kernel_of s))
         else INT16_MIN \<le> r \<and> fds (kernel_of s') = fds (kernel_of s)"
proof (cases "15 < length iface_name")
  case True
  with assms(2) show ?thesis by (simp add: socketcanOpen_long)
next
  case False
  obtain sock s1 where 1: "c_call (can_socket P) s = (sock, s1)" by (metis surj_pair)
  note closed = closes_c_void(1) [OF can_fdsD(3) [OF assms(1)]]
  note opened = opens_c_call [OF can_fdsD(2) [OF assms(1)] 1]
  show ?thesis
  proof (cases sock)
    case None
    define t where "t = c_void (can_close P (- 1)) s1"
    have "(r, s') = (getNegatedErrno t, t)"
      unfolding assms(2) [symmetric] t_def
      using socketcanOpen_socket_fails [of iface_name P s s1 can_fd] False 1 None by (simp add: Let_def)
    moreover have "fds (kernel_of t) = fds (kernel_of s)"
      using opened None by (simp add: t_def closed can_fdsD(1) [OF assms(1)])
    ultimately show ?thesis using getNegatedErrno_bounds [of t] by simp
  next
    case (Some fd)
    obtain ok s2 where 2: "open_setup P iface_name can_fd fd s1 = (ok, s2)" by (metis surj_pair)
    have new: "0 \<le> fd" "fd \<notin> fds (kernel_of s)" "fds (kernel_of s2) = insert fd (fds (kernel_of s))"
      using opened Some open_setup_fds [OF assms(1) 2] by auto
    have r: "(r, s') = (if ok then (fd, s2) else (let s = c_void (can_close P fd) s2 in (getNegatedErrno s, s)))"
      using assms(2) socketcanOpen_socket [of iface_name P s fd s1 can_fd] False 1 Some new(1) 2
      by (auto split: bool.splits)
    show ?thesis
    proof (cases ok)
      case True
      with r new show ?thesis by simp
    next
      case False
      define t where "t = c_void (can_close P fd) s2"
      have "(r, s') = (getNegatedErrno t, t)" using r False by (simp add: t_def Let_def)
      moreover have "fds (kernel_of t) = fds (kernel_of s)" using new by (simp add: t_def closed)
      ultimately show ?thesis using getNegatedErrno_bounds [of t] by simp
    qed
  qed
qed

lemma socketcanOpen_hides_error:
  assumes "can_fds P fds" and "length iface_name \<le> 15" and "can_socket P k = (Err e, k')"
  shows "fst (socketcanOpen P iface_name can_fd (en, k)) = - EBADF"
proof -
  have 1: "c_call (can_socket P) (en, k) = (None, e, k')" by (simp add: assms(3) c_call.simps)
  have "errno_of (c_void (can_close P (- 1)) (e, k')) = EBADF"
    by (rule closes_c_void(2) [OF can_fdsD(3) [OF assms(1)]]) (simp add: can_fdsD(1) [OF assms(1)])
  then show ?thesis
    using socketcanOpen_socket_fails [OF assms(2) 1] by (simp add: Let_def getNegatedErrno_pos)
qed

lemma doPoll_spec:
  assumes "can_fds P fds" and "doPoll P fd m t s = (r, s')"
  shows "fds (kernel_of s') = fds (kernel_of s)" and "INT16_MIN \<le> r" and "r \<le> 1"
proof -
  obtain p s1 where 1: "c_call (can_ppoll P fd m (uint (t div 1000000)) (uint (t mod 1000000) * 1000)) s = (p, s1)"
    by (metis surj_pair)
  note q = quiet_c_call(1) [OF can_fdsD(9) [OF assms(1)] 1]
  have r: "(r, s') = (case p of None \<Rightarrow> (getNegatedErrno s1, s1) | Some None \<Rightarrow> (0, s1)
         | Some (Some revents) \<Rightarrow> if revents AND m = 0 then (- EIO, s1) else (1, s1))"
    using assms(2) by (simp add: doPoll_def 1)
  show "fds (kernel_of s') = fds (kernel_of s)" and "INT16_MIN \<le> r" and "r \<le> 1"
    using r q getNegatedErrno_bounds [of s1] by (auto split: option.splits if_splits)
qed

text \<open>The two parts of the timeout: a valid \<open>timespec\<close>, of exactly that many microseconds.\<close>

lemma doPoll_timespec:
  fixes t :: u64
  shows "uint (t mod 1000000) * 1000 < 1000000000"
    and "uint (t div 1000000) * 1000000 + (uint (t mod 1000000) * 1000) div 1000 = uint t"
proof -
  have m: "uint (t mod 1000000) = uint t mod 1000000" and d: "uint (t div 1000000) = uint t div 1000000"
    by (simp_all add: uint_mod uint_div)
  show "uint (t mod 1000000) * 1000 < 1000000000"
    using pos_mod_bound [of 1000000 "uint t"] by (simp add: m)
  show "uint (t div 1000000) * 1000000 + (uint (t mod 1000000) * 1000) div 1000 = uint t"
    by (simp add: m d div_mult_mod_eq)
qed

end
