(* ===== verification/Socket_Can_Frames.thy ===== *)
theory Socket_Can_Frames
  imports Socket_Can_Open
begin

text \<open>
  The frames of src/daemon/engine/platform/can/socketcan.c: what is pushed is what a pop at the
  other end gives, a pop stays in the buffer it was given, and which frames a filter lets through.
\<close>

subsection \<open>The layout\<close>

lemma take4_le_bytes [simp]: "take 4 (le_bytes 4 n @ bs) = le_bytes 4 n"
  by simp

lemma of_nat_le_nat [simp]: "(of_nat (le_nat (le_bytes 4 (unat (x :: u32)))) :: u32) = x"
  by (simp add: le_nat_u32)

lemma length_frame_bytes [simp]: "length (frame_bytes f) = 8 + length (frame_data f)"
  by (simp add: frame_bytes_def)

lemma frame_of_bytes: "frame_of (frame_bytes f) = f"
  by (simp add: frame_of_def frame_bytes_def nth_append)

text \<open>Sixteen bytes carry a frame whose data end with zeros.\<close>

lemma take_frame_bytes:
  assumes "length (frame_data f) = CANFD_MAX_DLEN" and "drop 8 (frame_data f) = replicate 56 0"
  shows "take CAN_MTU (frame_bytes f) @ replicate 56 0 = frame_bytes f"
proof -
  have "take CAN_MTU (frame_bytes f) = le_bytes 4 (unat (can_id f)) @ [frame_len f, frame_flags f, 0, 0] @ take 8 (frame_data f)"
    by (simp add: frame_bytes_def)
  then show ?thesis
    using append_take_drop_id [of 8 "frame_data f"] assms(2) by (simp add: frame_bytes_def)
qed

lemma memcpy_Some: "memcpy dst src n = Some bs \<longleftrightarrow> n \<le> length dst \<and> n \<le> length src \<and> bs = take n src @ drop n dst"
  by (auto simp: memcpy_def)

lemma memcpy_None: "memcpy dst src n = None \<longleftrightarrow> length dst < n \<or> length src < n"
  by (auto simp: memcpy_def)

text \<open>The bytes a successful push hands to the kernel.\<close>

definition pushed :: "canard_frame \<Rightarrow> bytes \<Rightarrow> bytes" where
  "pushed f payload = take (push_mtu f) (frame_bytes ((push_frame f)\<lparr>frame_data :=
     take (payload_size f) payload @ replicate (CANFD_MAX_DLEN - payload_size f) 0\<rparr>))"

lemma length_pushed: "payload_size f \<le> 64 \<Longrightarrow> payload_size f \<le> length payload \<Longrightarrow> length (pushed f payload) = push_mtu f"
  by (auto simp: pushed_def push_mtu_def)

lemma pushed_frame:
  assumes "payload_size f \<le> 64" and "payload_size f \<le> length payload"
  shows "frame_of (pushed f payload @ replicate (72 - length (pushed f payload)) 0) =
    (push_frame f)\<lparr>frame_data := take (payload_size f) payload @ replicate (64 - payload_size f) 0\<rparr>" (is "_ = ?g")
proof -
  have len: "length (frame_data ?g) = 64" using assms by simp
  show ?thesis
  proof (cases "8 < payload_size f")
    case True
    then have "push_mtu f = 72" by (simp add: push_mtu_def)
    moreover then have "pushed f payload = frame_bytes ?g" using assms by (simp add: pushed_def)
    ultimately show ?thesis using assms by (simp add: length_pushed frame_of_bytes)
  next
    case False
    then have m: "push_mtu f = 16" by (simp add: push_mtu_def)
    have "take 16 (frame_bytes ?g) @ replicate 56 0 = frame_bytes ?g"
      by (rule take_frame_bytes [OF len]) (use False assms in simp)
    then show ?thesis using assms m by (simp add: length_pushed) (simp add: pushed_def frame_of_bytes)
  qed
qed

subsection \<open>Pushing\<close>

lemma socketcanPush_ready:
  assumes "payload_data f = Some payload" and "payload_size f \<le> 64" and "payload_size f \<le> length payload"
    and "doPoll P fd POLLOUT t s = (1, s1)"
  shows "socketcanPush P fd (Some f) t s =
    (case c_call (can_write P fd (pushed f payload)) s1 of
       (None, s2) \<Rightarrow> Some (getNegatedErrno s2, s2) | (Some n, s2) \<Rightarrow> Some (1, s2))"
proof -
  have "memcpy (frame_data (push_frame f)) payload (payload_size f) =
      Some (take (payload_size f) payload @ replicate (64 - payload_size f) 0)"
    using assms(2,3) by (simp add: memcpy_Some push_frame_def)
  with assms show ?thesis by (auto simp: socketcanPush_def Let_def pushed_def split: prod.splits option.splits)
qed

subsection \<open>Popping\<close>

text \<open>The result of a pop once a message was received.\<close>

lemma socketcanPop_message:
  assumes "out_frame io = Some f0" and "payload_buffer io = Some buf"
    and "doPoll P fd POLLIN t s = (1, s1)" and "c_call (can_recvmsg P fd CANFD_MTU) s1 = (Some msg, s2)"
    and "cfd = frame_of (msg_iov msg @ replicate (72 - length (msg_iov msg)) 0)"
  shows "socketcanPop P fd cap t io s = map_option (\<lambda>(r, io). (r, io, s2)) (pop_received cap msg cfd buf io)"
  using assms by (simp add: socketcanPop_def)

lemma pop_store_Some:
  "pop_store cfd buf io = Some io' \<longleftrightarrow>
     unat (frame_len cfd) \<le> length buf \<and> unat (frame_len cfd) \<le> length (frame_data cfd) \<and>
     io' = io\<lparr>out_frame := Some \<lparr>extended_can_id = can_id cfd AND CAN_EFF_MASK, payload_size = unat (frame_len cfd),
               payload_data = Some (take (unat (frame_len cfd)) (frame_data cfd) @ drop (unat (frame_len cfd)) buf)\<rparr>,
             payload_buffer := Some (take (unat (frame_len cfd)) (frame_data cfd) @ drop (unat (frame_len cfd)) buf)\<rparr>"
  by (auto simp: pop_store_def memcpy_def)


subsection \<open>Identifiers\<close>

lemma eff_bits:
  fixes x :: u32
  assumes "x AND CAN_EFF_MASK = x"
  shows "(x OR CAN_EFF_FLAG) AND CAN_EFF_FLAG \<noteq> 0" and "(x OR CAN_EFF_FLAG) AND CAN_ERR_FLAG = 0"
    and "(x OR CAN_EFF_FLAG) AND CAN_RTR_FLAG = 0" and "(x OR CAN_EFF_FLAG) AND CAN_EFF_MASK = x"
proof -
  have no: "x AND m = 0" if "CAN_EFF_MASK AND m = 0" for m
  proof -
    have "x AND m = x AND (CAN_EFF_MASK AND m)" by (subst (1) assms [symmetric]) (rule and.assoc)
    then show ?thesis by (simp only: that and_zero_eq)
  qed
  show "(x OR CAN_EFF_FLAG) AND CAN_EFF_FLAG \<noteq> 0"
    by (simp add: bit.conj_disj_distrib2 no)
  show "(x OR CAN_EFF_FLAG) AND CAN_ERR_FLAG = 0" "(x OR CAN_EFF_FLAG) AND CAN_RTR_FLAG = 0"
    by (simp_all add: bit.conj_disj_distrib2 no)
  show "(x OR CAN_EFF_FLAG) AND CAN_EFF_MASK = x"
    by (simp add: bit.conj_disj_distrib2 assms)
qed

lemma bit_eff_mask: "bit CAN_EFF_MASK n \<longleftrightarrow> n < 29"
proof -
  have "CAN_EFF_MASK = mask 29" by (simp add: mask_eq_exp_minus_1)
  then show ?thesis by (simp only: bit_mask_iff) auto
qed

lemma bit_eff_flag: "bit CAN_EFF_FLAG n \<longleftrightarrow> n = 31"
proof -
  have "CAN_EFF_FLAG = 2 ^ 31" by simp
  then show ?thesis by (simp only: bit_exp_iff) auto
qed

lemma bit_rtr_flag: "bit CAN_RTR_FLAG n \<longleftrightarrow> n = 30"
proof -
  have "CAN_RTR_FLAG = 2 ^ 30" by simp
  then show ?thesis by (simp only: bit_exp_iff) auto
qed

lemma bit_eff_rtr_flag: "bit (3221225472 :: u32) n \<longleftrightarrow> n = 31 \<or> n = 30"
proof -
  have "(3221225472 :: u32) = CAN_EFF_FLAG OR CAN_RTR_FLAG" by simp
  then show ?thesis by (simp only: bit_or_iff bit_eff_flag bit_rtr_flag)
qed

lemma and_eff_flag: "x AND CAN_EFF_FLAG = 0 \<longleftrightarrow> \<not> bit x 31"
  by (auto simp: bit_eq_iff [where 'a = u32] bit_and_iff bit_eff_flag simp del: bit_numeral_word_iff dest: spec [of _ 31])

lemma and_rtr_flag: "x AND CAN_RTR_FLAG = 0 \<longleftrightarrow> \<not> bit x 30"
  by (auto simp: bit_eq_iff [where 'a = u32] bit_and_iff bit_rtr_flag simp del: bit_numeral_word_iff dest: spec [of _ 30])


subsection \<open>Filters\<close>

text \<open>The rule of the kernel: which received identifiers a filter lets through.\<close>

definition kernel_accepts :: "can_filter \<Rightarrow> u32 \<Rightarrow> bool" where
  "kernel_accepts f rx \<longleftrightarrow> rx AND cf_mask f = cf_id f AND cf_mask f"

text \<open>Both sides of the meaning of a filter, bit by bit: only the bits 30 and 31 are not the identifier's.\<close>

lemma kernel_accepts_bits:
  "kernel_accepts (kernel_filter c) rx \<longleftrightarrow>
     (\<forall>n < 32. (bit rx n \<and> ((bit (filter_mask c) n \<and> n < 29) \<or> n = 31 \<or> n = 30)) =
       (((bit (filter_id c) n \<and> n < 29) \<or> n = 31) \<and> ((bit (filter_mask c) n \<and> n < 29) \<or> n = 31 \<or> n = 30)))"
  by (simp add: kernel_accepts_def kernel_filter_def bit_eq_iff [where 'a = u32] bit_and_iff bit_or_iff bit_eff_mask
        bit_eff_flag bit_eff_rtr_flag del: bit_numeral_word_iff)

lemma id_matches_bits:
  "rx AND CAN_EFF_FLAG \<noteq> 0 \<and> rx AND CAN_RTR_FLAG = 0 \<and>
   (rx AND CAN_EFF_MASK) AND filter_mask c = (filter_id c AND CAN_EFF_MASK) AND filter_mask c \<longleftrightarrow>
     bit rx 31 \<and> \<not> bit rx 30 \<and>
     (\<forall>n < 32. (bit rx n \<and> n < 29 \<and> bit (filter_mask c) n) = (bit (filter_id c) n \<and> n < 29 \<and> bit (filter_mask c) n))"
  unfolding and_eff_flag and_rtr_flag
  by (simp add: bit_eq_iff [where 'a = u32] bit_and_iff bit_eff_mask del: bit_numeral_word_iff)

text \<open>The bits apart, this is what both say of a bit of the identifier.\<close>

lemma filter_bits_iff:
  "(\<forall>n < 32. (r n \<and> ((m n \<and> n < 29) \<or> n = 31 \<or> n = 30)) =
      (((i n \<and> n < 29) \<or> n = 31) \<and> ((m n \<and> n < 29) \<or> n = 31 \<or> n = 30))) \<longleftrightarrow>
   r 31 \<and> \<not> r 30 \<and> (\<forall>n < (32 :: nat). (r n \<and> n < 29 \<and> m n) = (i n \<and> n < 29 \<and> m n))"
  (is "(\<forall>n < 32. ?l n) \<longleftrightarrow> ?R")
proof
  assume l: "\<forall>n < 32. ?l n"
  from l [rule_format, of 31] l [rule_format, of 30] have "r 31" "\<not> r 30" by simp_all
  moreover have "(r n \<and> n < 29 \<and> m n) = (i n \<and> n < 29 \<and> m n)" if "n < 32" for n
    using l [rule_format, OF that] by auto
  ultimately show ?R by blast
next
  assume R: ?R
  show "\<forall>n < 32. ?l n"
  proof (intro allI impI)
    fix n :: nat
    assume "n < 32"
    with R show "?l n" by (cases "n = 31"; cases "n = 30") auto
  qed
qed

text \<open>
  C39. The filters the driver installs let through exactly the extended data frames (not remote
  requests) whose identifier agrees with the wanted one on the 29-bit mask.
\<close>

theorem filter_accepts_iff:
  "kernel_accepts (kernel_filter c) rx \<longleftrightarrow>
     rx AND CAN_EFF_FLAG \<noteq> 0 \<and> rx AND CAN_RTR_FLAG = 0 \<and>
     (rx AND CAN_EFF_MASK) AND filter_mask c = (filter_id c AND CAN_EFF_MASK) AND filter_mask c"
  unfolding kernel_accepts_bits id_matches_bits by (rule filter_bits_iff)


subsection \<open>From push to pop\<close>

text \<open>A bus: a written frame goes to its end, a received one is taken from its front.\<close>

definition can_bus :: "'k can_posix \<Rightarrow> ('k \<Rightarrow> bytes list) \<Rightarrow> bool" where
  "can_bus P bus \<longleftrightarrow>
     (\<forall>fd m sec nsec k. bus (snd (can_ppoll P fd m sec nsec k)) = bus k) \<and>
     (\<forall>fd bs k n k'. can_write P fd bs k = (Ret n, k') \<longrightarrow> bus k' = bus k @ [bs]) \<and>
     (\<forall>fd n k msg k'. can_recvmsg P fd n k = (Ret msg, k') \<longrightarrow> bus k = msg_iov msg # bus k')"

lemma can_busD:
  assumes "can_bus P bus"
  shows "bus (snd (can_ppoll P fd m sec nsec k)) = bus k"
    and "can_write P fd bs k = (Ret n, k') \<Longrightarrow> bus k' = bus k @ [bs]"
    and "can_recvmsg P fd c k = (Ret msg, k') \<Longrightarrow> bus k = msg_iov msg # bus k'"
  using assms unfolding can_bus_def by blast+

lemma doPoll_bus:
  assumes "can_bus P bus" and "doPoll P fd m t s = (r, s')"
  shows "bus (kernel_of s') = bus (kernel_of s)"
proof -
  obtain p s1 where 1: "c_call (can_ppoll P fd m (uint (t div 1000000)) (uint (t mod 1000000) * 1000)) s = (p, s1)"
    by (metis surj_pair)
  have "s' = s1" using assms(2) by (auto simp: doPoll_def 1 split: option.splits if_splits)
  with c_call_kernel [OF 1] can_busD(1) [OF assms(1)] show ?thesis by simp
qed

lemma getNegatedErrno_le: "getNegatedErrno s \<le> 1"
  using getNegatedErrno_bounds [of s] by simp

lemma doPoll_le_1: "fst (doPoll P fd m t s) \<le> 1"
  by (simp add: doPoll_def Let_def getNegatedErrno_le split: prod.splits option.splits)

text \<open>An accepted push adds exactly its frame to the bus.\<close>

lemma socketcanPush_bus:
  assumes "can_bus P bus" and "payload_data f = Some payload" and "payload_size f \<le> 64" and "payload_size f \<le> length payload"
    and "socketcanPush P fd (Some f) t s = Some (1, s')"
  shows "bus (kernel_of s') = bus (kernel_of s) @ [pushed f payload]"
proof -
  obtain p s1 where 1: "doPoll P fd POLLOUT t s = (p, s1)" by (metis surj_pair)
  from doPoll_le_1 [of P fd POLLOUT t s] 1 have "p \<le> 1" by simp
  moreover have "0 < p" using assms(2-5) 1 by (auto simp: socketcanPush_def split: if_splits)
  ultimately have p: "doPoll P fd POLLOUT t s = (1, s1)" using 1 by simp
  obtain w s2 where w: "c_call (can_write P fd (pushed f payload)) s1 = (w, s2)" by (metis surj_pair)
  from assms(5) socketcanPush_ready [OF assms(2-4) p] w getNegatedErrno_bounds [of s2]
  obtain n where "w = Some n" and "s' = s2" by (cases w) auto
  with w have "can_write P fd (pushed f payload) (kernel_of s1) = (Ret n, kernel_of s')" by (auto dest: c_call_SomeD)
  with can_busD(2) [OF assms(1)] doPoll_bus [OF assms(1) 1] show ?thesis by simp
qed

text \<open>
  C14. A frame that was pushed comes out of a pop at the other end of the bus as it went in: its
  29-bit identifier, its length and its payload, the bytes of the buffer behind the payload
  untouched. This holds for all payloads of CAN and CAN FD, although small ones travel in the
  shorter format.
\<close>

theorem can_frame_roundtrip:
  assumes "can_bus P bus" and "payload_data f = Some payload" and "length payload = payload_size f" and "payload_size f \<le> 64"
    and "extended_can_id f AND CAN_EFF_MASK = extended_can_id f"
    and "bus (kernel_of s) = []" and "socketcanPush P tx (Some f) t s = Some (1, s1)"
    and "out_frame io = Some f0" and "payload_buffer io = Some buf" and "payload_size f \<le> length buf"
    and "out_timestamp_usec io = None" and "loopback io = Some lb"
    and "doPoll P rx POLLIN t' s1 = (1, s2)" and "fst (can_recvmsg P rx CANFD_MTU (kernel_of s2)) = Ret msg"
  shows "\<exists>io' s3. socketcanPop P rx (length buf) t' io s1 = Some (1, io', s3) \<and>
    out_frame io' = Some \<lparr>extended_can_id = extended_can_id f, payload_size = payload_size f,
                          payload_data = Some (payload @ drop (payload_size f) buf)\<rparr> \<and>
    payload_buffer io' = Some (payload @ drop (payload_size f) buf) \<and> bus (kernel_of s3) = []"
proof -
  have "bus (kernel_of s2) = [pushed f payload]"
    using socketcanPush_bus [OF assms(1,2,4) _ assms(7)] assms(3,6) doPoll_bus [OF assms(1,13)] by simp
  obtain k3 where r: "can_recvmsg P rx CANFD_MTU (kernel_of s2) = (Ret msg, k3)"
    using assms(14) by (metis prod.collapse)
  with can_busD(3) [OF assms(1)] \<open>bus (kernel_of s2) = _\<close> have msg: "msg_iov msg = pushed f payload" and b: "bus k3 = []"
    by auto
  define cfd where "cfd = (push_frame f)\<lparr>frame_data := payload @ replicate (64 - payload_size f) 0\<rparr>"
  have fields: "unat (frame_len cfd) = payload_size f" "can_id cfd = extended_can_id f OR CAN_EFF_FLAG"
      "frame_data cfd = payload @ replicate (64 - payload_size f) 0"
    using assms(4) by (simp_all add: cfd_def push_frame_def unat_of_nat take_bit_nat_eq_self)
  have cfd: "cfd = frame_of (msg_iov msg @ replicate (72 - length (msg_iov msg)) 0)"
    using pushed_frame [OF assms(4), of payload] assms(3) by (simp add: msg cfd_def)
  have 2: "c_call (can_recvmsg P rx CANFD_MTU) s2 = (Some msg, fst s2, k3)"
    using r by (cases s2) (simp add: c_call.simps)
  have len: "length (msg_iov msg) = 16 \<or> length (msg_iov msg) = 72"
    using length_pushed [OF assms(4), of payload] assms(3) by (simp add: msg push_mtu_def)
  have valid: "frame_valid cfd" using eff_bits [OF assms(5)] by (simp add: frame_valid_def fields)
  have "socketcanPop P rx (length buf) t' io s1 = map_option (\<lambda>io. (1, io, (fst s2, k3)))
      (pop_store cfd buf (io\<lparr>loopback := Some (msg_flags msg AND MSG_CONFIRM \<noteq> 0)\<rparr>))"
    using len valid assms(10-12) fields(1)
    by (auto simp: socketcanPop_message [OF assms(8,9,13) 2 cfd] pop_received_def Let_def pop_timestamp_def option.map_comp o_def)
  then show ?thesis
    using assms(3,4,10) b eff_bits(4) [OF assms(5)] by (auto simp: pop_store_Some fields)
qed

subsection \<open>Bounds\<close>



text \<open>
  A push of a payload that the driver accepts (up to 255 bytes) but that does not fit into a
  frame writes past it, exactly when the socket is ready for writing.
\<close>

theorem push_overflows_iff:
  assumes "payload_data f = Some payload" and "length payload = payload_size f"
  shows "socketcanPush P fd (Some f) t s = None \<longleftrightarrow>
         64 < payload_size f \<and> payload_size f \<le> 255 \<and> 0 < fst (doPoll P fd POLLOUT t s)"
  using assms
  by (auto simp: socketcanPush_def Let_def memcpy_None memcpy_Some push_frame_def
           split: prod.splits option.splits if_splits)

end
