(* ===== verification/Comma_Lists.thy ===== *)
theory Comma_Lists
  imports Prelude
begin

text \<open>
  The loop with which the media collections of the daemon split a list of interface addresses
  (\<open>parse\<close> in src/daemon/engine/platform/can/can_media.hpp and udp/udp_media.hpp): positions are
  64-bit integers, \<open>npos\<close> is the largest of them, and \<open>next + 1\<close> wraps to 0 at the end of the list.
  \<open>None\<close> is the exception of \<open>substr\<close>, or that the given number of iterations was not enough; the
  loop is shown to need at most one per character and one more.
\<close>

definition npos :: u64 where "npos = - 1"

definition find_char :: "char \<Rightarrow> string \<Rightarrow> u64 \<Rightarrow> u64" where
  "find_char c s pos = (let n = unat pos + length (takeWhile (\<lambda>x. x \<noteq> c) (drop (unat pos) s))
     in if n < length s then of_nat n else npos)"

definition substr :: "string \<Rightarrow> u64 \<Rightarrow> u64 \<Rightarrow> string option" where
  "substr s pos n = (if length s < unat pos then None else Some (take (unat n) (drop (unat pos) s)))"

fun comma_loop :: "nat \<Rightarrow> string \<Rightarrow> (string \<Rightarrow> 'a \<Rightarrow> 'a) \<Rightarrow> ('a \<Rightarrow> bool) \<Rightarrow> u64 \<Rightarrow> 'a \<Rightarrow> 'a option" where
  "comma_loop 0 s body more pos a = None"
| "comma_loop (Suc n) s body more pos a =
     (if pos \<noteq> npos \<and> more a then
        let next = find_char CHR '','' s pos
        in case substr s pos (next - pos) of
             None \<Rightarrow> None
           | Some piece \<Rightarrow> comma_loop n s body more (max (next + 1) next) (if piece \<noteq> [] then body piece a else a)
      else Some a)"

subsection \<open>The reference\<close>

function split_commas :: "string \<Rightarrow> string list" where
  "split_commas s = (case dropWhile (\<lambda>x. x \<noteq> CHR '','') s of
     [] \<Rightarrow> [s] | _ # r \<Rightarrow> takeWhile (\<lambda>x. x \<noteq> CHR '','') s # split_commas r)"
  by pat_completeness auto
termination
proof (relation "measure length")
  fix s :: string and c r
  assume "dropWhile (\<lambda>x. x \<noteq> CHR '','') s = c # r"
  then have "length (c # r) \<le> length s" by (metis length_dropWhile_le)
  then show "(r, s) \<in> measure length" by simp
qed simp

declare split_commas.simps [simp del]

definition pieces :: "string \<Rightarrow> string list" where
  "pieces s = filter (\<lambda>p. p \<noteq> []) (split_commas s)"

fun each_while :: "(string \<Rightarrow> 'a \<Rightarrow> 'a) \<Rightarrow> ('a \<Rightarrow> bool) \<Rightarrow> string list \<Rightarrow> 'a \<Rightarrow> 'a" where
  "each_while body more [] a = a"
| "each_while body more (p # ps) a = (if more a then each_while body more ps (body p a) else a)"

lemma each_while_stop: "\<not> more a \<Longrightarrow> each_while body more ps a = a"
  by (cases ps) auto

lemma each_while_induct:
  assumes "I a" and "\<And>p a. I a \<Longrightarrow> more a \<Longrightarrow> p \<in> set ps \<Longrightarrow> I (body p a)"
  shows "I (each_while body more ps a)"
  using assms by (induction ps arbitrary: a) auto

subsection \<open>The loop is the reference\<close>

lemma u64_small: "n < 2 ^ 64 - 1 \<Longrightarrow> unat (of_nat n :: u64) = n"
  by (rule unat_of_nat_u64) simp

lemma unat_npos: "unat npos = 2 ^ 64 - 1"
  by (simp add: npos_def unsigned_minus_1_eq_mask mask_eq_exp_minus_1)

lemma of_nat_npos: "n < 2 ^ 64 - 1 \<Longrightarrow> of_nat n \<noteq> npos"
  by (metis less_irrefl u64_small unat_npos)

lemma no_comma_left:
  assumes "length s < 2 ^ 64 - 1" and "p \<le> length s" and "CHR '','' \<notin> set (drop p s)"
  shows "find_char CHR '','' s (of_nat p) = npos" and "substr s (of_nat p) (npos - of_nat p) = Some (drop p s)"
proof -
  have p: "unat (of_nat p :: u64) = p" using assms(1,2) by (intro u64_small) simp
  have "takeWhile (\<lambda>x. x \<noteq> CHR '','') (drop p s) = drop p s" using assms(3) by auto
  then show "find_char CHR '','' s (of_nat p) = npos" using assms(2)
    by (simp add: find_char_def p Let_def del: takeWhile_eq_all_conv)
  have "unat (npos - of_nat p) = 2 ^ 64 - 1 - p"
    using assms(1,2) by (simp add: unat_sub word_le_nat_alt p unat_npos)
  then show "substr s (of_nat p) (npos - of_nat p) = Some (drop p s)"
    using assms(1,2) by (simp add: substr_def p)
qed

lemma comma_found:
  assumes "length s < 2 ^ 64 - 1" and "drop p s = q @ CHR '','' # r" and "CHR '','' \<notin> set q"
  shows "find_char CHR '','' s (of_nat p) = of_nat (p + length q)"
    and "substr s (of_nat p) (of_nat (p + length q) - of_nat p) = Some q"
    and "max (of_nat (p + length q) + 1) (of_nat (p + length q) :: u64) = of_nat (p + length q + 1)"
    and "drop (p + length q + 1) s = r"
proof -
  have "length (drop p s) = length q + 1 + length r" by (simp add: assms(2))
  then have len: "p + length q + 1 + length r = length s" by simp
  have p: "unat (of_nat p :: u64) = p" "unat (of_nat (p + length q) :: u64) = p + length q"
      "unat (of_nat (p + length q + 1) :: u64) = p + length q + 1"
    using assms(1) len by (intro u64_small; simp)+
  have "takeWhile (\<lambda>x. x \<noteq> CHR '','') (drop p s) = q"
    using assms(2,3) by (simp add: takeWhile_append)
  then show "find_char CHR '','' s (of_nat p) = of_nat (p + length q)"
    using len by (simp add: find_char_def p(1))
  have "of_nat (p + length q) - of_nat p = (of_nat (length q) :: u64)" by simp
  moreover have "unat (of_nat (length q) :: u64) = length q" using assms(1) len by (intro u64_small) simp
  ultimately show "substr s (of_nat p) (of_nat (p + length q) - of_nat p) = Some q"
    using assms(2) len by (simp add: substr_def p(1))
  have "(of_nat (p + length q) :: u64) + 1 = of_nat (p + length q + 1)" by simp
  moreover have "(of_nat (p + length q) :: u64) \<le> of_nat (p + length q + 1)"
    unfolding word_le_nat_alt p(2,3) by simp
  ultimately show "max (of_nat (p + length q) + 1) (of_nat (p + length q) :: u64) = of_nat (p + length q + 1)"
    by (simp only: max_def) simp
  have "drop (p + length q + 1) s = drop (length q + 1) (drop p s)" by (simp add: add.commute add.left_commute)
  then show "drop (p + length q + 1) s = r" by (simp add: assms(2))
qed

lemma comma_loop_from:
  assumes "length s < 2 ^ 64 - 1" and "p \<le> length s" and "length s - p + 1 < n"
  shows "comma_loop n s body more (of_nat p) a = Some (each_while body more (pieces (drop p s)) a)"
  using assms(2,3)
proof (induction n arbitrary: p a)
  case (Suc n)
  have np: "(of_nat p :: u64) \<noteq> npos" by (rule of_nat_npos) (use Suc.prems assms(1) in simp)
  show ?case
  proof (cases "more a")
    case False
    then show ?thesis by (simp add: each_while_stop)
  next
    case True
    show ?thesis
    proof (cases "CHR '','' \<in> set (drop p s)")
      case False
      note here = no_comma_left [OF assms(1) Suc.prems(1) False]
      have "dropWhile (\<lambda>x. x \<noteq> CHR '','') (drop p s) = []" using False by (simp add: dropWhile_eq_Nil_conv) auto
      then have "pieces (drop p s) = (if drop p s = [] then [] else [drop p s])"
        by (simp add: pieces_def split_commas.simps [of "drop p s"] del: dropWhile_eq_Nil_conv)
      moreover obtain n' where n': "n = Suc n'" using Suc.prems(2) by (cases n) auto
      moreover have "max (npos + 1) npos = npos" by (simp add: npos_def max_def)
      ultimately show ?thesis using True np here by (simp add: Let_def)
    next
      case found: True
      then obtain q r where qr: "drop p s = q @ CHR '','' # r" and q: "CHR '','' \<notin> set q"
        by (metis split_list_first)
      note here = comma_found [OF assms(1) qr q]
      have len: "p + length q + 1 + length r = length s"
        using arg_cong [OF qr, of length] Suc.prems(1) by simp
      have "takeWhile (\<lambda>x. x \<noteq> CHR '','') (drop p s) = q" and "dropWhile (\<lambda>x. x \<noteq> CHR '','') (drop p s) = CHR '','' # r"
        using qr q by (simp_all add: takeWhile_append dropWhile_append)
      then have ps: "pieces (drop p s) = (if q = [] then [] else [q]) @ pieces r"
        by (simp add: pieces_def split_commas.simps [of "drop p s"])
      have IH: "comma_loop n s body more (of_nat (p + length q + 1)) b = Some (each_while body more (pieces r) b)" for b
        using Suc.IH [of "p + length q + 1" b] Suc.prems(2) len here(4) by simp
      show ?thesis
        using True np by (simp only: comma_loop.simps here(1-3) Let_def option.case IH ps) simp
    qed
  qed
qed simp

lemma comma_loop_pieces:
  "length s < 2 ^ 64 - 1 \<Longrightarrow> comma_loop (length s + 2) s body more 0 a = Some (each_while body more (pieces s) a)"
  using comma_loop_from [of s 0 "length s + 2" body more a] by simp

end
