(* ===== verification/Can_Media.thy ===== *)
theory Can_Media
  imports Socket_Can_Frames Comma_Lists
begin

text \<open>
  The CAN media of the daemon, src/daemon/engine/platform/can/can_media.hpp: one interface with its
  two sockets, and the collection of at most three of them that a list of addresses asks for. A
  moved-from medium has the descriptors -1. The executor is an argument where callbacks are
  registered; the memory resources are left out.
\<close>

subsection \<open>One interface\<close>

record can_media =
  socket_can_rx_fd :: int
  socket_can_tx_fd :: int
  can_iface_address :: string

definition CanMedia_make :: "'k can_posix \<Rightarrow> string \<Rightarrow> 'k c_state \<Rightarrow> (int + can_media) \<times> 'k c_state" where
  "CanMedia_make P iface_address s =
     (let (rx_fd, s) = socketcanOpen P (c_str iface_address) False s
      in if rx_fd < 0 then (Inl (- rx_fd), s)
         else let (tx_fd, s) = socketcanOpen P (c_str iface_address) False s
           in if tx_fd < 0 then (let s = c_void (can_close P rx_fd) s in (Inl (- tx_fd), s))
              else (Inr \<lparr>socket_can_rx_fd = rx_fd, socket_can_tx_fd = tx_fd, can_iface_address = iface_address\<rparr>, s))"

definition close_if_open :: "'k can_posix \<Rightarrow> int \<Rightarrow> 'k c_state \<Rightarrow> 'k c_state" where
  "close_if_open P fd s = (if 0 \<le> fd then c_void (can_close P fd) s else s)"

definition CanMedia_destroy :: "'k can_posix \<Rightarrow> can_media \<Rightarrow> 'k c_state \<Rightarrow> 'k c_state" where
  "CanMedia_destroy P m s = close_if_open P (socket_can_tx_fd m) (close_if_open P (socket_can_rx_fd m) s)"

text \<open>The move constructor: the new medium and what is left of the other one.\<close>

definition CanMedia_move :: "can_media \<Rightarrow> can_media \<times> can_media" where
  "CanMedia_move other = (other, \<lparr>socket_can_rx_fd = - 1, socket_can_tx_fd = - 1, can_iface_address = []\<rparr>)"

definition CanMedia_tryReopen :: "'k can_posix \<Rightarrow> can_media \<Rightarrow> 'k c_state \<Rightarrow> can_media \<times> 'k c_state" where
  "CanMedia_tryReopen P m s =
     (let (m, s) = (if 0 \<le> socket_can_rx_fd m
                    then (m\<lparr>socket_can_rx_fd := - 1\<rparr>, c_void (can_close P (socket_can_rx_fd m)) s) else (m, s));
          (m, s) = (if 0 \<le> socket_can_tx_fd m
                    then (m\<lparr>socket_can_tx_fd := - 1\<rparr>, c_void (can_close P (socket_can_tx_fd m)) s) else (m, s));
          (rx_fd, s) = socketcanOpen P (c_str (can_iface_address m)) False s;
          m = (if 0 \<le> rx_fd then m\<lparr>socket_can_rx_fd := rx_fd\<rparr> else m);
          (tx_fd, s) = socketcanOpen P (c_str (can_iface_address m)) False s;
          m = (if 0 \<le> tx_fd then m\<lparr>socket_can_tx_fd := tx_fd\<rparr> else m)
      in (m, s))"

datatype trigger = Readable int | Writable int

text \<open>Registering at an executor that may lack the extension for descriptors.\<close>

definition registerAwaitableCallback :: "('f \<Rightarrow> trigger \<Rightarrow> 'c) option \<Rightarrow> 'f \<Rightarrow> trigger \<Rightarrow> 'c option" where
  "registerAwaitableCallback posix_executor_ext function trigger =
     (case posix_executor_ext of None \<Rightarrow> None | Some register \<Rightarrow> Some (register function trigger))"

definition registerPushCallback :: "('f \<Rightarrow> trigger \<Rightarrow> 'c) option \<Rightarrow> can_media \<Rightarrow> 'f \<Rightarrow> 'c option" where
  "registerPushCallback ext m function = registerAwaitableCallback ext function (Writable (socket_can_tx_fd m))"

definition registerPopCallback :: "('f \<Rightarrow> trigger \<Rightarrow> 'c) option \<Rightarrow> can_media \<Rightarrow> 'f \<Rightarrow> 'c option" where
  "registerPopCallback ext m function = registerAwaitableCallback ext function (Readable (socket_can_rx_fd m))"

definition CanMedia_getMtu :: nat where "CanMedia_getMtu = 8"

text \<open>
  \<open>data()\<close> of a vector in which nothing was ever stored is NULL (as in the usual libraries).
\<close>

definition vector_data :: "'a list \<Rightarrow> 'a list option" where
  "vector_data xs = (if xs = [] then None else Some xs)"

definition CanMedia_setFilters ::
    "'k can_posix \<Rightarrow> can_media \<Rightarrow> canard_filter list \<Rightarrow> 'k c_state \<Rightarrow> (int option \<times> 'k c_state) option" where
  "CanMedia_setFilters P m filters s =
     map_option (\<lambda>(result, s). (if result < 0 then Some (- result) else None, s))
       (socketcanFilter P (socket_can_rx_fd m) (length filters) (vector_data filters) s)"

text \<open>The payload is a buffer or, once reset, nothing; whether the frame was taken.\<close>

definition CanMedia_push ::
    "'k can_posix \<Rightarrow> can_media \<Rightarrow> u32 \<Rightarrow> bytes option \<Rightarrow> 'k c_state \<Rightarrow> ((int + bool) \<times> bytes option \<times> 'k c_state) option" where
  "CanMedia_push P m ident payload s =
     map_option (\<lambda>(result, s).
         if result < 0 then (Inl (- result), payload, s)
         else let is_accepted = (0 < result) in (Inr is_accepted, if is_accepted then None else payload, s))
       (socketcanPush P (socket_can_tx_fd m)
          (Some \<lparr>extended_can_id = ident, payload_size = (case payload of None \<Rightarrow> 0 | Some bs \<Rightarrow> length bs),
                 payload_data = payload\<rparr>) 0 s)"

text \<open>The identifier and the size of a received frame; the buffer holds the payload.\<close>

definition CanMedia_pop ::
    "'k can_posix \<Rightarrow> can_media \<Rightarrow> bytes \<Rightarrow> 'k c_state \<Rightarrow> ((int + (u32 \<times> nat) option) \<times> bytes option \<times> 'k c_state) option" where
  "CanMedia_pop P m buffer s =
     map_option (\<lambda>(result, io, s).
         (if result < 0 then Inl (- result)
          else if result = 0 then Inr None
          else Inr (map_option (\<lambda>f. (extended_can_id f, payload_size f)) (out_frame io)), payload_buffer io, s))
       (socketcanPop P (socket_can_rx_fd m) (length buffer) 0
          \<lparr>out_frame = Some \<lparr>extended_can_id = 0, payload_size = 0, payload_data = None\<rparr>,
           out_timestamp_usec = None, payload_buffer = Some buffer, loopback = Some False\<rparr> s)"

subsection \<open>The collection\<close>

abbreviation MaxCanMedia :: nat where "MaxCanMedia \<equiv> 3"

text \<open>\<open>media_ifaces\<close> points into \<open>media_array\<close>: a pointer is the index of its element.\<close>

record can_collection =
  media_array :: "can_media option list"
  media_ifaces :: "nat option list"

definition CanMediaCollection_make :: can_collection where
  "CanMediaCollection_make = \<lparr>media_array = [None, None, None], media_ifaces = [None, None, None]\<rparr>"

definition reset_element :: "'k can_posix \<Rightarrow> nat \<Rightarrow> can_collection \<times> 'k c_state \<Rightarrow> can_collection \<times> 'k c_state" where
  "reset_element P i = (\<lambda>(c, s).
     (c\<lparr>media_array := (media_array c)[i := None], media_ifaces := (media_ifaces c)[i := None]\<rparr>,
      case media_array c ! i of None \<Rightarrow> s | Some m \<Rightarrow> CanMedia_destroy P m s))"

text \<open>One address: the made medium is moved into the array and what is left of it destroyed.\<close>

definition add_media ::
    "'k can_posix \<Rightarrow> string \<Rightarrow> nat \<times> can_collection \<times> 'k c_state \<Rightarrow> nat \<times> can_collection \<times> 'k c_state" where
  "add_media P iface_address = (\<lambda>(index, c, s).
     (let (maybe_media, s) = CanMedia_make P iface_address s
      in case maybe_media of Inl _ \<Rightarrow> (index, c, s)
         | Inr media \<Rightarrow>
             (let (m, left) = CanMedia_move media;
                  c = c\<lparr>media_array := (media_array c)[index := Some m], media_ifaces := (media_ifaces c)[index := Some index]\<rparr>
              in (index + 1, c, CanMedia_destroy P left s))))"

definition CanMediaCollection_parse ::
    "'k can_posix \<Rightarrow> string \<Rightarrow> can_collection \<Rightarrow> 'k c_state \<Rightarrow> (can_collection \<times> 'k c_state) option" where
  "CanMediaCollection_parse P iface_addresses c s =
     (let (c, s) = fold (reset_element P) [0..<MaxCanMedia] (c, s)
      in map_option snd (comma_loop (length iface_addresses + 2) iface_addresses (add_media P)
           (\<lambda>(index, _). index < MaxCanMedia) 0 (0, c, s)))"

definition CanMediaCollection_count :: "can_collection \<Rightarrow> nat" where
  "CanMediaCollection_count c = length (filter (\<lambda>iface. iface \<noteq> None) (media_ifaces c))"

end
