(* ===== verification/Can_Media_Safe.thy ===== *)
theory Can_Media_Safe
  imports Can_Media "HOL-Library.Sublist"
begin

text \<open>
  The media of src/daemon/engine/platform/can/can_media.hpp neither lose nor share a descriptor:
  making, moving, reopening and destroying one, and parsing a list of addresses into a collection.
\<close>

definition media_open :: "can_media \<Rightarrow> int list" where
  "media_open m = filter (\<lambda>fd. 0 \<le> fd) [socket_can_rx_fd m, socket_can_tx_fd m]"

definition owned :: "can_media list \<Rightarrow> int list" where
  "owned ms = concat (map media_open ms)"

lemma owned_simps [simp]: "owned [] = []" "owned (m # ms) = media_open m @ owned ms" "owned (ms @ ns) = owned ms @ owned ns"
  by (simp_all add: owned_def)

subsection \<open>One medium\<close>

lemma close_void_fds: "can_fds P fds \<Longrightarrow> fds (kernel_of (c_void (can_close P fd) s)) = fds (kernel_of s) - {fd}"
  by (rule closes_c_void(1) [OF can_fdsD(3)])

lemma close_if_open_fds:
  "can_fds P fds \<Longrightarrow> fds (kernel_of (close_if_open P fd s)) = fds (kernel_of s) - set (filter (\<lambda>fd. 0 \<le> fd) [fd])"
  by (simp add: close_if_open_def close_void_fds)

lemma CanMedia_destroy_fds:
  "can_fds P fds \<Longrightarrow> fds (kernel_of (CanMedia_destroy P m s)) = fds (kernel_of s) - set (media_open m)"
  by (auto simp: CanMedia_destroy_def close_if_open_fds media_open_def)

lemma CanMedia_destroy_moved:
  "CanMedia_destroy P (snd (CanMedia_move m)) s = s"
  by (simp add: CanMedia_destroy_def CanMedia_move_def close_if_open_def)

lemma CanMedia_make_fds:
  assumes "can_fds P fds" and "CanMedia_make P name s = (r, s')"
  shows "case r of
      Inl err \<Rightarrow> 0 < err \<and> fds (kernel_of s') = fds (kernel_of s)
    | Inr m \<Rightarrow> can_iface_address m = name \<and> length (media_open m) = 2 \<and> distinct (media_open m) \<and>
        set (media_open m) \<inter> fds (kernel_of s) = {} \<and> fds (kernel_of s') = fds (kernel_of s) \<union> set (media_open m)"
proof -
  obtain rx s1 where 1: "socketcanOpen P (c_str name) False s = (rx, s1)" by (metis surj_pair)
  obtain tx s2 where 2: "socketcanOpen P (c_str name) False s1 = (tx, s2)" by (metis surj_pair)
  note o1 = socketcanOpen_fds [OF assms(1) 1] and o2 = socketcanOpen_fds [OF assms(1) 2]
  consider (rx) "rx < 0" | (tx) "0 \<le> rx" "tx < 0" | (both) "0 \<le> rx" "0 \<le> tx" by linarith
  then show ?thesis
  proof cases
    case rx
    then have "r = Inl (- rx)" "s' = s1" using assms(2) 1 by (simp_all add: CanMedia_make_def)
    with rx o1 show ?thesis by simp
  next
    case tx
    then have "r = Inl (- tx)" "s' = c_void (can_close P rx) s2"
      using assms(2) 1 2 by (simp_all add: CanMedia_make_def Let_def)
    with tx o1 o2 show ?thesis by (simp add: close_void_fds [OF assms(1)])
  next
    case both
    then have "r = Inr \<lparr>socket_can_rx_fd = rx, socket_can_tx_fd = tx, can_iface_address = name\<rparr>" "s' = s2"
      using assms(2) 1 2 by (simp_all add: CanMedia_make_def Let_def)
    with both o1 o2 show ?thesis by (auto simp: media_open_def)
  qed
qed

text \<open>Reopening: the old sockets are closed, and exactly those that could be opened again are owned.\<close>

lemma CanMedia_tryReopen_fds:
  assumes "can_fds P fds" and "CanMedia_tryReopen P m s = (m', s')"
  shows "can_iface_address m' = can_iface_address m \<and> distinct (media_open m') \<and>
    set (media_open m') \<inter> (fds (kernel_of s) - set (media_open m)) = {} \<and>
    fds (kernel_of s') = (fds (kernel_of s) - set (media_open m)) \<union> set (media_open m')"
proof -
  define s0 where "s0 = CanMedia_destroy P m s"
  obtain rx s1 where 1: "socketcanOpen P (c_str (can_iface_address m)) False s0 = (rx, s1)" by (metis surj_pair)
  obtain tx s2 where 2: "socketcanOpen P (c_str (can_iface_address m)) False s1 = (tx, s2)" by (metis surj_pair)
  note o1 = socketcanOpen_fds [OF assms(1) 1] and o2 = socketcanOpen_fds [OF assms(1) 2]
  have "s' = s2" and "can_iface_address m' = can_iface_address m"
    and "media_open m' = filter (\<lambda>fd. 0 \<le> fd) [rx, tx]"
    using assms(2) 1 2
    by (auto simp: CanMedia_tryReopen_def Let_def s0_def CanMedia_destroy_def close_if_open_def media_open_def split: if_splits)
  with o1 o2 CanMedia_destroy_fds [OF assms(1), of m s, folded s0_def] show ?thesis
    by (auto split: if_splits)
qed

subsection \<open>The collection\<close>

text \<open>The media in the first places of the array, each pointed to; the other places are empty.\<close>

definition holds :: "can_media list \<Rightarrow> can_collection \<Rightarrow> bool" where
  "holds ms c \<longleftrightarrow> length ms \<le> 3 \<and>
     media_array c = map Some ms @ replicate (3 - length ms) None \<and>
     media_ifaces c = map Some [0..<length ms] @ replicate (3 - length ms) None"

lemma holds_make: "holds [] CanMediaCollection_make"
  by (simp add: holds_def CanMediaCollection_make_def numeral_3_eq_3)

lemma holds_count: "holds ms c \<Longrightarrow> CanMediaCollection_count c = length ms"
  by (simp add: holds_def CanMediaCollection_count_def filter_map o_def)

lemma update_end: "length ms < n \<Longrightarrow>
    (map f ms @ replicate (n - length ms) d)[length ms := e] = map f ms @ [e] @ replicate (n - length ms - 1) d"
  by (cases "n - length ms") (simp_all add: list_update_append)

lemma holds_add:
  assumes "holds ms c" and "length ms < 3"
  shows "holds (ms @ [m]) (c\<lparr>media_array := (media_array c)[length ms := Some m],
                            media_ifaces := (media_ifaces c)[length ms := Some (length ms)]\<rparr>)"
proof -
  have "(media_array c)[length ms := Some m] = map Some ms @ [Some m] @ replicate (3 - length ms - 1) None"
    using assms update_end [of ms 3 Some None "Some m"] by (simp add: holds_def)
  moreover have "(media_ifaces c)[length ms := Some (length ms)] =
      map Some [0..<length ms] @ [Some (length ms)] @ replicate (3 - length ms - 1) None"
    using assms update_end [of "[0..<length ms]" 3 Some None "Some (length ms)"] by (simp add: holds_def)
  ultimately show ?thesis using assms by (simp add: holds_def)
qed

text \<open>Resetting destroys every medium.\<close>

lemma upt3: "[0..<3] = [0, 1, 2 :: nat]"
  by (simp add: upt_rec)

lemma reset_all:
  assumes "can_fds P fds" and "length (media_array c) = 3" and "length (media_ifaces c) = 3"
    and "fold (reset_element P) [0..<MaxCanMedia] (c, s) = (c', s')"
  shows "holds [] c' \<and> fds (kernel_of s') = fds (kernel_of s) - set (owned (List.map_filter id (media_array c)))"
proof -
  obtain a0 a1 a2 where a: "media_array c = [a0, a1, a2]"
    using assms(2) by (auto simp: numeral_3_eq_3 length_Suc_conv)
  obtain i0 i1 i2 where i: "media_ifaces c = [i0, i1, i2]"
    using assms(3) by (auto simp: numeral_3_eq_3 length_Suc_conv)
  from assms(4) show ?thesis
    by (cases a0; cases a1; cases a2; simp add: upt3 reset_element_def a i holds_def List.map_filter_def;
        auto simp: CanMedia_destroy_fds [OF assms(1)] numeral_3_eq_3)
qed

lemma add_media_step:
  assumes "can_fds P fds" and "holds ms c" and "length ms < 3" and "distinct (owned ms)"
    and "fds (kernel_of s) = B \<union> set (owned ms)" and "set (owned ms) \<inter> B = {}"
  shows "\<exists>new c' s'. add_media P name (length ms, c, s) = (length (ms @ new), c', s') \<and> holds (ms @ new) c' \<and>
    (map can_iface_address new = [] \<or> map can_iface_address new = [name]) \<and> distinct (owned (ms @ new)) \<and>
    length (owned new) = 2 * length new \<and>
    fds (kernel_of s') = B \<union> set (owned (ms @ new)) \<and> set (owned (ms @ new)) \<inter> B = {}"
proof -
  obtain r s1 where r: "CanMedia_make P name s = (r, s1)" by (metis surj_pair)
  note made = CanMedia_make_fds [OF assms(1) r]
  show ?thesis
  proof (cases r)
    case (Inl e)
    with r made assms show ?thesis by (intro exI [of _ "[]"]) (simp add: add_media_def)
  next
    case (Inr m)
    have "add_media P name (length ms, c, s) = (length (ms @ [m]),
        c\<lparr>media_array := (media_array c)[length ms := Some m], media_ifaces := (media_ifaces c)[length ms := Some (length ms)]\<rparr>, s1)"
      using CanMedia_destroy_moved [of P m s1] by (simp add: add_media_def r Inr CanMedia_move_def)
    with made Inr assms holds_add [OF assms(2,3), of m] show ?thesis
      by (intro exI [of _ "[m]"]) auto
  qed
qed

lemma add_all:
  assumes "can_fds P fds" and "holds ms c" and "distinct (owned ms)"
    and "fds (kernel_of s) = B \<union> set (owned ms)" and "set (owned ms) \<inter> B = {}"
  shows "\<exists>new c' s'. each_while (add_media P) (\<lambda>(index, _). index < MaxCanMedia) ps (length ms, c, s) = (length (ms @ new), c', s') \<and>
    holds (ms @ new) c' \<and> subseq (map can_iface_address new) ps \<and> distinct (owned (ms @ new)) \<and>
    length (owned new) = 2 * length new \<and>
    fds (kernel_of s') = B \<union> set (owned (ms @ new)) \<and> set (owned (ms @ new)) \<inter> B = {}"
  using assms(2-)
proof (induction ps arbitrary: ms c s)
  case Nil
  then show ?case by (intro exI [of _ "[]"]) simp
next
  case (Cons p ps)
  show ?case
  proof (cases "length ms < 3")
    case False
    with Cons.prems show ?thesis by (intro exI [of _ "[]"]) simp
  next
    case True
    from add_media_step [OF assms(1) Cons.prems(1) True Cons.prems(2-4), of p]
    obtain new1 c1 s1 where 1: "add_media P p (length ms, c, s) = (length (ms @ new1), c1, s1)" "holds (ms @ new1) c1"
      "map can_iface_address new1 = [] \<or> map can_iface_address new1 = [p]" "distinct (owned (ms @ new1))"
      "length (owned new1) = 2 * length new1"
      "fds (kernel_of s1) = B \<union> set (owned (ms @ new1))" "set (owned (ms @ new1)) \<inter> B = {}" by (elim exE conjE) (rule that)
    from Cons.IH [OF 1(2,4,6,7)] obtain new2 c2 s2 where
      2: "each_while (add_media P) (\<lambda>(index, _). index < MaxCanMedia) ps (length (ms @ new1), c1, s1) = (length ((ms @ new1) @ new2), c2, s2)"
      "holds ((ms @ new1) @ new2) c2" "subseq (map can_iface_address new2) ps" "distinct (owned ((ms @ new1) @ new2))"
      "length (owned new2) = 2 * length new2"
      "fds (kernel_of s2) = B \<union> set (owned ((ms @ new1) @ new2))" "set (owned ((ms @ new1) @ new2)) \<inter> B = {}"
      by (elim exE conjE) (rule that)
    have "subseq (map can_iface_address (new1 @ new2)) (p # ps)" using 1(3) 2(3) by auto
    with 1(1,5) 2 True show ?thesis by (intro exI [of _ "new1 @ new2"]) simp
  qed
qed

lemma can_collection_parse_lemma:
  assumes "can_fds P fds" and "length (media_array c) = 3" and "length (media_ifaces c) = 3"
    and "length addresses < 2 ^ 64 - 1"
  shows "\<exists>ms c' s'. CanMediaCollection_parse P addresses c s = Some (c', s') \<and> holds ms c' \<and>
    CanMediaCollection_count c' = length ms \<and> subseq (map can_iface_address ms) (pieces addresses) \<and>
    distinct (owned ms) \<and> length (owned ms) = 2 * length ms \<and>
    set (owned ms) \<inter> (fds (kernel_of s) - set (owned (List.map_filter id (media_array c)))) = {} \<and>
    fds (kernel_of s') = (fds (kernel_of s) - set (owned (List.map_filter id (media_array c)))) \<union> set (owned ms)"
proof -
  obtain c1 s1 where 1: "fold (reset_element P) [0..<MaxCanMedia] (c, s) = (c1, s1)" by (metis surj_pair)
  note reset = reset_all [OF assms(1-3) 1]
  from add_all [OF assms(1) reset [THEN conjunct1], of s1 "fds (kernel_of s1)" "pieces addresses"] obtain new c' s' where
    2: "each_while (add_media P) (\<lambda>(index, _). index < MaxCanMedia) (pieces addresses) (0, c1, s1) = (length new, c', s')"
    "holds new c'" "subseq (map can_iface_address new) (pieces addresses)" "distinct (owned new)" "length (owned new) = 2 * length new"
    "fds (kernel_of s') = fds (kernel_of s1) \<union> set (owned new)" "set (owned new) \<inter> fds (kernel_of s1) = {}" by auto
  have "CanMediaCollection_parse P addresses c s = Some (c', s')"
    using 2(1) comma_loop_pieces [OF assms(4), of "add_media P" "\<lambda>(index, _). index < MaxCanMedia" "(0, c1, s1)"]
    by (simp add: CanMediaCollection_parse_def 1)
  with 2 reset holds_count [OF 2(2)] show ?thesis by auto
qed

text \<open>
  C13. Parsing a list of CAN interface addresses destroys the earlier media of the collection and
  makes at most three: for a subsequence of the non-empty addresses between the commas (those that
  could be opened), in their order, in the first places of the array, each with two open sockets.
  Exactly these sockets are open afterwards in place of the earlier ones: nothing leaks, no
  descriptor is shared, and the positions the loop computes never leave the text.
\<close>

theorem can_collection_parse:
  assumes "can_fds P fds" and "length (media_array c) = 3" and "length (media_ifaces c) = 3"
    and "length addresses < 2 ^ 64 - 1"
  shows "\<exists>ms c' s'. CanMediaCollection_parse P addresses c s = Some (c', s') \<and> holds ms c' \<and>
    CanMediaCollection_count c' = length ms \<and> subseq (map can_iface_address ms) (pieces addresses) \<and>
    distinct (owned ms) \<and> length (owned ms) = 2 * length ms \<and>
    set (owned ms) \<inter> (fds (kernel_of s) - set (owned (List.map_filter id (media_array c)))) = {} \<and>
    fds (kernel_of s') = (fds (kernel_of s) - set (owned (List.map_filter id (media_array c)))) \<union> set (owned ms)"
  by (rule can_collection_parse_lemma [OF assms])

end
