(* ===== verification/Udp_Sockets.thy ===== *)
theory Udp_Sockets
  imports Can_Media
begin

text \<open>
  The UDP driver of the daemon, src/daemon/engine/platform/udp/udp.c, its sockets (udp_sockets.hpp)
  and media (udp_media.hpp). The kernel is an argument (\<open>udp_posix\<close>), a handle that may be NULL is an
  option, allocation is an argument that says whether it succeeds.
\<close>

subsection \<open>The calls\<close>

datatype udp_option =
    IP_MULTICAST_TTL int
  | IP_MULTICAST_IF u32
  | IP_TOS int
  | UDP_REUSEADDR int
  | UDP_REUSEPORT int
  | IP_ADD_MEMBERSHIP u32 u32

record 'k udp_posix =
  udp_socket :: "('k, int) syscall"
  udp_bind :: "int \<Rightarrow> u32 \<Rightarrow> u16 \<Rightarrow> ('k, unit) syscall"
  udp_nonblock :: "int \<Rightarrow> ('k, unit) syscall"
  udp_setsockopt :: "int \<Rightarrow> udp_option \<Rightarrow> ('k, unit) syscall"
  udp_sendto :: "int \<Rightarrow> bytes \<Rightarrow> u32 \<Rightarrow> u16 \<Rightarrow> ('k, nat) syscall"
  udp_recv :: "int \<Rightarrow> nat \<Rightarrow> ('k, bytes) syscall"
  udp_poll :: "(int \<times> u16) list \<Rightarrow> int \<Rightarrow> ('k, u16 list) syscall"
  udp_close :: "int \<Rightarrow> ('k, unit) syscall"

definition htonl :: "u32 \<Rightarrow> u32" where
  "htonl x = of_nat (le_nat (rev (le_bytes 4 (unat x))))"

text \<open>The conversion to \<open>int16_t\<close>.\<close>

definition to_int16 :: "int \<Rightarrow> int" where
  "to_int16 x = (x + 32768) mod 65536 - 32768"

definition OVERRIDE_TTL :: int where "OVERRIDE_TTL = 16"
definition DSCP_MAX :: u8 where "DSCP_MAX = 63"

definition isMulticast :: "u32 \<Rightarrow> bool" where
  "isMulticast address \<longleftrightarrow> address AND 0xF0000000 = 0xE0000000"

subsection \<open>Transmission\<close>

text \<open>\<open>self->fd = socket(...)\<close>, and what both initialisations do at their end.\<close>

definition open_handle :: "'k udp_posix \<Rightarrow> 'k c_state \<Rightarrow> int \<times> bool \<times> 'k c_state" where
  "open_handle P s = (let (r, s) = c_call (udp_socket P) s; fd = (case r of Some fd \<Rightarrow> fd | None \<Rightarrow> - 1) in (fd, 0 \<le> fd, s))"

definition finish_handle :: "'k udp_posix \<Rightarrow> int \<Rightarrow> bool \<times> 'k c_state \<Rightarrow> int \<times> int option \<times> 'k c_state" where
  "finish_handle P fd = (\<lambda>(ok, s).
     if ok then (0, Some fd, s)
     else let res = to_int16 (- errno_of s) in (res, Some (- 1), c_void (udp_close P fd) s))"

definition udpTxInit :: "'k udp_posix \<Rightarrow> int option \<Rightarrow> u32 \<Rightarrow> 'k c_state \<Rightarrow> int \<times> int option \<times> 'k c_state" where
  "udpTxInit P self local_iface_address s =
     (if self \<noteq> None \<and> 0 < local_iface_address then
        (let (fd, ok, s) = open_handle P s; local_iface_be = htonl local_iface_address
         in finish_handle P fd
              (c_and (udp_setsockopt P fd (IP_MULTICAST_IF local_iface_be))
              (c_and (udp_setsockopt P fd (IP_MULTICAST_TTL OVERRIDE_TTL))
              (c_and (udp_nonblock P fd)
              (c_and (udp_bind P fd local_iface_be 0) (ok, s))))))
      else (- EINVAL, self, s))"

definition udpTxSend ::
    "'k udp_posix \<Rightarrow> int option \<Rightarrow> u32 \<Rightarrow> u16 \<Rightarrow> u8 \<Rightarrow> bytes option \<Rightarrow> 'k c_state \<Rightarrow> int \<times> 'k c_state" where
  "udpTxSend P self remote_address remote_port dscp payload s =
     (case (self, payload) of
        (Some fd, Some bs) \<Rightarrow>
          (if 0 \<le> fd \<and> 0 < remote_address \<and> 0 < remote_port \<and> dscp \<le> DSCP_MAX then
             (let s = c_void (udp_setsockopt P fd (IP_TOS (uint dscp * 4))) s;
                  (send_result, s) = c_call (udp_sendto P fd bs (htonl remote_address) (htons remote_port)) s
              in if send_result = Some (length bs) then (1, s)
                 else if errno_of s = EAGAIN \<or> errno_of s = EWOULDBLOCK then (0, s)
                 else (to_int16 (- errno_of s), s))
           else (- EINVAL, s))
      | _ \<Rightarrow> (- EINVAL, s))"

definition udpClose :: "'k udp_posix \<Rightarrow> int option \<Rightarrow> 'k c_state \<Rightarrow> int option \<times> 'k c_state" where
  "udpClose P self s =
     (case self of Some fd \<Rightarrow> (if 0 \<le> fd then (Some (- 1), c_void (udp_close P fd) s) else (self, s)) | None \<Rightarrow> (self, s))"

definition udpTxClose :: "'k udp_posix \<Rightarrow> int option \<Rightarrow> 'k c_state \<Rightarrow> int option \<times> 'k c_state" where
  "udpTxClose = udpClose"

subsection \<open>Reception\<close>

definition udpRxInit :: "'k udp_posix \<Rightarrow> int option \<Rightarrow> u32 \<Rightarrow> u32 \<Rightarrow> u16 \<Rightarrow> 'k c_state \<Rightarrow> int \<times> int option \<times> 'k c_state" where
  "udpRxInit P self local_iface_address multicast_group remote_port s =
     (if self \<noteq> None \<and> 0 < local_iface_address \<and> isMulticast multicast_group \<and> 0 < remote_port then
        (let (fd, ok, s) = open_handle P s
         in finish_handle P fd
              (c_and (udp_setsockopt P fd (IP_ADD_MEMBERSHIP (htonl multicast_group) (htonl local_iface_address)))
              (c_and (udp_bind P fd (htonl multicast_group) (htons remote_port))
              (c_and (udp_setsockopt P fd (UDP_REUSEPORT 1))
              (c_and (udp_setsockopt P fd (UDP_REUSEADDR 1))
              (c_and (udp_nonblock P fd) (ok, s)))))))
      else (- EINVAL, self, s))"

text \<open>The size goes in as that of the buffer and comes out as that of the datagram.\<close>

definition udpRxReceive ::
    "'k udp_posix \<Rightarrow> int option \<Rightarrow> nat option \<Rightarrow> bytes option \<Rightarrow> 'k c_state \<Rightarrow> int \<times> nat option \<times> bytes option \<times> 'k c_state" where
  "udpRxReceive P self inout_payload_size out_payload s =
     (case (self, inout_payload_size, out_payload) of
        (Some fd, Some n, Some buf) \<Rightarrow>
          (if 0 \<le> fd then
             (let (recv_result, s) = c_call (udp_recv P fd n) s
              in case recv_result of
                   Some bs \<Rightarrow> (1, Some (length bs), Some (bs @ drop (length bs) buf), s)
                 | None \<Rightarrow> (if errno_of s = EAGAIN \<or> errno_of s = EWOULDBLOCK then 0 else to_int16 (- errno_of s),
                            Some n, Some buf, s))
           else (- EINVAL, Some n, Some buf, s))
      | _ \<Rightarrow> (- EINVAL, inout_payload_size, out_payload, s))"

definition udpRxClose :: "'k udp_posix \<Rightarrow> int option \<Rightarrow> 'k c_state \<Rightarrow> int option \<times> 'k c_state" where
  "udpRxClose = udpClose"

subsection \<open>Waiting\<close>

record udp_awaitable =
  await_fd :: int
  await_ready :: bool

abbreviation INT_MAX :: int where "INT_MAX \<equiv> 2147483647"

definition poll_timeout :: "u64 \<Rightarrow> int" where
  "poll_timeout timeout_usec = (let timeout_ms = timeout_usec div 1000 in if INT_MAX < uint timeout_ms then INT_MAX else uint timeout_ms)"

text \<open>An array of no elements is undefined: \<open>None\<close>.\<close>

definition udpWait ::
    "'k udp_posix \<Rightarrow> u64 \<Rightarrow> nat \<Rightarrow> udp_awaitable list option \<Rightarrow> nat \<Rightarrow> udp_awaitable list option \<Rightarrow> 'k c_state \<Rightarrow>
     (int \<times> udp_awaitable list option \<times> udp_awaitable list option \<times> 'k c_state) option" where
  "udpWait P timeout_usec tx_count tx rx_count rx s =
     (let total_count = tx_count + rx_count
      in if total_count = 0 then None
         else case (tx, rx) of
           (Some txs, Some rxs) \<Rightarrow>
             (if int total_count \<le> INT_MAX then
                (let fds = map (\<lambda>a. (await_fd a, POLLOUT)) (take tx_count txs) @ map (\<lambda>a. (await_fd a, POLLIN)) (take rx_count rxs);
                     (poll_result, s) = c_call (udp_poll P fds (poll_timeout timeout_usec)) s
                 in case poll_result of
                      Some revents \<Rightarrow>
                        Some (0,
                          Some (map2 (\<lambda>a r. a\<lparr>await_ready := (r AND POLLOUT \<noteq> 0)\<rparr>) (take tx_count txs) revents @ drop tx_count txs),
                          Some (map2 (\<lambda>a r. a\<lparr>await_ready := (r AND POLLIN \<noteq> 0)\<rparr>) (take rx_count rxs) (drop tx_count revents) @ drop rx_count rxs),
                          s)
                    | None \<Rightarrow> Some (to_int16 (- errno_of s), tx, rx, s))
              else Some (- EINVAL, tx, rx, s))
         | _ \<Rightarrow> Some (- EINVAL, tx, rx, s))"

text \<open>\<open>inet_pton\<close> is an argument: the address in network order, if the text is one.\<close>

definition udpParseIfaceAddress :: "(string \<Rightarrow> u32 option) \<Rightarrow> string option \<Rightarrow> u32" where
  "udpParseIfaceAddress inet_pton4 address =
     (case address of None \<Rightarrow> 0 | Some a \<Rightarrow> (case inet_pton4 a of None \<Rightarrow> 0 | Some addr \<Rightarrow> htonl addr))"


subsection \<open>The sockets\<close>

datatype udp_failure = PlatformError int | MemoryError

text \<open>
  \<open>alloc\<close> says whether the socket object could be allocated. A socket is its handle; the
  constructor asserts that it is open.
\<close>

definition UdpTxSocket_make ::
    "'k udp_posix \<Rightarrow> (string \<Rightarrow> u32 option) \<Rightarrow> bool \<Rightarrow> string \<Rightarrow> 'k c_state \<Rightarrow> (udp_failure + int option) \<times> 'k c_state" where
  "UdpTxSocket_make P inet_pton4 alloc iface_address s =
     (let (result, handle, s) = udpTxInit P (Some (- 1)) (udpParseIfaceAddress inet_pton4 (Some (c_str iface_address))) s
      in if result < 0 then (Inl (PlatformError (- result)), s)
         else if \<not> alloc then (let (_, s) = udpTxClose P handle s in (Inl MemoryError, s))
         else (Inr handle, s))"

definition UdpTxSocket_destroy :: "'k udp_posix \<Rightarrow> int option \<Rightarrow> 'k c_state \<Rightarrow> 'k c_state" where
  "UdpTxSocket_destroy P udp_handle s = snd (udpTxClose P udp_handle s)"

text \<open>Only the first fragment is sent; to send none is undefined.\<close>

definition UdpTxSocket_send ::
    "'k udp_posix \<Rightarrow> int option \<Rightarrow> u32 \<Rightarrow> u16 \<Rightarrow> u8 \<Rightarrow> bytes list \<Rightarrow> 'k c_state \<Rightarrow> ((int + bool) \<times> 'k c_state) option" where
  "UdpTxSocket_send P udp_handle ip_address udp_port dscp payload_fragments s =
     (case payload_fragments of [] \<Rightarrow> None
      | fragment # _ \<Rightarrow>
          (let (result, s) = udpTxSend P udp_handle ip_address udp_port dscp (Some fragment) s
           in Some (if result < 0 then Inl (- result) else Inr (result = 1), s)))"

definition UdpRxSocket_make ::
    "'k udp_posix \<Rightarrow> (string \<Rightarrow> u32 option) \<Rightarrow> bool \<Rightarrow> string \<Rightarrow> u32 \<Rightarrow> u16 \<Rightarrow> 'k c_state \<Rightarrow>
     (udp_failure + int option) \<times> 'k c_state" where
  "UdpRxSocket_make P inet_pton4 alloc address ip_address udp_port s =
     (let (result, handle, s) =
            udpRxInit P (Some (- 1)) (udpParseIfaceAddress inet_pton4 (Some (c_str address))) ip_address udp_port s
      in if result < 0 then (Inl (PlatformError (- result)), s)
         else if \<not> alloc then (let (_, s) = udpRxClose P handle s in (Inl MemoryError, s))
         else (Inr handle, s))"

definition UdpRxSocket_destroy :: "'k udp_posix \<Rightarrow> int option \<Rightarrow> 'k c_state \<Rightarrow> 'k c_state" where
  "UdpRxSocket_destroy P udp_handle s = snd (udpRxClose P udp_handle s)"

abbreviation BufferSize :: nat where "BufferSize \<equiv> 2000"

text \<open>\<open>alloc n\<close> says whether \<open>n\<close> bytes can be allocated for the copy.\<close>

definition UdpRxSocket_receive ::
    "'k udp_posix \<Rightarrow> (nat \<Rightarrow> bool) \<Rightarrow> int option \<Rightarrow> 'k c_state \<Rightarrow> (udp_failure + bytes option) \<times> 'k c_state" where
  "UdpRxSocket_receive P alloc udp_handle s =
     (let (result, inout_size, buffer, s) = udpRxReceive P udp_handle (Some BufferSize) (Some (replicate BufferSize 0)) s
      in if result < 0 then (Inl (PlatformError (- result)), s)
         else if result = 0 then (Inr None, s)
         else case (inout_size, buffer) of
                (Some n, Some buf) \<Rightarrow> (if alloc n then (Inr (Some (take n buf)), s) else (Inl MemoryError, s))
              | _ \<Rightarrow> (Inr None, s))"

definition UdpTxSocket_registerCallback :: "('f \<Rightarrow> trigger \<Rightarrow> 'c) option \<Rightarrow> int \<Rightarrow> 'f \<Rightarrow> 'c option" where
  "UdpTxSocket_registerCallback ext fd function = registerAwaitableCallback ext function (Writable fd)"

definition UdpRxSocket_registerCallback :: "('f \<Rightarrow> trigger \<Rightarrow> 'c) option \<Rightarrow> int \<Rightarrow> 'f \<Rightarrow> 'c option" where
  "UdpRxSocket_registerCallback ext fd function = registerAwaitableCallback ext function (Readable fd)"

subsection \<open>Media\<close>

abbreviation MaxUdpMedia :: nat where "MaxUdpMedia \<equiv> 3"

record udp_media =
  udp_iface_address :: string

definition setAddress :: "string \<Rightarrow> udp_media \<Rightarrow> udp_media" where
  "setAddress iface_address m = m\<lparr>udp_iface_address := iface_address\<rparr>"

definition makeTxSocket where
  "makeTxSocket P inet_pton4 alloc m s = UdpTxSocket_make P inet_pton4 alloc (udp_iface_address m) s"

definition makeRxSocket where
  "makeRxSocket P inet_pton4 alloc m ip_address udp_port s =
     UdpRxSocket_make P inet_pton4 alloc (udp_iface_address m) ip_address udp_port s"

record udp_collection =
  udp_media_array :: "udp_media list"
  udp_media_ifaces :: "nat option list"

definition UdpMediaCollection_make :: udp_collection where
  "UdpMediaCollection_make =
     \<lparr>udp_media_array = [\<lparr>udp_iface_address = []\<rparr>, \<lparr>udp_iface_address = []\<rparr>, \<lparr>udp_iface_address = []\<rparr>],
      udp_media_ifaces = [None, None, None]\<rparr>"

definition UdpMediaCollection_parse :: "string \<Rightarrow> udp_collection \<Rightarrow> udp_collection option" where
  "UdpMediaCollection_parse iface_addresses c =
     map_option (\<lambda>(index, array).
         \<lparr>udp_media_array = array,
          udp_media_ifaces = fold (\<lambda>i ifaces. ifaces[i := Some i]) [0..<index] [None, None, None]\<rparr>)
       (comma_loop (length iface_addresses + 2) iface_addresses
         (\<lambda>iface_address (index, array). (index + 1, array[index := setAddress iface_address (array ! index)]))
         (\<lambda>(index, _). index < MaxUdpMedia) 0 (0, udp_media_array c))"

definition UdpMediaCollection_count :: "udp_collection \<Rightarrow> nat" where
  "UdpMediaCollection_count c = length (filter (\<lambda>iface. iface \<noteq> None) (udp_media_ifaces c))"

end
