(* ===== verification/Udp_Safe.thy ===== *)
theory Udp_Safe
  imports Udp_Sockets
begin

text \<open>
  The UDP sockets of src/daemon/engine/platform/udp: nothing leaks on any error path, the error that
  is reported is that of the call that failed, a datagram arrives as it was sent, and the media are
  the first three addresses of the list.
\<close>

definition udp_fds :: "'k udp_posix \<Rightarrow> ('k \<Rightarrow> int set) \<Rightarrow> bool" where
  "udp_fds P fds \<longleftrightarrow>
     (\<forall>k. \<forall>fd \<in> fds k. 0 \<le> fd) \<and>
     opens_fd fds id (udp_socket P) \<and> fails_positive (udp_socket P) \<and>
     (\<forall>fd. closes_fd fds fd (udp_close P fd)) \<and>
     (\<forall>fd a p. quiet_call fds (udp_bind P fd a p)) \<and>
     (\<forall>fd. quiet_call fds (udp_nonblock P fd)) \<and>
     (\<forall>fd opt. quiet_call fds (udp_setsockopt P fd opt)) \<and>
     (\<forall>fd bs a p. quiet_call fds (udp_sendto P fd bs a p)) \<and>
     (\<forall>fd n. quiet_call fds (udp_recv P fd n)) \<and>
     (\<forall>l t. quiet_call fds (udp_poll P l t))"

lemma udp_fdsD:
  assumes "udp_fds P fds"
  shows "- 1 \<notin> fds k" and "opens_fd fds id (udp_socket P)" and "closes_fd fds fd (udp_close P fd)"
    and "quiet_call fds (udp_bind P fd a p)" and "quiet_call fds (udp_nonblock P fd)"
    and "quiet_call fds (udp_setsockopt P fd opt)" and "quiet_call fds (udp_sendto P fd bs a p)"
    and "quiet_call fds (udp_recv P fd n)" and "quiet_call fds (udp_poll P l t)"
proof -
  show "- 1 \<notin> fds k" using assms unfolding udp_fds_def by fastforce
qed (use assms in \<open>auto simp: udp_fds_def\<close>)

subsection \<open>Opening and closing\<close>

text \<open>A step of an initialisation: the descriptors stay, and when it went wrong \<open>errno\<close> says why.\<close>

definition step_fine :: "('k \<Rightarrow> int set) \<Rightarrow> int set \<Rightarrow> bool \<times> 'k c_state \<Rightarrow> bool" where
  "step_fine fds B x \<longleftrightarrow> fds (kernel_of (snd x)) = B \<and> (fst x \<or> valid_errno (errno_of (snd x)))"

lemma step_fine_c_and:
  assumes "quiet_call fds call" and "step_fine fds B x"
  shows "step_fine fds B (c_and call x)"
proof -
  obtain ok s where x: "x = (ok, s)" by (cases x)
  obtain ok' s' where y: "c_and call x = (ok', s')" by (metis surj_pair)
  note q = quiet_c_and [OF assms(1) y [unfolded x]]
  have B: "fds (kernel_of s) = B" and e: "ok \<or> valid_errno (errno_of s)" using assms(2) by (simp_all add: step_fine_def x)
  have "ok' \<or> valid_errno (errno_of s')" using q(3) [OF e] by (cases ok') simp_all
  then show ?thesis by (simp add: step_fine_def y q(1) B)
qed

lemma open_handle_fine:
  assumes "udp_fds P fds" and "open_handle P s = (fd, ok, s')"
  shows "if ok then 0 \<le> fd \<and> fd \<notin> fds (kernel_of s) \<and> step_fine fds (insert fd (fds (kernel_of s))) (ok, s')
         else fd = - 1 \<and> step_fine fds (fds (kernel_of s)) (ok, s')"
proof -
  obtain r s1 where 1: "c_call (udp_socket P) s = (r, s1)" by (metis surj_pair)
  have "valid_errno (errno_of s1)" if "r = None"
    using c_call_errno [of "udp_socket P" s s1] 1 assms(1) that by (simp add: udp_fds_def)
  with opens_c_call [OF udp_fdsD(2) [OF assms(1)] 1] assms(2) show ?thesis
    by (cases r) (auto simp: open_handle_def 1 step_fine_def)
qed

lemma to_int16_neg: "valid_errno e \<Longrightarrow> to_int16 (- e) = - e"
  by (simp add: to_int16_def valid_errno_def)

lemma finish_handle_fds:
  assumes "udp_fds P fds" and "finish_handle P fd (ok, s) = (res, h, s')"
  shows "(ok \<longrightarrow> res = 0 \<and> h = Some fd \<and> s' = s) \<and>
         (\<not> ok \<longrightarrow> res = to_int16 (- errno_of s) \<and> h = Some (- 1) \<and> fds (kernel_of s') = fds (kernel_of s) - {fd})"
  using assms(2) closes_c_void(1) [OF udp_fdsD(3) [OF assms(1)], of fd s]
  by (auto simp: finish_handle_def Let_def split: if_splits)

lemma init_fds:
  assumes "udp_fds P fds" and "open_handle P s = (fd, ok0, s0)"
    and "\<And>B. step_fine fds B (ok0, s0) \<Longrightarrow> step_fine fds B (ok1, s1)" and "ok1 \<Longrightarrow> ok0"
    and "finish_handle P fd (ok1, s1) = (res, h, s')"
  shows "(res = 0 \<and> h = Some fd \<and> 0 \<le> fd \<and> fd \<notin> fds (kernel_of s) \<and> fds (kernel_of s') = insert fd (fds (kernel_of s))) \<or>
         (valid_errno (- res) \<and> h = Some (- 1) \<and> fds (kernel_of s') = fds (kernel_of s))"
proof -
  note o = open_handle_fine [OF assms(1,2)] and f = finish_handle_fds [OF assms(1,5)]
  show ?thesis
  proof (cases ok0)
    case True
    with o assms(3) [of "insert fd (fds (kernel_of s))"] f show ?thesis
      by (cases ok1) (auto simp: step_fine_def to_int16_neg)
  next
    case False
    with o assms(3) [of "fds (kernel_of s)"] assms(4) f udp_fdsD(1) [OF assms(1), of "kernel_of s"] show ?thesis
      by (auto simp: step_fine_def to_int16_neg)
  qed
qed

lemma c_and_ok: "fst (c_and call x) \<Longrightarrow> fst x"
  by (cases x) (auto simp: c_and_def split: if_splits)

lemma udpRxInit_fds:
  assumes "udp_fds P fds" and "udpRxInit P (Some (- 1)) iface mgroup port s = (res, h, s')"
  shows "(res = 0 \<and> (\<exists>fd. h = Some fd \<and> 0 \<le> fd \<and> fd \<notin> fds (kernel_of s) \<and> fds (kernel_of s') = insert fd (fds (kernel_of s)))) \<or>
         (valid_errno (- res) \<and> h = Some (- 1) \<and> fds (kernel_of s') = fds (kernel_of s))"
proof (cases "0 < iface \<and> isMulticast mgroup \<and> 0 < port")
  case False
  with assms(2) have "res = - EINVAL" "h = Some (- 1)" "s' = s" by (auto simp: udpRxInit_def)
  then show ?thesis by (simp add: valid_errno_def)
next
  case True
  obtain fd ok0 s0 where 0: "open_handle P s = (fd, ok0, s0)" by (metis surj_pair)
  obtain ok1 s1 where 1: "c_and (udp_setsockopt P fd (IP_ADD_MEMBERSHIP (htonl mgroup) (htonl iface)))
      (c_and (udp_bind P fd (htonl mgroup) (htons port)) (c_and (udp_setsockopt P fd (UDP_REUSEPORT 1))
      (c_and (udp_setsockopt P fd (UDP_REUSEADDR 1)) (c_and (udp_nonblock P fd) (ok0, s0))))) = (ok1, s1)"
    by (metis surj_pair)
  have fin: "finish_handle P fd (ok1, s1) = (res, h, s')"
    using assms(2) True by (simp add: udpRxInit_def 0 1)
  have "step_fine fds B (ok1, s1)" if "step_fine fds B (ok0, s0)" for B
    unfolding 1 [symmetric] using that by (intro step_fine_c_and udp_fdsD [OF assms(1)])
  moreover have "ok0" if "ok1" using that 1 c_and_ok by (metis fst_conv)
  ultimately show ?thesis using init_fds [OF assms(1) 0 _ _ fin] by blast
qed

lemma udpTxInit_fds:
  assumes "udp_fds P fds" and "udpTxInit P (Some (- 1)) iface s = (res, h, s')"
  shows "(res = 0 \<and> (\<exists>fd. h = Some fd \<and> 0 \<le> fd \<and> fd \<notin> fds (kernel_of s) \<and> fds (kernel_of s') = insert fd (fds (kernel_of s)))) \<or>
         (valid_errno (- res) \<and> h = Some (- 1) \<and> fds (kernel_of s') = fds (kernel_of s))"
proof (cases "0 < iface")
  case False
  with assms(2) have "res = - EINVAL" "h = Some (- 1)" "s' = s" by (auto simp: udpTxInit_def)
  then show ?thesis by (simp add: valid_errno_def)
next
  case True
  obtain fd ok0 s0 where 0: "open_handle P s = (fd, ok0, s0)" by (metis surj_pair)
  obtain ok1 s1 where 1: "c_and (udp_setsockopt P fd (IP_MULTICAST_IF (htonl iface)))
      (c_and (udp_setsockopt P fd (IP_MULTICAST_TTL OVERRIDE_TTL)) (c_and (udp_nonblock P fd)
      (c_and (udp_bind P fd (htonl iface) 0) (ok0, s0)))) = (ok1, s1)"
    by (metis surj_pair)
  have fin: "finish_handle P fd (ok1, s1) = (res, h, s')"
    using assms(2) True by (simp add: udpTxInit_def 0 1)
  have "step_fine fds B (ok1, s1)" if "step_fine fds B (ok0, s0)" for B
    unfolding 1 [symmetric] using that by (intro step_fine_c_and udp_fdsD [OF assms(1)])
  moreover have "ok0" if "ok1" using that 1 c_and_ok by (metis fst_conv)
  ultimately show ?thesis using init_fds [OF assms(1) 0 _ _ fin] by blast
qed


lemma udpClose_fds:
  "udp_fds P fds \<Longrightarrow> 0 \<le> fd \<Longrightarrow> fds (kernel_of (snd (udpClose P (Some fd) s))) = fds (kernel_of s) - {fd}"
  by (simp add: udpClose_def closes_c_void(1) [OF udp_fdsD(3)])

lemma destroy_close:
  "(case udpTxClose P h s of (_, s) \<Rightarrow> (x, s)) = (x, UdpTxSocket_destroy P h s)"
  "(case udpRxClose P h s of (_, s) \<Rightarrow> (x, s)) = (x, UdpRxSocket_destroy P h s)"
  by (simp_all add: UdpTxSocket_destroy_def UdpRxSocket_destroy_def split: prod.splits)

lemma destroy_fds:
  assumes "udp_fds P fds" and "0 \<le> fd"
  shows "fds (kernel_of (UdpTxSocket_destroy P (Some fd) s)) = fds (kernel_of s) - {fd}"
    and "fds (kernel_of (UdpRxSocket_destroy P (Some fd) s)) = fds (kernel_of s) - {fd}"
  by (simp_all add: UdpTxSocket_destroy_def UdpRxSocket_destroy_def udpTxClose_def udpRxClose_def udpClose_fds [OF assms])

text \<open>What it means that making and destroying a socket balance.\<close>

definition balanced :: "('k \<Rightarrow> int set) \<Rightarrow> (int option \<Rightarrow> 'k c_state \<Rightarrow> 'k c_state) \<Rightarrow> bool \<Rightarrow> 'k c_state \<Rightarrow>
    (udp_failure + int option) \<times> 'k c_state \<Rightarrow> bool" where
  "balanced fds destroy alloc s x =
     (case x of
        (Inr h, s') \<Rightarrow> \<exists>fd. h = Some fd \<and> 0 \<le> fd \<and> fd \<notin> fds (kernel_of s) \<and>
          fds (kernel_of s') = insert fd (fds (kernel_of s)) \<and> fds (kernel_of (destroy h s')) = fds (kernel_of s)
      | (Inl err, s') \<Rightarrow> fds (kernel_of s') = fds (kernel_of s) \<and>
          (err = MemoryError \<and> \<not> alloc \<or> (\<exists>e. err = PlatformError e \<and> valid_errno e)))"

text \<open>
  C30. Making a UDP socket for sending or for receiving opens exactly the descriptor the socket
  owns, and destroying the socket closes it again. When it fails, because of any of the calls of
  its initialisation, because the interface address is none, or because the socket object cannot be
  allocated, nothing stays open, and a platform error carries the positive \<open>errno\<close> of a call (or
  \<open>EINVAL\<close>).
\<close>

theorem udp_sockets_no_leak:
  assumes "udp_fds P fds"
  shows "balanced fds (UdpTxSocket_destroy P) alloc s (UdpTxSocket_make P pton alloc address s) \<and>
         balanced fds (UdpRxSocket_destroy P) alloc s (UdpRxSocket_make P pton alloc address mgroup port s)"
proof
  obtain res h s1 where 1: "udpTxInit P (Some (- 1)) (udpParseIfaceAddress pton (Some (c_str address))) s = (res, h, s1)"
    by (metis surj_pair)
  have "UdpTxSocket_make P pton alloc address s =
      (if res < 0 then (Inl (PlatformError (- res)), s1)
       else if \<not> alloc then (Inl MemoryError, UdpTxSocket_destroy P h s1) else (Inr h, s1))"
    by (simp add: UdpTxSocket_make_def 1 destroy_close)
  with udpTxInit_fds [OF assms 1] show "balanced fds (UdpTxSocket_destroy P) alloc s (UdpTxSocket_make P pton alloc address s)"
    by (auto simp: balanced_def valid_errno_def destroy_fds [OF assms])
next
  obtain res h s1 where 1: "udpRxInit P (Some (- 1)) (udpParseIfaceAddress pton (Some (c_str address))) mgroup port s = (res, h, s1)"
    by (metis surj_pair)
  have "UdpRxSocket_make P pton alloc address mgroup port s =
      (if res < 0 then (Inl (PlatformError (- res)), s1)
       else if \<not> alloc then (Inl MemoryError, UdpRxSocket_destroy P h s1) else (Inr h, s1))"
    by (simp add: UdpRxSocket_make_def 1 destroy_close)
  with udpRxInit_fds [OF assms 1] show "balanced fds (UdpRxSocket_destroy P) alloc s (UdpRxSocket_make P pton alloc address mgroup port s)"
    by (auto simp: balanced_def valid_errno_def destroy_fds [OF assms])
qed

subsection \<open>Datagrams\<close>

text \<open>A network that delivers in order; a datagram is cut to the size of the buffer that receives it.\<close>

definition udp_net :: "'k udp_posix \<Rightarrow> ('k \<Rightarrow> bytes list) \<Rightarrow> bool" where
  "udp_net P net \<longleftrightarrow>
     (\<forall>fd opt k. net (snd (udp_setsockopt P fd opt k)) = net k) \<and>
     (\<forall>fd bs a p k n k'. udp_sendto P fd bs a p k = (Ret n, k') \<longrightarrow> net k' = net k @ [bs]) \<and>
     (\<forall>fd n k bs k'. udp_recv P fd n k = (Ret bs, k') \<longrightarrow> (\<exists>d. net k = d # net k' \<and> bs = take n d))"

lemma udp_netD:
  assumes "udp_net P net"
  shows "net (kernel_of (c_void (udp_setsockopt P fd opt) s)) = net (kernel_of s)"
    and "udp_sendto P fd bs a p k = (Ret n, k') \<Longrightarrow> net k' = net k @ [bs]"
    and "udp_recv P fd c k = (Ret bs, k') \<Longrightarrow> \<exists>d. net k = d # net k' \<and> bs = take c d"
proof -
  have "kernel_of (c_void (udp_setsockopt P fd opt) s) = snd (udp_setsockopt P fd opt (kernel_of s))"
    unfolding c_void_def by (rule c_call_kernel [of _ _ "fst (c_call (udp_setsockopt P fd opt) s)"]) simp
  then show "net (kernel_of (c_void (udp_setsockopt P fd opt) s)) = net (kernel_of s)"
    using assms by (simp add: udp_net_def)
qed (use assms in \<open>auto simp: udp_net_def\<close>)

lemma c_call_errno_range:
  assumes "quiet_call fds call" and "c_call call s = (r, s')" and "0 \<le> errno_of s" and "errno_of s < 4096"
  shows "0 \<le> errno_of s'" and "errno_of s' < 4096"
  using quiet_c_call(2,3) [OF assms(1,2)] assms(3,4) by (cases r; simp add: valid_errno_def)+

lemma to_int16_not_1: "0 \<le> e \<Longrightarrow> e < 4096 \<Longrightarrow> to_int16 (- e) \<noteq> 1"
  by (simp add: to_int16_def)

lemma udpTxSend_sent:
  assumes "udp_fds P fds" and "udp_net P net" and "udpTxSend P (Some fd) a p dscp (Some bs) s = (1, s')"
    and "0 \<le> errno_of s" and "errno_of s < 4096"
  shows "net (kernel_of s') = net (kernel_of s) @ [bs]"
proof -
  define s1 where "s1 = c_void (udp_setsockopt P fd (IP_TOS (uint dscp * 4))) s"
  obtain r s2 where 2: "c_call (udp_sendto P fd bs (htonl a) (htons p)) s1 = (r, s2)" by (metis surj_pair)
  have "c_call (udp_setsockopt P fd (IP_TOS (uint dscp * 4))) s =
      (fst (c_call (udp_setsockopt P fd (IP_TOS (uint dscp * 4))) s), s1)"
    by (simp add: s1_def c_void_def)
  note e1 = c_call_errno_range [OF udp_fdsD(6) [OF assms(1)] this assms(4,5)]
  note e2 = c_call_errno_range [OF udp_fdsD(7) [OF assms(1)] 2 e1]
  from assms(3) to_int16_not_1 [OF e2] have "r = Some (length bs)" and "s' = s2"
    by (auto simp: udpTxSend_def s1_def [symmetric] 2 Let_def split: if_splits)
  with 2 udp_netD(2) [OF assms(2)] c_call_SomeD have "net (kernel_of s') = net (kernel_of s1) @ [bs]" by metis
  then show ?thesis by (simp add: s1_def udp_netD(1) [OF assms(2)])
qed

text \<open>
  C31. A datagram that was accepted for sending is received as it was sent, if it has at most 2000
  bytes; of a longer one the first 2000 bytes are delivered as if they were all of it.
\<close>

theorem datagram_roundtrip:
  assumes "udp_fds P fds" and "udp_net P net" and "0 \<le> errno_of s" and "errno_of s < 4096"
    and "net (kernel_of s) = []"
    and "UdpTxSocket_send P (Some tx) a p dscp [payload] s = Some (Inr True, s1)"
    and "0 \<le> rx" and "fst (udp_recv P rx BufferSize (kernel_of s1)) = Ret bs" and "\<And>n. n \<le> BufferSize \<Longrightarrow> alloc n"
  shows "\<exists>s2. UdpRxSocket_receive P alloc (Some rx) s1 = (Inr (Some (take BufferSize payload)), s2) \<and> net (kernel_of s2) = []"
proof -
  from assms(6) have "udpTxSend P (Some tx) a p dscp (Some payload) s = (1, s1)"
    by (auto simp: UdpTxSocket_send_def split: prod.splits if_splits)
  from udpTxSend_sent [OF assms(1,2) this assms(3,4)] assms(5) have net: "net (kernel_of s1) = [payload]" by simp
  obtain k2 where 2: "udp_recv P rx BufferSize (kernel_of s1) = (Ret bs, k2)" using assms(8) by (metis prod.collapse)
  from udp_netD(3) [OF assms(2) 2] net have bs: "bs = take BufferSize payload" and "net k2 = []" by auto
  have "c_call (udp_recv P rx BufferSize) s1 = (Some bs, errno_of s1, k2)" using 2 by (cases s1) (simp add: c_call.simps)
  with assms(7,9) bs \<open>net k2 = []\<close> show ?thesis
    by (simp add: UdpRxSocket_receive_def udpRxReceive_def min_def)
qed

subsection \<open>Waiting\<close>

lemma poll_timeout_bounds: "0 \<le> poll_timeout t \<and> poll_timeout t \<le> INT_MAX"
  by (simp add: poll_timeout_def Let_def)

subsection \<open>Media\<close>

lemma fold_ifaces:
  assumes "n \<le> 3"
  shows "fold (\<lambda>i ifaces. ifaces[i := Some i]) [0..<n] [None, None, None] = map Some [0..<n] @ replicate (3 - n) None"
proof -
  from assms consider "n = 0" | "n = 1" | "n = 2" | "n = 3" by linarith
  then show ?thesis by cases (simp_all add: upt_rec numeral_3_eq_3 numeral_2_eq_2)
qed

lemma each_address:
  assumes "length array = 3" and "index \<le> 3"
  shows "each_while (\<lambda>iface_address (index, array). (index + 1, array[index := setAddress iface_address (array ! index)]))
      (\<lambda>(index, _). index < MaxUdpMedia) ps (index, array) =
    (min 3 (index + length ps), take index array @ map (\<lambda>a. \<lparr>udp_iface_address = a\<rparr>) (take (3 - index) ps) @ drop (index + length ps) array)"
  using assms
proof (induction ps arbitrary: index array)
  case (Cons p ps)
  show ?case
  proof (cases "index < 3")
    case True
    have "array[index := \<lparr>udp_iface_address = p\<rparr>] = take index array @ [\<lparr>udp_iface_address = p\<rparr>] @ drop (index + 1) array"
      using True Cons.prems(1) by (simp add: upd_conv_take_nth_drop)
    moreover have "setAddress p (array ! index) = \<lparr>udp_iface_address = p\<rparr>" by (simp add: setAddress_def)
    moreover have "take (3 - index) (p # ps) = p # take (2 - index) ps" 
    proof -
      have "3 - index = Suc (2 - index)" using True by simp
      then show ?thesis by simp
    qed
    ultimately show ?thesis using True Cons.prems Cons.IH [of "array[index := \<lparr>udp_iface_address = p\<rparr>]" "index + 1"]
      by (simp add: add.commute)
  next
    case False
    with Cons.prems show ?thesis by simp
  qed
qed simp

lemma udp_collection_parse_lemma:
  assumes "length (udp_media_array c) = 3" and "length addresses < 2 ^ 64 - 1"
  shows "\<exists>c'. UdpMediaCollection_parse addresses c = Some c' \<and> length (udp_media_array c') = 3 \<and>
    map udp_iface_address (take (UdpMediaCollection_count c') (udp_media_array c')) = take 3 (pieces addresses) \<and>
    UdpMediaCollection_count c' = min 3 (length (pieces addresses)) \<and>
    (\<forall>i < 3. udp_media_ifaces c' ! i = (if i < UdpMediaCollection_count c' then Some i else None))"
proof -
  let ?ps = "pieces addresses"
  define n where "n = min 3 (length ?ps)"
  define array where "array = map (\<lambda>a. \<lparr>udp_iface_address = a\<rparr>) (take 3 ?ps) @ drop (length ?ps) (udp_media_array c)"
  define c' where "c' = \<lparr>udp_media_array = array, udp_media_ifaces = map Some [0..<n] @ replicate (3 - n) None\<rparr>"
  have n: "n \<le> 3" by (simp add: n_def)
  have "comma_loop (length addresses + 2) addresses
         (\<lambda>iface_address (index, array). (index + 1, array[index := setAddress iface_address (array ! index)]))
         (\<lambda>(index, _). index < MaxUdpMedia) 0 (0, udp_media_array c) = Some (n, array)"
    unfolding comma_loop_pieces [OF assms(2)] each_address [OF assms(1) le0] by (simp add: n_def array_def)
  then have parse: "UdpMediaCollection_parse addresses c = Some c'"
    unfolding UdpMediaCollection_parse_def by (simp only: option.map prod.case fold_ifaces [OF n] c'_def)
  have count: "UdpMediaCollection_count c' = n"
    by (simp add: UdpMediaCollection_count_def c'_def filter_map o_def)
  have "length array = 3" using assms(1) by (auto simp: array_def)
  moreover have "map udp_iface_address (take n array) = take 3 ?ps"
    by (auto simp: n_def array_def o_def)
  ultimately show ?thesis
    using parse count by (intro exI [of _ c']) (auto simp: n_def [symmetric] c'_def nth_append)
qed

text \<open>
  The UDP media are the first three non-empty addresses of the comma-separated list, in order:
  these addresses are set and these interfaces counted, whatever the collection held before.
\<close>

theorem udp_collection_parse:
  assumes "length (udp_media_array c) = 3" and "length addresses < 2 ^ 64 - 1"
  shows "\<exists>c'. UdpMediaCollection_parse addresses c = Some c' \<and> length (udp_media_array c') = 3 \<and>
    map udp_iface_address (take (UdpMediaCollection_count c') (udp_media_array c')) = take 3 (pieces addresses) \<and>
    UdpMediaCollection_count c' = min 3 (length (pieces addresses)) \<and>
    (\<forall>i < 3. udp_media_ifaces c' ! i = (if i < UdpMediaCollection_count c' then Some i else None))"
  by (rule udp_collection_parse_lemma [OF assms])

end
