(* ===== verification/Epoll_Executor.thy ===== *)
theory Epoll_Executor
  imports Can_Media
begin

text \<open>
  The executor of the daemon and of the SDK on Linux,
  include/ocvsmd/platform/linux/epoll_single_threaded_executor.hpp: callbacks that wait for a
  descriptor (\<open>AwaitableNode\<close>), their entries in the interest list of an epoll descriptor, and
  polling. A node is identified by its address, which is what an entry points to; moving a node
  changes its address. The kernel is an argument, and so are the clock and the sleep. What the base
  class from the Cyphal library does with a scheduled callback is left out: scheduling is a log.
\<close>

abbreviation EPOLLIN :: u32 where "EPOLLIN \<equiv> 1"
abbreviation EPOLLOUT :: u32 where "EPOLLOUT \<equiv> 4"
abbreviation MaxEpollEvents :: nat where "MaxEpollEvents \<equiv> 16"

record 'k epoll_posix =
  epoll_create1 :: "('k, int) syscall"
  epoll_ctl_add :: "int \<Rightarrow> int \<Rightarrow> u32 \<Rightarrow> nat \<Rightarrow> ('k, unit) syscall"
  epoll_ctl_mod :: "int \<Rightarrow> int \<Rightarrow> u32 \<Rightarrow> nat \<Rightarrow> ('k, unit) syscall"
  epoll_ctl_del :: "int \<Rightarrow> int \<Rightarrow> ('k, unit) syscall"
  epoll_wait :: "int \<Rightarrow> nat \<Rightarrow> int \<Rightarrow> ('k, (u32 \<times> nat option) list) syscall"
  epoll_close :: "int \<Rightarrow> ('k, unit) syscall"
  sleep_for :: "int \<Rightarrow> 'k \<Rightarrow> 'k"
  executor_now :: "'k \<Rightarrow> int"

record 'f awaitable_node =
  aw_fd :: int
  aw_events :: u32
  aw_function :: 'f

text \<open>\<open>live_nodes\<close> are the nodes that exist, by address; \<open>scheduled\<close> logs the calls of \<open>schedule\<close>.\<close>

record ('k, 'f) epoll_executor =
  epollfd :: int
  total_awaitables :: u64
  live_nodes :: "nat \<rightharpoonup> 'f awaitable_node"
  scheduled :: "(nat \<times> int) list"
  ep_state :: "'k c_state"

text \<open>The constructor does not look at whether the descriptor could be made.\<close>

definition EpollSingleThreadedExecutor_make :: "'k epoll_posix \<Rightarrow> 'k c_state \<Rightarrow> ('k, 'f) epoll_executor" where
  "EpollSingleThreadedExecutor_make P s =
     (let (fd, s) = c_call (epoll_create1 P) s
      in \<lparr>epollfd = (case fd of None \<Rightarrow> - 1 | Some fd \<Rightarrow> fd), total_awaitables = 0, live_nodes = Map.empty,
          scheduled = [], ep_state = s\<rparr>)"

subsection \<open>Nodes\<close>

definition AwaitableNode_make :: "nat \<Rightarrow> 'f \<Rightarrow> ('k, 'f) epoll_executor \<Rightarrow> ('k, 'f) epoll_executor" where
  "AwaitableNode_make n function x =
     x\<lparr>live_nodes := (live_nodes x)(n \<mapsto> \<lparr>aw_fd = - 1, aw_events = 0, aw_function = function\<rparr>)\<rparr>"

definition AwaitableNode_setup :: "'k epoll_posix \<Rightarrow> nat \<Rightarrow> int \<Rightarrow> u32 \<Rightarrow> ('k, 'f) epoll_executor \<Rightarrow> ('k, 'f) epoll_executor" where
  "AwaitableNode_setup P n fd events x =
     (case live_nodes x n of None \<Rightarrow> x
      | Some node \<Rightarrow>
          x\<lparr>live_nodes := (live_nodes x)(n \<mapsto> node\<lparr>aw_fd := fd, aw_events := events\<rparr>),
            total_awaitables := total_awaitables x + 1,
            ep_state := c_void (epoll_ctl_add P (epollfd x) fd events n) (ep_state x)\<rparr>)"

definition AwaitableNode_destroy :: "'k epoll_posix \<Rightarrow> nat \<Rightarrow> ('k, 'f) epoll_executor \<Rightarrow> ('k, 'f) epoll_executor" where
  "AwaitableNode_destroy P n x =
     (case live_nodes x n of None \<Rightarrow> x
      | Some node \<Rightarrow>
          (let x = (if 0 \<le> aw_fd node
                    then x\<lparr>ep_state := c_void (epoll_ctl_del P (epollfd x) (aw_fd node)) (ep_state x),
                           total_awaitables := total_awaitables x - 1\<rparr>
                    else x)
           in x\<lparr>live_nodes := (live_nodes x)(n := None)\<rparr>))"

text \<open>The move constructor: the node at \<open>n\<close> is left without a descriptor.\<close>

definition AwaitableNode_move :: "'k epoll_posix \<Rightarrow> nat \<Rightarrow> nat \<Rightarrow> ('k, 'f) epoll_executor \<Rightarrow> ('k, 'f) epoll_executor" where
  "AwaitableNode_move P n m x =
     (case live_nodes x n of None \<Rightarrow> x
      | Some other \<Rightarrow>
          (let x = x\<lparr>live_nodes := (live_nodes x)(n \<mapsto> other\<lparr>aw_fd := - 1, aw_events := 0\<rparr>, m \<mapsto> other)\<rparr>
           in if 0 \<le> aw_fd other
              then x\<lparr>ep_state := c_void (epoll_ctl_mod P (epollfd x) (aw_fd other) (aw_events other) m) (ep_state x)\<rparr>
              else x))"

subsection \<open>Registering\<close>

definition node_trigger :: "trigger \<Rightarrow> int \<times> u32" where
  "node_trigger trigger = (case trigger of Readable fd \<Rightarrow> (fd, EPOLLIN) | Writable fd \<Rightarrow> (fd, EPOLLOUT))"

text \<open>The node is made and set up at \<open>tmp\<close> on the stack, moved to \<open>dst\<close> in the result, and goes.\<close>

definition epoll_registerAwaitableCallback ::
    "'k epoll_posix \<Rightarrow> nat \<Rightarrow> nat \<Rightarrow> 'f \<Rightarrow> trigger \<Rightarrow> ('k, 'f) epoll_executor \<Rightarrow> ('k, 'f) epoll_executor" where
  "epoll_registerAwaitableCallback P tmp dst function trigger x =
     (let x = AwaitableNode_make tmp function x;
          (fd, events) = node_trigger trigger;
          x = AwaitableNode_setup P tmp fd events x;
          x = AwaitableNode_move P tmp dst x
      in AwaitableNode_destroy P tmp x)"

subsection \<open>Polling\<close>

text \<open>\<open>duration_cast\<close> to milliseconds rounds towards zero. Durations are in microseconds.\<close>

definition to_milliseconds :: "int \<Rightarrow> int" where
  "to_milliseconds us = sgn us * (\<bar>us\<bar> div 1000)"

definition clamped_timeout_ms :: "int option \<Rightarrow> int" where
  "clamped_timeout_ms timeout = (case timeout of None \<Rightarrow> - 1 | Some us \<Rightarrow> max 0 (min (to_milliseconds us) 2147483647))"

datatype poll_failure = PollArgumentError | PollPlatformError int

definition schedule_events :: "int \<Rightarrow> (u32 \<times> nat option) list \<Rightarrow> ('k, 'f) epoll_executor \<Rightarrow> ('k, 'f) epoll_executor" where
  "schedule_events now_time evs x =
     fold (\<lambda>(_, ptr) x. case ptr of None \<Rightarrow> x | Some n \<Rightarrow> x\<lparr>scheduled := scheduled x @ [(n, now_time)]\<rparr>) evs x"

definition pollAwaitableResourcesFor ::
    "'k epoll_posix \<Rightarrow> int option \<Rightarrow> ('k, 'f) epoll_executor \<Rightarrow> poll_failure option \<times> ('k, 'f) epoll_executor" where
  "pollAwaitableResourcesFor P timeout x =
     (if total_awaitables x = 0 then
        (case timeout of None \<Rightarrow> (Some PollArgumentError, x)
         | Some t \<Rightarrow> (None, x\<lparr>ep_state := (errno_of (ep_state x), sleep_for P t (kernel_of (ep_state x)))\<rparr>))
      else
        (let (epoll_result, s) = c_call (epoll_wait P (epollfd x) MaxEpollEvents (clamped_timeout_ms timeout)) (ep_state x);
             x = x\<lparr>ep_state := s\<rparr>
         in case epoll_result of
              None \<Rightarrow> (Some (PollPlatformError (errno_of s)), x)
            | Some evs \<Rightarrow> (None, schedule_events (executor_now P (kernel_of s)) evs x)))"

definition EpollSingleThreadedExecutor_destroy :: "'k epoll_posix \<Rightarrow> ('k, 'f) epoll_executor \<Rightarrow> ('k, 'f) epoll_executor" where
  "EpollSingleThreadedExecutor_destroy P x =
     (if 0 \<le> epollfd x then x\<lparr>ep_state := c_void (epoll_close P (epollfd x)) (ep_state x)\<rparr> else x)"

subsection \<open>What is assumed of the kernel\<close>

text \<open>
  \<open>interest k\<close> is the interest list of the epoll descriptor, empty when it is made. Adding sets an entry where there is
  none, or fails and changes nothing; modifying replaces the entry there is, or fails; deleting
  removes the entry (and fails when there is none). Waiting reports only pointers of entries.
\<close>

definition epoll_laws :: "'k epoll_posix \<Rightarrow> ('k \<Rightarrow> int \<Rightarrow> (nat \<times> u32) option) \<Rightarrow> bool" where
  "epoll_laws P interest \<longleftrightarrow>
     (\<forall>k. interest (snd (epoll_create1 P k)) = Map.empty) \<and>
     (\<forall>e fd ev n k. interest (snd (epoll_ctl_add P e fd ev n k)) =
        (if interest k fd = None \<and> fst (epoll_ctl_add P e fd ev n k) = Ret () then (interest k)(fd \<mapsto> (n, ev)) else interest k)) \<and>
     (\<forall>e fd ev n k. interest (snd (epoll_ctl_mod P e fd ev n k)) =
        (if interest k fd \<noteq> None then (interest k)(fd \<mapsto> (n, ev)) else interest k)) \<and>
     (\<forall>e fd k. interest (snd (epoll_ctl_del P e fd k)) = (interest k)(fd := None)) \<and>
     (\<forall>e m t k. interest (snd (epoll_wait P e m t k)) = interest k) \<and>
     (\<forall>t k. interest (sleep_for P t k) = interest k) \<and>
     (\<forall>e m t k evs k'. epoll_wait P e m t k = (Ret evs, k') \<longrightarrow>
        length evs \<le> m \<and> (\<forall>ev n. (ev, Some n) \<in> set evs \<longrightarrow> (\<exists>fd w. interest k fd = Some (n, w))))"

end
