(* ===== verification/Awaitable_Registry.thy ===== *)
theory Awaitable_Registry
  imports Can_Media
begin

text \<open>
  What the two executors of include/ocvsmd/platform (epoll on Linux, kqueue on BSD) have in common.
  A callback that waits is a node with an address; the kernel keeps, per key (a descriptor, or a
  descriptor with a filter), a pointer to a node; and the executor counts the nodes that wait.
  \<open>registry_inv\<close> ties the three together, with one lemma per way to change them, and the locale
  \<open>awaiting_executor\<close> is the contract of an executor whose polls schedule only callbacks that exist.
\<close>

subsection \<open>Nodes, pointers and their number\<close>

type_synonym 'v node_map = "nat \<rightharpoonup> 'v option"

definition waiting :: "'v node_map \<Rightarrow> nat set" where
  "waiting nodes = {n. \<exists>v. nodes n = Some (Some v)}"

definition registry_inv :: "('k \<rightharpoonup> nat \<times> 'e) \<Rightarrow> ('k \<times> 'e) node_map \<Rightarrow> u64 \<Rightarrow> bool" where
  "registry_inv entries nodes cnt \<longleftrightarrow>
     (\<forall>k n e. entries k = Some (n, e) \<longrightarrow> nodes n = Some (Some (k, e))) \<and>
     finite (waiting nodes) \<and> cnt = of_nat (card (waiting nodes))"

lemma registry_invD:
  assumes "registry_inv entries nodes cnt"
  shows "entries k = Some (n, e) \<Longrightarrow> nodes n = Some (Some (k, e))"
    and "finite (waiting nodes)" and "cnt = of_nat (card (waiting nodes))"
  using assms by (simp_all add: registry_inv_def)

lemma registry_invI:
  assumes "\<And>k n e. entries k = Some (n, e) \<Longrightarrow> nodes n = Some (Some (k, e))"
    and "finite (waiting nodes)" and "cnt = of_nat (card (waiting nodes))"
  shows "registry_inv entries nodes cnt"
  using assms by (simp add: registry_inv_def)

lemma registry_empty [simp]: "registry_inv Map.empty Map.empty 0"
  by (simp add: registry_inv_def waiting_def)

lemma waiting_upd:
  "waiting (nodes(n \<mapsto> Some v)) = insert n (waiting nodes)"
  "waiting (nodes(n \<mapsto> None)) = waiting nodes - {n}"
  "waiting (nodes(n := None)) = waiting nodes - {n}"
  by (auto simp: waiting_def)

lemma c_void_kernel [simp]: "kernel_of (c_void call s) = snd (call (kernel_of s))" for call :: "('a, unit) syscall"
  unfolding c_void_def by (rule c_call_kernel [of _ _ "fst (c_call call s)"]) simp

text \<open>A node comes, waits for a key, goes, or only its entries do.\<close>

lemma registry_new:
  assumes "registry_inv entries nodes cnt" and "nodes n = None"
  shows "registry_inv entries (nodes(n \<mapsto> None)) cnt"
proof -
  have "n \<notin> waiting nodes" using assms(2) by (simp add: waiting_def)
  with registry_invD [OF assms(1)] assms(2) show ?thesis
    by (intro registry_invI) (auto simp: waiting_upd)
qed

lemma registry_add:
  assumes "registry_inv entries nodes cnt" and "nodes n = Some None"
    and "entries' = entries \<or> entries' = entries(k \<mapsto> (n, e))"
  shows "registry_inv entries' (nodes(n \<mapsto> Some (k, e))) (cnt + 1)"
proof -
  have "n \<notin> waiting nodes" using assms(2) by (simp add: waiting_def)
  with registry_invD [OF assms(1)] assms(2,3) show ?thesis
    by (intro registry_invI) (auto simp: waiting_upd split: if_splits)
qed

lemma registry_drop:
  assumes "registry_inv entries nodes cnt" and "nodes n = Some (Some (k, e))"
  shows "registry_inv (entries(k := None)) (nodes(n := None)) (cnt - 1)"
proof -
  note old = registry_invD [OF assms(1)]
  have n: "n \<in> waiting nodes" using assms(2) by (auto simp: waiting_def)
  have "cnt - 1 = of_nat (card (waiting nodes - {n}))"
    using old(3) card_Suc_Diff1 [OF old(2) n] by (metis add_diff_cancel_left' of_nat_Suc)
  moreover have "(nodes(n := None)) m = Some (Some (k', e'))" if "(entries(k := None)) k' = Some (m, e')" for k' m e'
    using old(1) [of k' m e'] that assms(2) by (auto split: if_splits)
  ultimately show ?thesis using old(2) by (intro registry_invI) (simp_all add: waiting_upd)
qed

lemma registry_drop_idle:
  assumes "registry_inv entries nodes cnt" and "nodes n = None \<or> nodes n = Some None"
  shows "registry_inv entries (nodes(n := None)) cnt"
proof -
  have "n \<notin> waiting nodes" using assms(2) by (auto simp: waiting_def)
  moreover have "(nodes(n := None)) m = Some (Some (k, e))" if "entries k = Some (m, e)" for k m e
    using registry_invD(1) [OF assms(1) that] assms(2) by auto
  ultimately show ?thesis using registry_invD(2,3) [OF assms(1)] by (intro registry_invI) (simp_all add: waiting_upd)
qed

lemma registry_move:
  assumes "registry_inv entries nodes cnt" and "nodes n = Some (Some (k, e))" and "nodes m = None"
    and "entries' = entries(k := None) \<or> entries' = entries(k \<mapsto> (m, e))"
  shows "registry_inv entries' (nodes(n \<mapsto> None, m \<mapsto> Some (k, e))) cnt"
proof -
  note old = registry_invD [OF assms(1)]
  have n: "n \<in> waiting nodes" and m: "m \<notin> waiting nodes" "m \<noteq> n" using assms(2,3) by (auto simp: waiting_def)
  have "card (insert m (waiting nodes - {n})) = card (waiting nodes)"
    using old(2) m card_Suc_Diff1 [OF old(2) n] by simp
  moreover have "(nodes(n \<mapsto> None, m \<mapsto> Some (k, e))) m' = Some (Some (k', e'))" if "entries' k' = Some (m', e')" for k' m' e'
    using old(1) [of k' m' e'] that assms(2-4) m(2) by (auto split: if_splits)
  ultimately show ?thesis using old by (intro registry_invI) (simp_all add: waiting_upd)
qed

lemma registry_move_idle:
  assumes "registry_inv entries nodes cnt" and "nodes n = Some None" and "nodes m = None"
  shows "registry_inv entries (nodes(n \<mapsto> None, m \<mapsto> None)) cnt"
proof -
  have "nodes(n \<mapsto> None, m \<mapsto> None) = nodes(m \<mapsto> None)" using assms(2) by (auto simp: fun_eq_iff)
  with registry_new [OF assms(1,3)] show ?thesis by simp
qed

lemma registry_shrink:
  assumes "registry_inv entries nodes cnt" and "entries' \<subseteq>\<^sub>m entries"
  shows "registry_inv entries' nodes cnt"
proof (rule registry_invI)
  fix k n e
  assume "entries' k = Some (n, e)"
  with assms(2) have "entries k = Some (n, e)" by (metis domI map_le_def)
  with registry_invD(1) [OF assms(1)] show "nodes n = Some (Some (k, e))" by blast
qed (use registry_invD(2,3) [OF assms(1)] in simp_all)

subsection \<open>Runs of an executor\<close>

text \<open>From an initial state the environment and the callbacks change things, and the executor polls.\<close>

inductive executor_run :: "('x \<Rightarrow> bool) \<Rightarrow> ('x \<Rightarrow> 'x \<Rightarrow> bool) \<Rightarrow> (int option \<Rightarrow> 'x \<Rightarrow> 'r \<times> 'x) \<Rightarrow> 'x \<Rightarrow> bool"
  for initial change poll where
  exec_start: "initial x \<Longrightarrow> executor_run initial change poll x"
| exec_change: "executor_run initial change poll x \<Longrightarrow> change x x' \<Longrightarrow> executor_run initial change poll x'"
| exec_poll: "executor_run initial change poll x \<Longrightarrow> poll timeout x = (r, x') \<Longrightarrow> executor_run initial change poll x'"

locale awaiting_executor =
  fixes initial :: "'x \<Rightarrow> bool" and change :: "'x \<Rightarrow> 'x \<Rightarrow> bool" and poll :: "int option \<Rightarrow> 'x \<Rightarrow> 'r \<times> 'x"
    and laws :: bool and inv :: "'x \<Rightarrow> bool"
    and logged :: "'x \<Rightarrow> (nat \<times> int) list" and awaits :: "'x \<Rightarrow> nat \<Rightarrow> bool" and clock :: "'x \<Rightarrow> int" and most :: nat
  assumes initial_inv: "laws \<Longrightarrow> initial x \<Longrightarrow> inv x"
    and change_inv: "laws \<Longrightarrow> inv x \<Longrightarrow> change x x' \<Longrightarrow> inv x'"
    and poll_inv: "laws \<Longrightarrow> inv x \<Longrightarrow> poll timeout x = (r, x') \<Longrightarrow> inv x'"
    and poll_log: "laws \<Longrightarrow> inv x \<Longrightarrow> poll timeout x = (r, x') \<Longrightarrow>
      \<exists>ns. logged x' = logged x @ map (\<lambda>n. (n, clock x')) ns \<and> length ns \<le> most \<and> list_all (awaits x') ns"
begin

lemma run_inv: "executor_run initial change poll x \<Longrightarrow> laws \<Longrightarrow> inv x"
  by (induction rule: executor_run.induct) (blast intro: initial_inv change_inv poll_inv)+

lemma run_schedules_awaiting:
  assumes "executor_run initial change poll x" and "laws" and "poll timeout x = (r, x')"
  shows "\<exists>new. logged x' = logged x @ new \<and> length new \<le> most \<and>
    (\<forall>(n, t) \<in> set new. t = clock x' \<and> awaits x' n) \<and> inv x'"
proof -
  note inv = run_inv [OF assms(1,2)]
  from poll_log [OF assms(2) inv assms(3)] obtain ns where
    "logged x' = logged x @ map (\<lambda>n. (n, clock x')) ns" "length ns \<le> most" "list_all (awaits x') ns" by blast
  with poll_inv [OF assms(2) inv assms(3)] show ?thesis
    by (intro exI [of _ "map (\<lambda>n. (n, clock x')) ns"]) (auto simp: list_all_iff)
qed

end

end
