(* ===== verification/Epoll_Safe.thy ===== *)
theory Epoll_Safe
  imports Epoll_Executor Awaitable_Registry
begin

text \<open>
  Safety of the executor: the interest list never points to a node that is gone, the counter of
  awaitables is their number, and polling schedules only callbacks that exist. The invariant is
  that of Awaitable_Registry with the descriptors as keys; the executor is an instance of the
  contract there.
\<close>

subsection \<open>The kernel\<close>

lemma epoll_lawsD:
  assumes "epoll_laws P interest"
  shows "interest (kernel_of (c_void (epoll_ctl_add P e fd ev n) s)) = interest (kernel_of s) \<or>
         interest (kernel_of (c_void (epoll_ctl_add P e fd ev n) s)) = (interest (kernel_of s))(fd \<mapsto> (n, ev))"
    and "interest (kernel_of (c_void (epoll_ctl_mod P e fd ev n) s)) =
         (if interest (kernel_of s) fd \<noteq> None then (interest (kernel_of s))(fd \<mapsto> (n, ev)) else interest (kernel_of s))"
    and "interest (kernel_of (c_void (epoll_ctl_del P e fd) s)) = (interest (kernel_of s))(fd := None)"
    and "interest (sleep_for P t k) = interest k"
    and "c_call (epoll_wait P e m t) s = (r, s') \<Longrightarrow> interest (kernel_of s') = interest (kernel_of s)"
    and "c_call (epoll_wait P e m t) s = (Some evs, s') \<Longrightarrow> length evs \<le> m"
    and "c_call (epoll_wait P e m t) s = (Some evs, s') \<Longrightarrow> (w, Some n) \<in> set evs \<Longrightarrow> \<exists>fd w. interest (kernel_of s) fd = Some (n, w)"
proof -
  show "interest (kernel_of (c_void (epoll_ctl_add P e fd ev n) s)) = interest (kernel_of s) \<or>
         interest (kernel_of (c_void (epoll_ctl_add P e fd ev n) s)) = (interest (kernel_of s))(fd \<mapsto> (n, ev))"
    using assms by (simp add: epoll_laws_def)
  show "interest (kernel_of (c_void (epoll_ctl_mod P e fd ev n) s)) =
         (if interest (kernel_of s) fd \<noteq> None then (interest (kernel_of s))(fd \<mapsto> (n, ev)) else interest (kernel_of s))"
    using assms by (simp add: epoll_laws_def)
  show "interest (kernel_of (c_void (epoll_ctl_del P e fd) s)) = (interest (kernel_of s))(fd := None)"
    using assms by (simp add: epoll_laws_def)
  show "interest (sleep_for P t k) = interest k" using assms by (simp add: epoll_laws_def)
  show "c_call (epoll_wait P e m t) s = (r, s') \<Longrightarrow> interest (kernel_of s') = interest (kernel_of s)"
    using assms by (auto simp: epoll_laws_def dest: c_call_kernel)
  note wait = assms [unfolded epoll_laws_def, THEN conjunct2, THEN conjunct2, THEN conjunct2, THEN conjunct2, THEN conjunct2,
      THEN conjunct2, rule_format, OF c_call_SomeD]
  show "c_call (epoll_wait P e m t) s = (Some evs, s') \<Longrightarrow> length evs \<le> m"
    by (drule wait) simp
  show "c_call (epoll_wait P e m t) s = (Some evs, s') \<Longrightarrow> (w, Some n) \<in> set evs \<Longrightarrow> \<exists>fd w. interest (kernel_of s) fd = Some (n, w)"
    by (drule wait) blast
qed

subsection \<open>Nodes\<close>

text \<open>The nodes as a registry sees them: what each waits for, if anything.\<close>

definition node_view :: "('f awaitable_node \<Rightarrow> 'k) \<Rightarrow> ('f awaitable_node \<Rightarrow> 'e) \<Rightarrow> (nat \<rightharpoonup> 'f awaitable_node) \<Rightarrow> ('k \<times> 'e) node_map" where
  "node_view key val live = (\<lambda>n. map_option (\<lambda>node. if 0 \<le> aw_fd node then Some (key node, val node) else None) (live n))"

definition awaiting :: "(nat \<rightharpoonup> 'f awaitable_node) \<Rightarrow> nat set" where
  "awaiting live = {n. \<exists>node. live n = Some node \<and> 0 \<le> aw_fd node}"

lemma node_view_upd [simp]:
  "node_view key val (live(n \<mapsto> node)) = (node_view key val live)(n \<mapsto> if 0 \<le> aw_fd node then Some (key node, val node) else None)"
  "node_view key val (live(n := None)) = (node_view key val live)(n := None)"
  "node_view key val Map.empty = Map.empty"
  by (auto simp: node_view_def fun_eq_iff)

lemma node_view_at:
  "live n = Some node \<Longrightarrow> node_view key val live n = Some (if 0 \<le> aw_fd node then Some (key node, val node) else None)"
  "live n = None \<Longrightarrow> node_view key val live n = None"
  by (simp_all add: node_view_def)

lemma waiting_node_view [simp]: "waiting (node_view key val live) = awaiting live"
  by (auto simp: waiting_def awaiting_def node_view_def)

abbreviation ep_interest where "ep_interest interest x \<equiv> interest (kernel_of (ep_state x))"

definition epoll_inv :: "('k \<Rightarrow> int \<Rightarrow> (nat \<times> u32) option) \<Rightarrow> ('k, 'f) epoll_executor \<Rightarrow> bool" where
  "epoll_inv interest x \<longleftrightarrow>
     registry_inv (ep_interest interest x) (node_view aw_fd aw_events (live_nodes x)) (total_awaitables x)"

lemma make_inv:
  "epoll_inv interest x \<Longrightarrow> live_nodes x n = None \<Longrightarrow> epoll_inv interest (AwaitableNode_make n f x)"
  by (simp add: epoll_inv_def AwaitableNode_make_def registry_new node_view_at)

lemma destroy_inv:
  assumes "epoll_laws P interest" and "epoll_inv interest x"
  shows "epoll_inv interest (AwaitableNode_destroy P n x)"
proof (cases "live_nodes x n")
  case (Some node)
  let ?nodes = "node_view aw_fd aw_events (live_nodes x)"
  note inv = assms(2) [unfolded epoll_inv_def]
  show ?thesis
  proof (cases "0 \<le> aw_fd node")
    case True
    with Some have "?nodes n = Some (Some (aw_fd node, aw_events node))" by (simp add: node_view_at)
    from registry_drop [OF inv this] Some True epoll_lawsD(3) [OF assms(1)] show ?thesis
      by (simp add: epoll_inv_def AwaitableNode_destroy_def del: c_void_kernel)
  next
    case False
    with Some have "?nodes n = Some None" by (simp add: node_view_at)
    from registry_drop_idle [OF inv disjI2 [OF this]] Some False show ?thesis
      by (simp add: epoll_inv_def AwaitableNode_destroy_def)
  qed
qed (use assms in \<open>simp add: AwaitableNode_destroy_def\<close>)

lemma setup_inv:
  assumes "epoll_laws P interest" and "epoll_inv interest x"
    and "live_nodes x n = Some node" and "aw_fd node < 0" and "0 \<le> fd"
  shows "epoll_inv interest (AwaitableNode_setup P n fd ev x)"
proof -
  have "node_view aw_fd aw_events (live_nodes x) n = Some None" using assms(3,4) by (simp add: node_view_at)
  from registry_add [OF assms(2) [unfolded epoll_inv_def] this epoll_lawsD(1) [OF assms(1)]] assms(3,5) show ?thesis
    by (simp add: epoll_inv_def AwaitableNode_setup_def del: c_void_kernel)
qed

lemma move_inv:
  assumes "epoll_laws P interest" and "epoll_inv interest x" and "live_nodes x m = None" and "n \<noteq> m"
  shows "epoll_inv interest (AwaitableNode_move P n m x)"
proof (cases "live_nodes x n")
  case (Some other)
  let ?nodes = "node_view aw_fd aw_events (live_nodes x)"
  note inv = assms(2) [unfolded epoll_inv_def]
  have free: "?nodes m = None" using assms(3) by (simp add: node_view_at)
  show ?thesis
  proof (cases "0 \<le> aw_fd other")
    case True
    let ?s = "c_void (epoll_ctl_mod P (epollfd x) (aw_fd other) (aw_events other) m) (ep_state x)"
    have "interest (kernel_of ?s) = (ep_interest interest x)(aw_fd other := None) \<or>
          interest (kernel_of ?s) = (ep_interest interest x)(aw_fd other \<mapsto> (m, aw_events other))"
      using epoll_lawsD(2) [OF assms(1), of "epollfd x" "aw_fd other" "aw_events other" m "ep_state x"]
      by (cases "ep_interest interest x (aw_fd other)") (auto simp: fun_eq_iff simp del: c_void_kernel)
    moreover have "?nodes n = Some (Some (aw_fd other, aw_events other))" using Some True by (simp add: node_view_at)
    ultimately show ?thesis using registry_move [OF inv _ free] Some True
      by (simp add: epoll_inv_def AwaitableNode_move_def Let_def del: c_void_kernel)
  next
    case False
    with Some have "?nodes n = Some None" by (simp add: node_view_at)
    from registry_move_idle [OF inv this free] Some False show ?thesis
      by (simp add: epoll_inv_def AwaitableNode_move_def Let_def)
  qed
qed (use assms in \<open>simp add: AwaitableNode_move_def\<close>)

subsection \<open>Registering\<close>

lemma register_inv:
  assumes "epoll_laws P interest" and "epoll_inv interest x"
    and "live_nodes x tmp = None" and "live_nodes x dst = None" and "tmp \<noteq> dst" and "0 \<le> fst (node_trigger trigger)"
  shows "epoll_inv interest (epoll_registerAwaitableCallback P tmp dst f trigger x)"
proof -
  obtain fd ev where t: "node_trigger trigger = (fd, ev)" by (metis surj_pair)
  define x1 where "x1 = AwaitableNode_make tmp f x"
  have 1: "epoll_inv interest x1" unfolding x1_def by (rule make_inv [OF assms(2,3)])
  have n1: "live_nodes x1 tmp = Some \<lparr>aw_fd = - 1, aw_events = 0, aw_function = f\<rparr>" "live_nodes x1 dst = None"
    using assms(4,5) by (simp_all add: x1_def AwaitableNode_make_def)
  define x2 where "x2 = AwaitableNode_setup P tmp fd ev x1"
  have 2: "epoll_inv interest x2"
    unfolding x2_def by (rule setup_inv [OF assms(1) 1 n1(1)]) (use assms(6) t in simp_all)
  have n2: "live_nodes x2 dst = None" using n1 assms(5) by (simp add: x2_def AwaitableNode_setup_def)
  have "epoll_inv interest (AwaitableNode_destroy P tmp (AwaitableNode_move P tmp dst x2))"
    by (rule destroy_inv [OF assms(1) move_inv [OF assms(1) 2 n2 assms(5)]])
  then show ?thesis by (simp add: epoll_registerAwaitableCallback_def t x1_def x2_def)
qed

subsection \<open>Polling\<close>

lemma schedule_events_state [simp]:
  "live_nodes (schedule_events t evs x) = live_nodes x" "ep_state (schedule_events t evs x) = ep_state x"
  "total_awaitables (schedule_events t evs x) = total_awaitables x" "epollfd (schedule_events t evs x) = epollfd x"
  unfolding schedule_events_def by (induction evs arbitrary: x) (auto split: option.splits)

lemma schedule_events_log:
  "scheduled (schedule_events t evs x) = scheduled x @ map (\<lambda>n. (n, t)) (List.map_filter snd evs)"
  unfolding schedule_events_def by (induction evs arbitrary: x) (auto simp: List.map_filter_simps split: option.splits)

lemma length_map_filter_le: "length (List.map_filter f xs) \<le> length xs"
  by (induction xs) (auto simp: List.map_filter_simps split: option.splits)

lemma poll_frame:
  assumes "epoll_laws P interest" and "pollAwaitableResourcesFor P timeout x = (r, x')"
  shows "live_nodes x' = live_nodes x" and "total_awaitables x' = total_awaitables x"
    and "ep_interest interest x' = ep_interest interest x" and "epollfd x' = epollfd x"
proof -
  obtain w s where w: "c_call (epoll_wait P (epollfd x) MaxEpollEvents (clamped_timeout_ms timeout)) (ep_state x) = (w, s)"
    by (metis surj_pair)
  note int = epoll_lawsD(5) [OF assms(1) w] and sl = epoll_lawsD(4) [OF assms(1)]
  show "live_nodes x' = live_nodes x" and "total_awaitables x' = total_awaitables x"
    and "ep_interest interest x' = ep_interest interest x" and "epollfd x' = epollfd x"
    using assms(2) int sl by (auto simp: pollAwaitableResourcesFor_def w Let_def split: if_splits option.splits)
qed

lemma poll_inv:
  assumes "epoll_laws P interest" and "epoll_inv interest x" and "pollAwaitableResourcesFor P timeout x = (r, x')"
  shows "epoll_inv interest x'"
  using assms(2) by (simp add: epoll_inv_def poll_frame [OF assms(1,3)])

lemma poll_log:
  assumes "epoll_laws P interest" and "epoll_inv interest x" and "pollAwaitableResourcesFor P timeout x = (r, x')"
  shows "\<exists>ns. scheduled x' = scheduled x @ map (\<lambda>n. (n, executor_now P (kernel_of (ep_state x')))) ns \<and>
    length ns \<le> MaxEpollEvents \<and> list_all (\<lambda>n. n \<in> awaiting (live_nodes x')) ns"
proof -
  obtain w s where w: "c_call (epoll_wait P (epollfd x) MaxEpollEvents (clamped_timeout_ms timeout)) (ep_state x) = (w, s)"
    by (metis surj_pair)
  show ?thesis
  proof (cases "total_awaitables x \<noteq> 0 \<and> w \<noteq> None")
    case False
    then have "scheduled x' = scheduled x"
      using assms(3) by (auto simp: pollAwaitableResourcesFor_def w Let_def split: if_splits option.splits)
    then show ?thesis by (intro exI [of _ "[]"]) simp
  next
    case True
    then obtain evs where evs: "w = Some evs" by blast
    have x': "x' = schedule_events (executor_now P (kernel_of s)) evs (x\<lparr>ep_state := s\<rparr>)"
      using assms(3) True by (simp add: pollAwaitableResourcesFor_def w evs Let_def)
    have "length (List.map_filter snd evs) \<le> MaxEpollEvents"
      using epoll_lawsD(6) [OF assms(1) w [unfolded evs]] length_map_filter_le [of snd evs] by simp
    moreover have "n \<in> awaiting (live_nodes x')" if "n \<in> set (List.map_filter snd evs)" for n
    proof -
      from that obtain ev where "(ev, Some n) \<in> set evs" by (auto simp: List.map_filter_def)
      from epoll_lawsD(7) [OF assms(1) w [unfolded evs] this] obtain fd v where "ep_interest interest x fd = Some (n, v)" by blast
      from registry_invD(1) [OF assms(2) [unfolded epoll_inv_def] this]
      have "n \<in> waiting (node_view aw_fd aw_events (live_nodes x))" by (auto simp: waiting_def)
      then show ?thesis by (simp add: x')
    qed
    ultimately show ?thesis
      by (intro exI [of _ "List.map_filter snd evs"]) (simp add: x' schedule_events_log list_all_iff)
  qed
qed

subsection \<open>Runs\<close>

text \<open>
  From its construction on, callbacks are registered (at fresh addresses, for descriptors that are not negative, as the code
  asserts), moved and destroyed, and the environment closes descriptors, which takes their entries
  out of the interest list.
\<close>

definition epoll_initial :: "'k epoll_posix \<Rightarrow> ('k, 'f) epoll_executor \<Rightarrow> bool" where
  "epoll_initial P x \<longleftrightarrow> (\<exists>s. x = EpollSingleThreadedExecutor_make P s)"

lemma epoll_executor_make_inv:
  assumes "epoll_laws P interest"
  shows "epoll_inv interest (EpollSingleThreadedExecutor_make P s)"
proof -
  obtain fd s1 where c: "c_call (epoll_create1 P) s = (fd, s1)" by (metis surj_pair)
  have "interest (kernel_of s1) = Map.empty"
    using assms [unfolded epoll_laws_def, THEN conjunct1] c_call_kernel [OF c] by simp
  then show ?thesis by (simp add: epoll_inv_def EpollSingleThreadedExecutor_make_def c)
qed

inductive epoll_change :: "'k epoll_posix \<Rightarrow> ('k \<Rightarrow> int \<Rightarrow> (nat \<times> u32) option) \<Rightarrow>
    ('k, 'f) epoll_executor \<Rightarrow> ('k, 'f) epoll_executor \<Rightarrow> bool"
  for P interest x where
  register: "live_nodes x tmp = None \<Longrightarrow> live_nodes x dst = None \<Longrightarrow> tmp \<noteq> dst \<Longrightarrow>
    0 \<le> fst (node_trigger trigger) \<Longrightarrow> epoll_change P interest x (epoll_registerAwaitableCallback P tmp dst f trigger x)"
| move: "live_nodes x m = None \<Longrightarrow> n \<noteq> m \<Longrightarrow> epoll_change P interest x (AwaitableNode_move P n m x)"
| destroy: "epoll_change P interest x (AwaitableNode_destroy P n x)"
| environment: "interest (kernel_of s) \<subseteq>\<^sub>m ep_interest interest x \<Longrightarrow> epoll_change P interest x (x\<lparr>ep_state := s\<rparr>)"

inductive_cases epoll_changeE: "epoll_change P interest x x'"

definition epoll_run :: "'k epoll_posix \<Rightarrow> ('k \<Rightarrow> int \<Rightarrow> (nat \<times> u32) option) \<Rightarrow> ('k, 'f) epoll_executor \<Rightarrow> bool" where
  "epoll_run P interest = executor_run (epoll_initial P) (epoll_change P interest) (pollAwaitableResourcesFor P)"

lemma epoll_change_inv:
  assumes "epoll_laws P interest" and "epoll_inv interest x" and "epoll_change P interest x x'"
  shows "epoll_inv interest x'"
  by (rule epoll_changeE [OF assms(3)])
     (use assms(1,2) registry_shrink [OF assms(2) [unfolded epoll_inv_def]] in
      \<open>simp_all add: register_inv move_inv destroy_inv epoll_inv_def [of interest "x\<lparr>ep_state := _\<rparr>"]\<close>)

interpretation ep: awaiting_executor "epoll_initial P" "epoll_change P interest" "pollAwaitableResourcesFor P"
    "epoll_laws P interest" "epoll_inv interest" scheduled "\<lambda>x n. n \<in> awaiting (live_nodes x)"
    "\<lambda>x. executor_now P (kernel_of (ep_state x))" MaxEpollEvents for P interest
proof
  show "epoll_inv interest x" if "epoll_laws P interest" and "epoll_initial P x" for P interest and x :: "('k, 'f) epoll_executor"
    using that by (auto simp: epoll_initial_def epoll_executor_make_inv)
qed (blast intro: epoll_change_inv poll_inv poll_log)+

text \<open>
  C7. In every run of the executor a callback that polling schedules exists at that moment: however
  callbacks were registered, moved and destroyed and descriptors closed and reused in between, the
  kernel never keeps a pointer to one that is gone. A poll schedules at most 16 callbacks, each for
  the present, and the counter of awaitables, which decides
  between waiting for events and sleeping, is the number of callbacks with a descriptor.
\<close>

theorem epoll_schedules_live:
  assumes "epoll_run P interest x" and "epoll_laws P interest" and "pollAwaitableResourcesFor P timeout x = (r, x')"
  shows "\<exists>new. scheduled x' = scheduled x @ new \<and> length new \<le> MaxEpollEvents \<and>
      (\<forall>(n, t) \<in> set new. t = executor_now P (kernel_of (ep_state x')) \<and>
         (\<exists>node. live_nodes x' n = Some node \<and> 0 \<le> aw_fd node)) \<and>
    total_awaitables x' = of_nat (card (awaiting (live_nodes x')))"
  using ep.run_schedules_awaiting [OF assms(1) [unfolded epoll_run_def] assms(2,3)]
  by (auto simp: awaiting_def epoll_inv_def dest!: registry_invD(3))

text \<open>
  Two callbacks for one descriptor: the second one takes the entry over when it is moved out of
  the registration, and the first one gets no events any more.
\<close>

lemma second_callback_steals:
  assumes "epoll_laws P interest" and "epoll_inv interest x"
    and "live_nodes x tmp = None" and "live_nodes x dst = None" and "tmp \<noteq> dst"
    and "node_trigger trigger = (fd, ev)" and "0 \<le> fd" and "ep_interest interest x fd = Some (n, v)"
  shows "ep_interest interest (epoll_registerAwaitableCallback P tmp dst f trigger x) fd = Some (dst, ev)"
proof -
  define x2 where "x2 = AwaitableNode_setup P tmp fd ev (AwaitableNode_make tmp f x)"
  have x2: "live_nodes x2 tmp = Some \<lparr>aw_fd = fd, aw_events = ev, aw_function = f\<rparr>"
    by (simp add: x2_def AwaitableNode_setup_def AwaitableNode_make_def)
  have "ep_interest interest x2 fd \<noteq> None"
    using epoll_lawsD(1) [OF assms(1), of "epollfd x" fd ev tmp "ep_state x"] assms(8)
    by (auto simp: x2_def AwaitableNode_setup_def AwaitableNode_make_def)
  then show ?thesis
    using x2 assms(5,7) epoll_lawsD(2) [OF assms(1)]
    by (simp add: epoll_registerAwaitableCallback_def assms(6) x2_def [symmetric] AwaitableNode_move_def AwaitableNode_destroy_def Let_def)
qed

lemma clamped_timeout_bounds: "- 1 \<le> clamped_timeout_ms t \<and> clamped_timeout_ms t \<le> 2147483647 \<and> (clamped_timeout_ms t = - 1 \<longleftrightarrow> t = None)"
  by (auto simp: clamped_timeout_ms_def split: option.splits)

end
