(* ===== verification/Sample_Buses.thy ===== *)
theory Sample_Buses
  imports Can_Media_Safe Udp_Safe Epoll_Safe
begin

text \<open>
  A concrete kernel with a CAN bus and a network, which shows that what is assumed of kernels in
  Socket_Can_Open, Socket_Can_Frames and Udp_Safe can hold, and the theorems applied to it. There is
  no interface \<open>can9\<close>, and no socket can be made once \<open>bk_full\<close> is set.
\<close>

record bus_kernel =
  bk_next :: nat
  bk_open :: "int list"
  bk_full :: bool
  bk_bus :: "bytes list"
  bk_net :: "bytes list"

definition bk_fds :: "bus_kernel \<Rightarrow> int set" where
  "bk_fds k = {fd. fd \<in> set (bk_open k) \<and> 0 \<le> fd \<and> fd < int (bk_next k)}"

definition bk_socket :: "(bus_kernel, int) syscall" where
  "bk_socket k = (if bk_full k then (Err 24, k)
     else (Ret (int (bk_next k)),
           k\<lparr>bk_next := bk_next k + 1, bk_open := int (bk_next k) # filter (\<lambda>fd. fd < int (bk_next k)) (bk_open k)\<rparr>))"

definition bk_close :: "int \<Rightarrow> (bus_kernel, unit) syscall" where
  "bk_close fd k = (if fd \<in> set (bk_open k) \<and> 0 \<le> fd \<and> fd < int (bk_next k)
     then (Ret (), k\<lparr>bk_open := filter (\<lambda>fd'. fd' \<noteq> fd) (bk_open k)\<rparr>) else (Err EBADF, k))"

definition frame_length_ok :: "bytes \<Rightarrow> bool" where
  "frame_length_ok bs \<longleftrightarrow> unat (frame_len (frame_of (bs @ replicate (72 - length bs) 0))) \<le> 64"

definition sample_can :: "bus_kernel can_posix" where
  "sample_can = \<lparr>
     can_socket = bk_socket,
     can_ifindex = (\<lambda>fd name k. if name = ''can9'' then (Err 19, k) else (Ret 1, k)),
     can_bind = (\<lambda>fd i k. (Ret (), k)),
     can_setsockopt = (\<lambda>fd opt v k. (Ret (), k)),
     can_setfilter = (\<lambda>fd cs k. (Ret (), k)),
     can_ppoll = (\<lambda>fd events sec nsec k. (Ret (Some events), k)),
     can_write = (\<lambda>fd bs k. (Ret (length bs), k\<lparr>bk_bus := bk_bus k @ [bs]\<rparr>)),
     can_recvmsg = (\<lambda>fd n k. (case bk_bus k of [] \<Rightarrow> (Err EAGAIN, k)
        | bs # bus \<Rightarrow> (if frame_length_ok bs then (Ret \<lparr>msg_iov = bs, msg_flags = 0, msg_control = []\<rparr>, k\<lparr>bk_bus := bus\<rparr>)
                        else (Err EIO, k)))),
     can_close = bk_close\<rparr>"

definition sample_udp :: "bus_kernel udp_posix" where
  "sample_udp = \<lparr>
     udp_socket = bk_socket,
     udp_bind = (\<lambda>fd a p k. (Ret (), k)),
     udp_nonblock = (\<lambda>fd k. (Ret (), k)),
     udp_setsockopt = (\<lambda>fd opt k. (Ret (), k)),
     udp_sendto = (\<lambda>fd bs a p k. (Ret (length bs), k\<lparr>bk_net := bk_net k @ [bs]\<rparr>)),
     udp_recv = (\<lambda>fd n k. (case bk_net k of [] \<Rightarrow> (Err EAGAIN, k) | d # net \<Rightarrow> (Ret (take n d), k\<lparr>bk_net := net\<rparr>))),
     udp_poll = (\<lambda>l t k. (Ret (map snd l), k)),
     udp_close = bk_close\<rparr>"

lemma bk_fds_other [simp]: "bk_fds (k\<lparr>bk_bus := b\<rparr>) = bk_fds k" "bk_fds (k\<lparr>bk_net := n\<rparr>) = bk_fds k"
  by (simp_all add: bk_fds_def)

lemma bk_socket_opens: "opens_fd bk_fds id bk_socket" "fails_positive bk_socket"
  by (auto simp: opens_fd_def fails_positive_def valid_errno_def bk_socket_def bk_fds_def)

lemma bk_close_closes: "closes_fd bk_fds fd (bk_close fd)" "fails_positive (bk_close fd)"
  by (auto simp: closes_fd_def fails_positive_def valid_errno_def bk_close_def bk_fds_def)

lemma sample_can_fds: "can_fds sample_can bk_fds"
proof -
  have "0 \<le> fd" if "fd \<in> bk_fds k" for fd k using that by (simp add: bk_fds_def)
  then show ?thesis
    unfolding can_fds_def quiet_call_def keeps_fds_def fails_positive_def valid_errno_def
    by (auto simp: sample_can_def bk_socket_opens bk_close_closes bk_close_closes(2) [unfolded fails_positive_def valid_errno_def, rule_format]
             split: list.splits if_splits)
qed

lemma sample_can_bus: "can_bus sample_can bk_bus"
  unfolding can_bus_def by (auto simp: sample_can_def split: list.splits if_splits)

lemma sample_udp_fds: "udp_fds sample_udp bk_fds"
proof -
  have "0 \<le> fd" if "fd \<in> bk_fds k" for fd k using that by (simp add: bk_fds_def)
  moreover have "fails_positive (udp_socket sample_udp)" by (simp add: sample_udp_def bk_socket_opens)
  ultimately show ?thesis
    unfolding udp_fds_def quiet_call_def keeps_fds_def
    by (auto simp: sample_udp_def bk_socket_opens bk_close_closes fails_positive_def valid_errno_def split: list.splits)
qed

lemma sample_udp_net: "udp_net sample_udp bk_net"
  unfolding udp_net_def by (auto simp: sample_udp_def split: list.splits)

definition bk_start :: bus_kernel where
  "bk_start = \<lparr>bk_next = 3, bk_open = [0, 1, 2], bk_full = False, bk_bus = [], bk_net = []\<rparr>"

subsection \<open>The theorems at work\<close>

definition sample_frame :: canard_frame where
  "sample_frame = \<lparr>extended_can_id = 0x123, payload_size = 3, payload_data = Some [1, 2, 3]\<rparr>"

definition pop_args :: "bytes \<Rightarrow> pop_io" where
  "pop_args buf = \<lparr>out_frame = Some \<lparr>extended_can_id = 0, payload_size = 0, payload_data = None\<rparr>,
                   out_timestamp_usec = None, payload_buffer = Some buf, loopback = Some False\<rparr>"

lemma sample_poll: "doPoll sample_can fd POLLOUT t s = (1, s)" "doPoll sample_can fd POLLIN t s = (1, s)"
  by (cases s; simp add: doPoll_def c_call.simps sample_can_def)+

definition s_pushed :: "bus_kernel c_state" where
  "s_pushed = (0, bk_start\<lparr>bk_bus := [pushed sample_frame [1, 2, 3]]\<rparr>)"

lemma sample_push: "socketcanPush sample_can 4 (Some sample_frame) 0 (0, bk_start) = Some (1, s_pushed)"
proof -
  have "socketcanPush sample_can 4 (Some sample_frame) 0 (0, bk_start) =
      (case c_call (can_write sample_can 4 (pushed sample_frame [1, 2, 3])) (0, bk_start) of
         (None, s2) \<Rightarrow> Some (getNegatedErrno s2, s2) | (Some n, s2) \<Rightarrow> Some (1, s2))"
    by (rule socketcanPush_ready [OF _ _ _ sample_poll(1)]) (simp_all add: sample_frame_def)
  also have "\<dots> = Some (1, s_pushed)"
    by (simp add: c_call.simps sample_can_def s_pushed_def bk_start_def)
  finally show ?thesis .
qed

theorem can_frame_roundtrip_witness:
  "\<exists>io' s3. socketcanPop sample_can 3 (length (replicate 8 (0 :: u8))) 0 (pop_args (replicate 8 0)) s_pushed = Some (1, io', s3) \<and>
    out_frame io' = Some \<lparr>extended_can_id = extended_can_id sample_frame, payload_size = payload_size sample_frame,
        payload_data = Some ([1, 2, 3] @ drop (payload_size sample_frame) (replicate 8 0))\<rparr> \<and>
    payload_buffer io' = Some ([1, 2, 3] @ drop (payload_size sample_frame) (replicate 8 0)) \<and> bk_bus (kernel_of s3) = []"
  by (rule can_frame_roundtrip [OF sample_can_bus _ _ _ _ _ sample_push _ _ _ _ _ sample_poll(2),
        where msg = "\<lparr>msg_iov = pushed sample_frame [1, 2, 3], msg_flags = 0, msg_control = []\<rparr>" and lb = False])
     (simp_all add: sample_frame_def pop_args_def bk_start_def s_pushed_def sample_can_def frame_length_ok_def
        pushed_frame push_frame_def)



theorem push_overflows_witness:
  "socketcanPush sample_can 4 (Some \<lparr>extended_can_id = 1, payload_size = 65, payload_data = Some (replicate 65 7)\<rparr>) 0 (0, bk_start) = None"
  by (subst push_overflows_iff [of _ "replicate 65 7"]) (simp_all add: sample_poll)

theorem can_collection_parse_witness:
  "\<exists>ms c' s'. CanMediaCollection_parse sample_can ''can0,,can9,vcan1'' CanMediaCollection_make (0, bk_start) = Some (c', s') \<and> holds ms c' \<and>
    CanMediaCollection_count c' = length ms \<and> subseq (map can_iface_address ms) (pieces ''can0,,can9,vcan1'') \<and>
    distinct (owned ms) \<and> length (owned ms) = 2 * length ms \<and>
    set (owned ms) \<inter> (bk_fds (kernel_of (0, bk_start)) - set (owned (List.map_filter id (media_array CanMediaCollection_make)))) = {} \<and>
    bk_fds (kernel_of s') =
      (bk_fds (kernel_of (0, bk_start)) - set (owned (List.map_filter id (media_array CanMediaCollection_make)))) \<union> set (owned ms)"
  by (rule can_collection_parse [OF sample_can_fds]) (simp_all add: CanMediaCollection_make_def)

theorem socketcanOpen_hides_error_witness:
  "fst (socketcanOpen sample_can ''can0'' False (0, bk_start\<lparr>bk_full := True\<rparr>)) = - EBADF"
  by (rule socketcanOpen_hides_error [OF sample_can_fds, where e = 24 and k' = "bk_start\<lparr>bk_full := True\<rparr>"])
     (simp_all add: sample_can_def bk_socket_def)

theorem udp_sockets_no_leak_witness:
  "balanced bk_fds (UdpTxSocket_destroy sample_udp) False (0, bk_start)
     (UdpTxSocket_make sample_udp (\<lambda>_. Some 0x0100007F) False ''127.0.0.1'' (0, bk_start)) \<and>
   balanced bk_fds (UdpRxSocket_destroy sample_udp) False (0, bk_start)
     (UdpRxSocket_make sample_udp (\<lambda>_. Some 0x0100007F) False ''127.0.0.1'' 0xEF000001 9382 (0, bk_start))"
  by (rule udp_sockets_no_leak [OF sample_udp_fds])

theorem datagram_roundtrip_witness:
  "\<exists>s2. UdpRxSocket_receive sample_udp (\<lambda>_. True) (Some 3) (0, bk_start\<lparr>bk_net := [[1, 2, 3]]\<rparr>) =
     (Inr (Some (take BufferSize [1, 2, 3])), s2) \<and> bk_net (kernel_of s2) = []"
proof (rule datagram_roundtrip [OF sample_udp_fds sample_udp_net, where tx = 4 and s = "(0, bk_start)" and a = "0xEF000001" and p = 9382 and dscp = 0])
  show "UdpTxSocket_send sample_udp (Some 4) 0xEF000001 9382 0 [[1, 2, 3]] (0, bk_start) =
      Some (Inr True, 0, bk_start\<lparr>bk_net := [[1, 2, 3]]\<rparr>)"
    by (simp add: UdpTxSocket_send_def udpTxSend_def c_void_def c_call.simps sample_udp_def DSCP_MAX_def bk_start_def)
qed (simp_all add: bk_start_def sample_udp_def)

theorem udp_collection_parse_witness:
  "\<exists>c'. UdpMediaCollection_parse ''127.0.0.1,,10.0.0.1'' UdpMediaCollection_make = Some c' \<and> length (udp_media_array c') = 3 \<and>
    map udp_iface_address (take (UdpMediaCollection_count c') (udp_media_array c')) = take 3 (pieces ''127.0.0.1,,10.0.0.1'') \<and>
    UdpMediaCollection_count c' = min 3 (length (pieces ''127.0.0.1,,10.0.0.1'')) \<and>
    (\<forall>i < 3. udp_media_ifaces c' ! i = (if i < UdpMediaCollection_count c' then Some i else None))"
  by (rule udp_collection_parse) (simp_all add: UdpMediaCollection_make_def)


subsection \<open>The executor\<close>

text \<open>An epoll descriptor whose state is its interest list, every entry of which is ready.\<close>

definition sample_epoll :: "(int \<times> nat \<times> u32) list epoll_posix" where
  "sample_epoll = \<lparr>
     epoll_create1 = (\<lambda>k. (Ret 3, [])),
     epoll_ctl_add = (\<lambda>e fd ev n k. if map_of k fd = None then (Ret (), AList.update fd (n, ev) k) else (Err EEXIST, k)),
     epoll_ctl_mod = (\<lambda>e fd ev n k. if map_of k fd = None then (Err 2, k) else (Ret (), AList.update fd (n, ev) k)),
     epoll_ctl_del = (\<lambda>e fd k. (if map_of k fd = None then Err 2 else Ret (), AList.delete fd k)),
     epoll_wait = (\<lambda>e m t k. (Ret (take m (map (\<lambda>(fd, n, ev). (ev, Some n)) (filter (\<lambda>(fd, v). map_of k fd = Some v) k))), k)),
     epoll_close = (\<lambda>e k. (Ret (), [])),
     sleep_for = (\<lambda>t k. k),
     executor_now = (\<lambda>k. 0)\<rparr>"

lemma sample_epoll_laws: "epoll_laws sample_epoll map_of"
proof -
  have wait: "\<exists>fd w. map_of k fd = Some (n, w)"
    if "(ev, Some n) \<in> set (take m (map (\<lambda>(fd, n, ev). (ev, Some n)) (filter (\<lambda>(fd, v). map_of k fd = Some v) k)))"
    for ev n m and k :: "(int \<times> nat \<times> u32) list"
    using in_set_takeD [OF that] by auto
  show ?thesis
    unfolding epoll_laws_def
    by (auto simp: sample_epoll_def fun_eq_iff map_of_delete_upd simp del: fun_upd_apply intro: wait)
qed

definition ex_start :: "((int \<times> nat \<times> u32) list, unit) epoll_executor" where
  "ex_start = EpollSingleThreadedExecutor_make sample_epoll (0, [])"

lemma ex_start_eq: "ex_start = \<lparr>epollfd = 3, total_awaitables = 0, live_nodes = Map.empty, scheduled = [], ep_state = (0, [])\<rparr>"
  by (simp add: ex_start_def EpollSingleThreadedExecutor_make_def sample_epoll_def c_call.simps)

definition ex_registered :: "((int \<times> nat \<times> u32) list, unit) epoll_executor" where
  "ex_registered = epoll_registerAwaitableCallback sample_epoll 100 200 () (Readable 5) ex_start"

lemma ex_registered_run: "epoll_run sample_epoll map_of ex_registered"
  unfolding ex_registered_def epoll_run_def
  by (rule exec_change [where x = ex_start], rule exec_start, auto simp: ex_start_def epoll_initial_def)
     (rule epoll_change.register; simp add: ex_start_eq [unfolded ex_start_def] node_trigger_def)

theorem epoll_schedules_live_witness:
  "\<exists>r x'. pollAwaitableResourcesFor sample_epoll (Some 1000000) ex_registered = (r, x') \<and>
     (\<exists>new. scheduled x' = scheduled ex_registered @ new \<and> length new \<le> MaxEpollEvents \<and>
        (\<forall>(n, t) \<in> set new. t = executor_now sample_epoll (kernel_of (ep_state x')) \<and>
           (\<exists>node. live_nodes x' n = Some node \<and> 0 \<le> aw_fd node)) \<and>
      total_awaitables x' = of_nat (card (awaiting (live_nodes x'))))"
proof -
  obtain r x' where p: "pollAwaitableResourcesFor sample_epoll (Some 1000000) ex_registered = (r, x')" by (metis surj_pair)
  from epoll_schedules_live [OF ex_registered_run sample_epoll_laws p] p show ?thesis by blast
qed

end
