(* ===== verification/Engine_Init.thy ===== *)
theory Engine_Init
  imports Can_Media_Safe Udp_Safe Daemon_Sockets
begin

text \<open>
  How the daemon comes up: the transport bags (src/daemon/engine/cyphal/can_transport_bag.hpp and
  udp_transport_bag.hpp), \<open>Engine::init\<close>, the unique id and the run loop of
  src/daemon/engine/engine.cpp, the transfer ids of engine.hpp. The configuration is the record of
  what its getters return. The Cyphal transports, the node and the random bytes are arguments.
\<close>

subsection \<open>Configuration\<close>

record config =
  cyphal_app_node_id :: "u16 option"
  cyphal_app_unique_id :: "bytes option"
  cyphal_transport_interfaces :: "string list"
  ipc_connections :: "string list"
  is_dirty :: bool

text \<open>
  What setting the unique id and saving do to what the getters return, and what is then in the file.
  This is the specification that the operations on the file refine where writing succeeds (the
  theory on the configuration file has them as they are, and what happens when it fails).
\<close>

definition config_setUniqueId :: "bytes \<Rightarrow> config \<Rightarrow> config" where
  "config_setUniqueId unique_id c = c\<lparr>cyphal_app_unique_id := Some unique_id, is_dirty := True\<rparr>"

definition config_save :: "config \<Rightarrow> config \<times> config option" where
  "config_save c = (if is_dirty c then (c\<lparr>is_dirty := False\<rparr>, Some (c\<lparr>is_dirty := False\<rparr>)) else (c, None))"

subsection \<open>Transport bags\<close>

definition collect_ifaces :: "string \<Rightarrow> string list \<Rightarrow> string" where
  "collect_ifaces pfx ifaces =
     fold (\<lambda>iface acc. if starts_with pfx iface then acc @ drop (length pfx) iface @ '','' else acc) ifaces []"

definition CanMediaCollection_destroy :: "'k can_posix \<Rightarrow> can_collection \<Rightarrow> 'k c_state \<Rightarrow> 'k c_state" where
  "CanMediaCollection_destroy P c s =
     fold (\<lambda>m s. case m of None \<Rightarrow> s | Some m \<Rightarrow> CanMedia_destroy P m s) (rev (media_array c)) s"

text \<open>
  A bag is its media with the transport; no bag is \<open>nullptr\<close>, and then its media go. The outer
  option is the exception of \<open>parse\<close>.
\<close>

definition CanTransportBag_make ::
    "'k can_posix \<Rightarrow> (can_collection \<Rightarrow> 't option) \<Rightarrow> config \<Rightarrow> 'k c_state \<Rightarrow> ((can_collection \<times> 't) option \<times> 'k c_state) option" where
  "CanTransportBag_make P makeTransport cfg s =
     (let can_ifaces = collect_ifaces ''socketcan:'' (cyphal_transport_interfaces cfg)
      in case CanMediaCollection_parse P can_ifaces CanMediaCollection_make s of
           None \<Rightarrow> None
         | Some (media, s) \<Rightarrow>
             (if CanMediaCollection_count media = 0 then Some (None, CanMediaCollection_destroy P media s)
              else case makeTransport media of
                     None \<Rightarrow> Some (None, CanMediaCollection_destroy P media s)
                   | Some t \<Rightarrow> Some (Some (media, t), s)))"

definition UdpTransportBag_make ::
    "(udp_collection \<Rightarrow> 't option) \<Rightarrow> config \<Rightarrow> (udp_collection \<times> 't) option option" where
  "UdpTransportBag_make makeTransport cfg =
     (let udp_ifaces = collect_ifaces ''udp://'' (cyphal_transport_interfaces cfg)
      in case UdpMediaCollection_parse udp_ifaces UdpMediaCollection_make of
           None \<Rightarrow> None
         | Some media \<Rightarrow>
             (if UdpMediaCollection_count media = 0 then Some None
              else case makeTransport media of
                     None \<Rightarrow> Some None
                   | Some t \<Rightarrow> Some (Some (media, t))))"

datatype 't any_transport_bag = UdpBag udp_collection 't | CanBag can_collection 't

fun getTransport :: "'t any_transport_bag \<Rightarrow> 't" where
  "getTransport (UdpBag _ t) = t"
| "getTransport (CanBag _ t) = t"

subsection \<open>The engine\<close>

record node_info =
  node_name :: string
  software_version :: "u8 \<times> u8"
  software_vcs_revision :: u64
  node_unique_id :: bytes

text \<open>
  What the engine gets from libraries and the build: transports, setting the node id, the node, the
  revision it was built from, random bytes.
\<close>

record ('k, 't) engine_params =
  ep_posix :: "'k posix"
  ep_can :: "'k can_posix"
  ep_makeUdp :: "udp_collection \<Rightarrow> 't option"
  ep_makeCan :: "can_collection \<Rightarrow> 't option"
  ep_setLocalNodeId :: "u16 \<Rightarrow> 't \<Rightarrow> 't"
  ep_makeNode :: "'t \<Rightarrow> bool"
  ep_vcs_revision :: u64
  ep_random :: bytes
  ep_pton :: inet_pton

record ('c, 'r, 'k, 'cy, 't) engine =
  engine_config :: config
  config_file :: "config option"
  any_transport_bag :: "'t any_transport_bag option"
  node :: "node_info option"
  ipc_router :: "('c, 'r, 'k socket_server, 'cy) daemon option"
  engine_kernel :: "'k c_state"

definition Engine_make :: "config \<Rightarrow> 'k c_state \<Rightarrow> ('c, 'r, 'k, 'cy, 't) engine" where
  "Engine_make cfg s = \<lparr>engine_config = cfg, config_file = None, any_transport_bag = None, node = None, ipc_router = None, engine_kernel = s\<rparr>"

definition getUniqueId :: "bytes \<Rightarrow> ('c, 'r, 'k, 'cy, 't) engine \<Rightarrow> bytes \<times> ('c, 'r, 'k, 'cy, 't) engine" where
  "getUniqueId random e =
     (case cyphal_app_unique_id (engine_config e) of
        Some unique_id \<Rightarrow> (unique_id, e)
      | None \<Rightarrow>
          (let (cfg, saved) = config_save (config_setUniqueId random (engine_config e))
           in (random, e\<lparr>engine_config := cfg, config_file := (case saved of None \<Rightarrow> config_file e | Some c \<Rightarrow> Some c)\<rparr>)))"

text \<open>Step 1, the transport: first UDP, then CAN. The option inside is \<open>nullptr\<close>.\<close>

definition make_transport_bag ::
    "('k, 't) engine_params \<Rightarrow> config \<Rightarrow> 'k c_state \<Rightarrow> ('t any_transport_bag option \<times> 'k c_state) option" where
  "make_transport_bag E cfg s =
     (case UdpTransportBag_make (ep_makeUdp E) cfg of
        None \<Rightarrow> None
      | Some (Some (media, t)) \<Rightarrow> Some (Some (UdpBag media t), s)
      | Some None \<Rightarrow>
          (case CanTransportBag_make (ep_can E) (ep_makeCan E) cfg s of
             None \<Rightarrow> None
           | Some (Some (media, t), s) \<Rightarrow> Some (Some (CanBag media t), s)
           | Some (None, s) \<Rightarrow> Some (None, s)))"

fun with_node_id :: "(u16 \<Rightarrow> 't \<Rightarrow> 't) \<Rightarrow> u16 option \<Rightarrow> 't any_transport_bag \<Rightarrow> 't any_transport_bag" where
  "with_node_id f None bag = bag"
| "with_node_id f (Some i) (UdpBag media t) = UdpBag media (f i t)"
| "with_node_id f (Some i) (CanBag media t) = CanBag media (f i t)"

text \<open>Step 6, the router over its socket, with the service, on the first configured connection.\<close>

definition init_ipc ::
    "('k, 't) engine_params \<Rightarrow> u64 \<Rightarrow> 'cy \<Rightarrow> ('c, 'r, 'k, 'cy, 't) engine \<Rightarrow>
     (string option \<times> ('c, 'r, 'k, 'cy, 't) engine) option" where
  "init_ipc E svc_id cy e =
     (case ipc_connections (engine_config e) of
        [] \<Rightarrow> Some (Some ''No IPC connections configured.'', e)
      | connection # _ \<Rightarrow>
          (case parse (ep_pton E) connection 0 of
             Inl _ \<Rightarrow> Some (Some ''Failed to parse IPC connection.'', e)
           | Inr socket_address \<Rightarrow>
               (let w = daemon_initial svc_id (SocketServer_make socket_address (kernel_of (engine_kernel e))) cy
                in case ServerRouter_start (ep_posix E) w of
                     None \<Rightarrow> None
                   | Some (err, w) \<Rightarrow>
                       Some (if err \<noteq> 0 then Some ''Failed to start IPC router.'' else None,
                             e\<lparr>ipc_router := Some w, engine_kernel := (errno_of (engine_kernel e), ss_kernel (server_pipe w))\<rparr>))))"

definition NODE_NAME :: string where "NODE_NAME = ''org.opencyphal.ocvsmd''"

definition Engine_init ::
    "('k, 't) engine_params \<Rightarrow> u64 \<Rightarrow> 'cy \<Rightarrow> ('c, 'r, 'k, 'cy, 't) engine \<Rightarrow>
     (string option \<times> ('c, 'r, 'k, 'cy, 't) engine) option" where
  "Engine_init E svc_id cy e =
     (case make_transport_bag E (engine_config e) (engine_kernel e) of
        None \<Rightarrow> None
      | Some (None, s) \<Rightarrow> Some (Some ''Failed to create Cyphal transport.'', e\<lparr>engine_kernel := s\<rparr>)
      | Some (Some bag, s) \<Rightarrow>
          (let bag = with_node_id (ep_setLocalNodeId E) (cyphal_app_node_id (engine_config e)) bag;
               e = e\<lparr>any_transport_bag := Some bag, engine_kernel := s\<rparr>
           in if \<not> ep_makeNode E (getTransport bag) then Some (Some ''Failed to create cyphal node.'', e)
              else
                (let (unique_id, e) = getUniqueId (ep_random E) e;
                     e = e\<lparr>node := Some \<lparr>node_name = NODE_NAME, software_version = (VERSION_MAJOR, VERSION_MINOR),
                                          software_vcs_revision = ep_vcs_revision E, node_unique_id = unique_id\<rparr>\<rparr>
                 in init_ipc E svc_id cy e)))"

subsection \<open>The run loop\<close>

text \<open>
  The executor is an argument: \<open>spinOnce\<close> gives the next execution time, \<open>present\<close> the present (both
  in microseconds) and \<open>poll\<close> waits. Executing callbacks and waiting may throw an exception, of
  which there is the text, and it ends the loop; a failure that \<open>poll\<close> returns is only logged. The
  result of the loop is the exception that ended it, if any. A loop that runs for ever has no result.
\<close>

definition loop_timeout :: "int option \<Rightarrow> int \<Rightarrow> int" where
  "loop_timeout next_exec_time present =
     (case next_exec_time of None \<Rightarrow> 1000000 | Some t \<Rightarrow> min 1000000 (t - present))"

partial_function (option) runWhile ::
    "('x \<Rightarrow> bool) \<Rightarrow> ('x \<Rightarrow> (string + int option) \<times> 'x) \<Rightarrow> ('x \<Rightarrow> int) \<Rightarrow> (int \<Rightarrow> 'x \<Rightarrow> string option \<times> 'x) \<Rightarrow> 'x \<Rightarrow>
     (string option \<times> 'x) option" where
  "runWhile loop_predicate spinOnce present poll x =
     (if loop_predicate x then
        (case spinOnce x of
           (Inl what, x) \<Rightarrow> Some (Some what, x)
         | (Inr next_exec_time, x) \<Rightarrow>
             (case poll (loop_timeout next_exec_time (present x)) x of
                (Some what, x) \<Rightarrow> Some (Some what, x)
              | (None, x) \<Rightarrow> runWhile loop_predicate spinOnce present poll x))
      else Some (None, x))"

subsection \<open>Transfer ids\<close>

definition getIdFor :: "'s \<Rightarrow> ('s \<rightharpoonup> u64) \<Rightarrow> u64" where
  "getIdFor session_spec m = (case m session_spec of None \<Rightarrow> 0 | Some transfer_id \<Rightarrow> transfer_id)"

definition setIdFor :: "'s \<Rightarrow> u64 \<Rightarrow> ('s \<rightharpoonup> u64) \<Rightarrow> ('s \<rightharpoonup> u64)" where
  "setIdFor session_spec transfer_id m = m(session_spec \<mapsto> transfer_id)"

end
