(* ===== verification/Engine_Safe.thy ===== *)
theory Engine_Safe
  imports Engine_Init Epoll_Safe
begin

text \<open>
  What bringing up the daemon promises: which transport is chosen and over which interfaces, that
  nothing leaks on the way, that a daemon that came up is in a state from which the invariants of
  its runs hold, and how long its loop waits.
\<close>

subsection \<open>The configured interfaces\<close>

lemma pieces_Nil [simp]: "pieces [] = []"
  by (simp add: pieces_def split_commas.simps)

lemma split_commas_append: "split_commas (a @ CHR '','' # b) = split_commas a @ split_commas b"
proof (induction a rule: split_commas.induct)
  case (1 a)
  show ?case
  proof (cases "dropWhile (\<lambda>x. x \<noteq> CHR '','') a")
    case Nil
    then have no: "\<forall>x \<in> set a. x \<noteq> CHR '',''" by (simp add: dropWhile_eq_Nil_conv)
    then have "dropWhile (\<lambda>x. x \<noteq> CHR '','') (a @ CHR '','' # b) = CHR '','' # b"
      and "takeWhile (\<lambda>x. x \<noteq> CHR '','') (a @ CHR '','' # b) = a"
      by (simp_all add: dropWhile_append2 takeWhile_append2)
    then show ?thesis using Nil
      by (simp add: split_commas.simps [of "a @ CHR '','' # b"] split_commas.simps [of a] del: dropWhile_eq_Nil_conv)
  next
    case (Cons c r)
    have c: "c = CHR '',''" using hd_dropWhile [of "\<lambda>x. x \<noteq> CHR '',''" a] Cons by simp
    have "c \<in> set (dropWhile (\<lambda>x. x \<noteq> CHR '','') a)" using Cons by simp
    then have "c \<in> set a" by (rule set_dropWhileD)
    then have "dropWhile (\<lambda>x. x \<noteq> CHR '','') (a @ CHR '','' # b) = c # r @ CHR '','' # b"
      and "takeWhile (\<lambda>x. x \<noteq> CHR '','') (a @ CHR '','' # b) = takeWhile (\<lambda>x. x \<noteq> CHR '','') a"
      using Cons c by (simp_all add: dropWhile_append1 [of c] takeWhile_append1 [of c])
    then show ?thesis
      using 1 [OF Cons] Cons by (simp add: split_commas.simps [of "a @ CHR '','' # b"] split_commas.simps [of a])
  qed
qed

lemma pieces_append: "pieces (a @ CHR '','' # b) = pieces a @ pieces b"
  by (simp add: pieces_def split_commas_append)

definition configured :: "string \<Rightarrow> string list \<Rightarrow> string list" where
  "configured pfx ifaces = concat (map (\<lambda>iface. pieces (drop (length pfx) iface)) (filter (starts_with pfx) ifaces))"

lemma collect_ifaces_concat:
  "fold (\<lambda>iface acc. if starts_with pfx iface then acc @ drop (length pfx) iface @ '','' else acc) ifaces acc =
   acc @ concat (map (\<lambda>iface. drop (length pfx) iface @ '','') (filter (starts_with pfx) ifaces))"
  by (induction ifaces arbitrary: acc) simp_all

lemma pieces_collect: "pieces (collect_ifaces pfx ifaces) = configured pfx ifaces"
proof -
  have "pieces (concat (map (\<lambda>iface. drop (length pfx) iface @ '','') xs)) = concat (map (\<lambda>iface. pieces (drop (length pfx) iface)) xs)" for xs
    by (induction xs) (simp_all add: pieces_append)
  then show ?thesis by (simp add: collect_ifaces_def collect_ifaces_concat configured_def)
qed

subsection \<open>Transport bags\<close>

lemma map_filter_id: "List.map_filter id (map Some xs @ replicate n None) = xs"
  by (induction xs) (simp_all add: List.map_filter_simps List.map_filter_def)

lemma owned_rev: "set (owned (rev ms)) = set (owned ms)"
  by (induction ms) auto

lemma destroy_all_fds:
  assumes "can_fds P fds"
  shows "fds (kernel_of (fold (\<lambda>m s. case m of None \<Rightarrow> s | Some m \<Rightarrow> CanMedia_destroy P m s) ms s)) =
         fds (kernel_of s) - set (owned (List.map_filter id ms))"
  by (induction ms arbitrary: s)
     (auto simp: List.map_filter_simps CanMedia_destroy_fds [OF assms] split: option.splits)

lemma collection_destroy_fds:
  assumes "can_fds P fds" and "holds ms c"
  shows "fds (kernel_of (CanMediaCollection_destroy P c s)) = fds (kernel_of s) - set (owned ms)"
proof -
  have "List.map_filter id (rev (media_array c)) = rev (List.map_filter id (media_array c))"
    by (simp add: List.map_filter_def rev_filter rev_map)
  then show ?thesis
    using assms(2) destroy_all_fds [OF assms(1), of "rev (media_array c)" s] map_filter_id [of ms "3 - length ms"]
    by (simp add: CanMediaCollection_destroy_def holds_def owned_rev)
qed

text \<open>The descriptors of the sockets a transport owns; UDP sockets are made when they are needed.\<close>

fun bag_owned :: "'t any_transport_bag \<Rightarrow> int set" where
  "bag_owned (UdpBag _ _) = {}"
| "bag_owned (CanBag media _) = set (owned (List.map_filter id (media_array media)))"

lemma holds_owned: "holds ms c \<Longrightarrow> bag_owned (CanBag c t) = set (owned ms)"
  using map_filter_id [of ms "3 - length ms"] by (simp add: holds_def)

lemma can_bag:
  assumes "can_fds P fds" and "length (collect_ifaces ''socketcan:'' (cyphal_transport_interfaces cfg)) < 2 ^ 64 - 1"
  shows "\<exists>media s1 s2 ms.
    CanMediaCollection_parse P (collect_ifaces ''socketcan:'' (cyphal_transport_interfaces cfg)) CanMediaCollection_make s = Some (media, s1) \<and>
    holds ms media \<and> subseq (map can_iface_address ms) (configured ''socketcan:'' (cyphal_transport_interfaces cfg)) \<and>
    set (owned ms) \<inter> fds (kernel_of s) = {} \<and> fds (kernel_of s1) = fds (kernel_of s) \<union> set (owned ms) \<and>
    fds (kernel_of s2) = fds (kernel_of s) \<and>
    CanTransportBag_make P makeTransport cfg s =
      Some (case (if ms = [] then None else makeTransport media) of Some t \<Rightarrow> (Some (media, t), s1) | None \<Rightarrow> (None, s2))"
proof -
  have empty: "length (media_array CanMediaCollection_make) = 3" "length (media_ifaces CanMediaCollection_make) = 3"
    "owned (List.map_filter id (media_array CanMediaCollection_make)) = []"
    by (simp_all add: CanMediaCollection_make_def List.map_filter_simps)
  from can_collection_parse_lemma [OF assms(1) empty(1,2) assms(2), of s] obtain ms c s1 where
    1: "CanMediaCollection_parse P (collect_ifaces ''socketcan:'' (cyphal_transport_interfaces cfg)) CanMediaCollection_make s = Some (c, s1)"
      "holds ms c" "CanMediaCollection_count c = length ms"
      "subseq (map can_iface_address ms) (configured ''socketcan:'' (cyphal_transport_interfaces cfg))"
      "distinct (owned ms)" "set (owned ms) \<inter> fds (kernel_of s) = {}" "fds (kernel_of s1) = fds (kernel_of s) \<union> set (owned ms)"
    unfolding empty(3) pieces_collect list.set(1) Diff_empty by (elim exE conjE) (rule that)
  have gone: "fds (kernel_of (CanMediaCollection_destroy P c s1)) = fds (kernel_of s)"
    using collection_destroy_fds [OF assms(1) 1(2)] 1(6,7) by auto
  have "CanTransportBag_make P makeTransport cfg s = Some (case (if ms = [] then None else makeTransport c) of
      Some t \<Rightarrow> (Some (c, t), s1) | None \<Rightarrow> (None, CanMediaCollection_destroy P c s1))"
    using 1(1,3) by (cases "makeTransport c") (simp_all add: CanTransportBag_make_def)
  with 1 gone show ?thesis
    by (intro exI [of _ c] exI [of _ s1] exI [of _ "CanMediaCollection_destroy P c s1"] exI [of _ ms]) simp
qed

lemma udp_bag:
  assumes "length (collect_ifaces ''udp://'' (cyphal_transport_interfaces cfg)) < 2 ^ 64 - 1"
  shows "\<exists>media. UdpMediaCollection_parse (collect_ifaces ''udp://'' (cyphal_transport_interfaces cfg)) UdpMediaCollection_make = Some media \<and>
    map udp_iface_address (take (UdpMediaCollection_count media) (udp_media_array media)) =
      take 3 (configured ''udp://'' (cyphal_transport_interfaces cfg)) \<and>
    UdpTransportBag_make makeTransport cfg =
      Some (if configured ''udp://'' (cyphal_transport_interfaces cfg) = [] then None
            else map_option (\<lambda>t. (media, t)) (makeTransport media))"
proof -
  have "length (udp_media_array UdpMediaCollection_make) = 3" by (simp add: UdpMediaCollection_make_def)
  from udp_collection_parse_lemma [OF this assms] obtain media where
    1: "UdpMediaCollection_parse (collect_ifaces ''udp://'' (cyphal_transport_interfaces cfg)) UdpMediaCollection_make = Some media"
      "map udp_iface_address (take (UdpMediaCollection_count media) (udp_media_array media)) =
         take 3 (configured ''udp://'' (cyphal_transport_interfaces cfg))"
      "UdpMediaCollection_count media = min 3 (length (configured ''udp://'' (cyphal_transport_interfaces cfg)))"
    unfolding pieces_collect by blast
  then show ?thesis
    by (intro exI [of _ media]) (auto simp: UdpTransportBag_make_def split: option.splits)
qed

subsection \<open>The choice of the transport\<close>

text \<open>The interface addresses a configuration names are short enough for the positions in their list.\<close>

definition short_interfaces :: "config \<Rightarrow> bool" where
  "short_interfaces cfg \<longleftrightarrow>
     length (collect_ifaces ''udp://'' (cyphal_transport_interfaces cfg)) < 2 ^ 64 - 1 \<and>
     length (collect_ifaces ''socketcan:'' (cyphal_transport_interfaces cfg)) < 2 ^ 64 - 1"

lemma make_transport_bag_cases:
  assumes "can_fds (ep_can E) fds" and "short_interfaces cfg"
  shows "\<exists>um cm s1 s2 ms.
    UdpMediaCollection_parse (collect_ifaces ''udp://'' (cyphal_transport_interfaces cfg)) UdpMediaCollection_make = Some um \<and>
    map udp_iface_address (take (UdpMediaCollection_count um) (udp_media_array um)) =
      take 3 (configured ''udp://'' (cyphal_transport_interfaces cfg)) \<and>
    CanMediaCollection_parse (ep_can E) (collect_ifaces ''socketcan:'' (cyphal_transport_interfaces cfg)) CanMediaCollection_make s =
      Some (cm, s1) \<and>
    holds ms cm \<and> subseq (map can_iface_address ms) (configured ''socketcan:'' (cyphal_transport_interfaces cfg)) \<and>
    set (owned ms) \<inter> fds (kernel_of s) = {} \<and> fds (kernel_of s1) = fds (kernel_of s) \<union> set (owned ms) \<and>
    fds (kernel_of s2) = fds (kernel_of s) \<and>
    make_transport_bag E cfg s = Some
      (case (if configured ''udp://'' (cyphal_transport_interfaces cfg) = [] then None else ep_makeUdp E um) of
         Some t \<Rightarrow> (Some (UdpBag um t), s)
       | None \<Rightarrow>
           (case (if ms = [] then None else ep_makeCan E cm) of
              Some t \<Rightarrow> (Some (CanBag cm t), s1)
            | None \<Rightarrow> (None, s2)))"
proof -
  let ?udp = "configured ''udp://'' (cyphal_transport_interfaces cfg)"
  from udp_bag [of cfg "ep_makeUdp E"] assms(2) obtain um where
    u: "UdpMediaCollection_parse (collect_ifaces ''udp://'' (cyphal_transport_interfaces cfg)) UdpMediaCollection_make = Some um"
      "map udp_iface_address (take (UdpMediaCollection_count um) (udp_media_array um)) = take 3 ?udp"
    and udp: "UdpTransportBag_make (ep_makeUdp E) cfg =
      Some (if ?udp = [] then None else map_option (\<lambda>t. (um, t)) (ep_makeUdp E um))"
    by (auto simp: short_interfaces_def)
  from can_bag [OF assms(1), of cfg s "ep_makeCan E"] assms(2) obtain cm s1 s2 ms where
    c: "CanMediaCollection_parse (ep_can E) (collect_ifaces ''socketcan:'' (cyphal_transport_interfaces cfg)) CanMediaCollection_make s = Some (cm, s1)"
      "holds ms cm" "subseq (map can_iface_address ms) (configured ''socketcan:'' (cyphal_transport_interfaces cfg))"
      "set (owned ms) \<inter> fds (kernel_of s) = {}" "fds (kernel_of s1) = fds (kernel_of s) \<union> set (owned ms)"
      "fds (kernel_of s2) = fds (kernel_of s)"
    and can: "CanTransportBag_make (ep_can E) (ep_makeCan E) cfg s =
      Some (case (if ms = [] then None else ep_makeCan E cm) of Some t \<Rightarrow> (Some (cm, t), s1) | None \<Rightarrow> (None, s2))"
    by (auto simp: short_interfaces_def)
  have "make_transport_bag E cfg s = Some
      (case (if ?udp = [] then None else ep_makeUdp E um) of Some t \<Rightarrow> (Some (UdpBag um t), s)
       | None \<Rightarrow> (case (if ms = [] then None else ep_makeCan E cm) of Some t \<Rightarrow> (Some (CanBag cm t), s1) | None \<Rightarrow> (None, s2)))"
    by (cases "ep_makeUdp E um"; cases "ep_makeCan E cm") (simp_all add: make_transport_bag_def udp can)
  with u c show ?thesis by blast
qed

text \<open>Whichever it is, the descriptors it owns are the only ones open in addition.\<close>

lemma make_transport_bag_fds:
  fixes E :: "('k, 't) engine_params"
  assumes "can_fds (ep_can E) fds" and "short_interfaces cfg" and "make_transport_bag E cfg s = Some (b, s')"
  shows "fds (kernel_of s') = fds (kernel_of s) \<union> (case b of None \<Rightarrow> {} | Some bag \<Rightarrow> bag_owned bag)"
proof -
  from make_transport_bag_cases [OF assms(1,2), of s] obtain um cm s1 s2 ms where
    "holds ms cm" "fds (kernel_of s1) = fds (kernel_of s) \<union> set (owned ms)" "fds (kernel_of s2) = fds (kernel_of s)"
    "make_transport_bag E cfg s = Some
      (case (if configured ''udp://'' (cyphal_transport_interfaces cfg) = [] then None else ep_makeUdp E um) of
         Some t \<Rightarrow> (Some (UdpBag um t), s)
       | None \<Rightarrow> (case (if ms = [] then None else ep_makeCan E cm) of Some t \<Rightarrow> (Some (CanBag cm t), s1) | None \<Rightarrow> (None, s2)))"
    by blast
  moreover from this(1) have "bag_owned (CanBag cm t) = set (owned ms)" for t :: 't by (rule holds_owned)
  ultimately show ?thesis using assms(3) by (auto simp del: bag_owned.simps(2) split: option.splits if_splits)
qed

text \<open>
  C28. The transport of the daemon. The UDP addresses of the configuration parse to media for the
  first three of them; its CAN addresses, parsed in the present state, to media for at most three
  that could be opened, in their order, with exactly their sockets open in addition. If there are
  UDP addresses and the UDP transport over these very media can be made, that is the transport and
  nothing is opened. Otherwise the CAN addresses are tried: if there are CAN media and the
  transport over them can be made, that is the transport, with their sockets open. Otherwise there
  is none, and nothing is open in addition. Finding it never fails with an exception.
\<close>

theorem transport_choice:
  assumes "can_fds (ep_can E) fds" and "short_interfaces cfg"
  shows "\<exists>um cm s1 s2 ms.
    UdpMediaCollection_parse (collect_ifaces ''udp://'' (cyphal_transport_interfaces cfg)) UdpMediaCollection_make = Some um \<and>
    map udp_iface_address (take (UdpMediaCollection_count um) (udp_media_array um)) =
      take 3 (configured ''udp://'' (cyphal_transport_interfaces cfg)) \<and>
    CanMediaCollection_parse (ep_can E) (collect_ifaces ''socketcan:'' (cyphal_transport_interfaces cfg)) CanMediaCollection_make s =
      Some (cm, s1) \<and>
    holds ms cm \<and> subseq (map can_iface_address ms) (configured ''socketcan:'' (cyphal_transport_interfaces cfg)) \<and>
    set (owned ms) \<inter> fds (kernel_of s) = {} \<and> fds (kernel_of s1) = fds (kernel_of s) \<union> set (owned ms) \<and>
    fds (kernel_of s2) = fds (kernel_of s) \<and>
    make_transport_bag E cfg s = Some
      (case (if configured ''udp://'' (cyphal_transport_interfaces cfg) = [] then None else ep_makeUdp E um) of
         Some t \<Rightarrow> (Some (UdpBag um t), s)
       | None \<Rightarrow>
           (case (if ms = [] then None else ep_makeCan E cm) of
              Some t \<Rightarrow> (Some (CanBag cm t), s1)
            | None \<Rightarrow> (None, s2)))"
  by (rule make_transport_bag_cases [OF assms])

subsection \<open>A daemon that came up\<close>

lemma with_node_id_owned [simp]: "bag_owned (with_node_id f i bag) = bag_owned bag"
  by (cases bag; cases i) simp_all

lemma getUniqueId_frame [simp]:
  "ipc_router (snd (getUniqueId u e)) = ipc_router e" "any_transport_bag (snd (getUniqueId u e)) = any_transport_bag e"
  "engine_kernel (snd (getUniqueId u e)) = engine_kernel e"
  "ipc_connections (engine_config (snd (getUniqueId u e))) = ipc_connections (engine_config e)"
  by (auto simp: getUniqueId_def config_save_def config_setUniqueId_def Let_def split: option.splits)

lemma init_ipc_ok:
  assumes "init_ipc E svc_id cy e = Some (None, e')"
  shows "\<exists>connection rest a w. ipc_connections (engine_config e) = connection # rest \<and> parse (ep_pton E) connection 0 = Inr a \<and>
    ServerRouter_start (ep_posix E) (daemon_initial svc_id (SocketServer_make a (kernel_of (engine_kernel e))) cy) = Some (0, w) \<and>
    e' = e\<lparr>ipc_router := Some w, engine_kernel := (errno_of (engine_kernel e), ss_kernel (server_pipe w))\<rparr>"
  using assms by (auto simp: init_ipc_def Let_def split: list.splits sum.splits option.splits if_splits)

lemma daemon_initial_pipe [simp]:
  "server_pipe (daemon_initial svc_id pipe cy) = pipe"
  "client_id_to_map_of_gateways (daemon_initial svc_id pipe cy) = Map.empty"
  by (simp_all add: daemon_initial_def registerChannelFactory_def ServerRouter_make_def)

lemma SocketServer_start_address:
  assumes "SocketServer_start P s = Some (r, s')"
  shows "server_address s' = server_address s"
proof -
  have "server_address s1 = server_address s" if "server_makeSocketHandle P s = Some (e, s1)" for e s1
  proof -
    from that obtain r k where "SocketAddress_socket P (server_address s) SOCK_STREAM (ss_kernel s) = Some (r, k)"
      by (auto simp: server_makeSocketHandle_def bind_eq_Some_conv)
    with that show ?thesis
      by (cases r) (auto simp: server_makeSocketHandle_def bind_eq_Some_conv OwnFd_assign_def Let_def split: if_splits)
  qed
  with assms show ?thesis
    by (auto simp: SocketServer_start_def bind_eq_Some_conv Let_def split: if_splits)
qed

lemma getUniqueId_value:
  "fst (getUniqueId random e) = (case cyphal_app_unique_id (engine_config e) of None \<Rightarrow> random | Some u \<Rightarrow> u)"
  by (simp add: getUniqueId_def Let_def split: option.split prod.split)

text \<open>A router that started is in the first state of a run, and its pipe owns the listening descriptor.\<close>

lemma started_server:
  fixes X :: "('c, 'r, 'k socket_server, 'cy) exec_params" and w :: "('c, 'r, 'k socket_server, 'cy) daemon"
  assumes "posix_fds P fds" and "ServerRouter_start P (daemon_initial svc_id (SocketServer_make a k) cy) = Some (0, w)"
  shows "server_run P (exec_env X) (node_step X) (daemon_initial svc_id (SocketServer_make a k) cy) w" and "daemon_inv w"
    and "sockets_inv fds (fds k) (server_pipe w)" and "server_address (server_pipe w) = a"
proof -
  let ?w0 = "daemon_initial svc_id (SocketServer_make a k) cy :: ('c, 'r, 'k socket_server, 'cy) daemon"
  from assms(2) obtain sp where sp: "SocketServer_start P (SocketServer_make a k) = Some (0, sp)" "w = ?w0\<lparr>server_pipe := sp\<rparr>"
    by (auto simp: ServerRouter_start_def)
  show "server_run P (exec_env X) (node_step X) ?w0 w" by (rule server_run.run_start [OF assms(2)])
  show "daemon_inv w" by (simp add: sp(2) daemon_inv_pipe daemon_initial_inv)
  show "sockets_inv fds (fds k) (server_pipe w)" using SocketServer_start_inv [OF assms(1) sp(1)] by (simp add: sp(2))
  show "server_address (server_pipe w) = a"
    using SocketServer_start_address [OF sp(1)] by (simp add: sp(2) SocketServer_make_def)
qed

text \<open>What a successful initialisation went through: the transport, the node, the router.\<close>

lemma Engine_init_ok:
  fixes cy :: 'cy and E :: "('k, 't) engine_params"
  assumes "Engine_init E svc_id cy (Engine_make cfg s) = Some (None, e)"
  shows "\<exists>bag s1 connection rest a (w :: ('c, 'r, 'k socket_server, 'cy) daemon).
    make_transport_bag E cfg s = Some (Some bag, s1) \<and>
    any_transport_bag e = Some (with_node_id (ep_setLocalNodeId E) (cyphal_app_node_id cfg) bag) \<and>
    map_option node_unique_id (node e) = Some (case cyphal_app_unique_id cfg of None \<Rightarrow> ep_random E | Some u \<Rightarrow> u) \<and>
    ipc_connections cfg = connection # rest \<and> parse (ep_pton E) connection 0 = Inr a \<and> ipc_router e = Some w \<and>
    ServerRouter_start (ep_posix E) (daemon_initial svc_id (SocketServer_make a (kernel_of s1)) cy) = Some (0, w)"
proof -
  obtain bag s1 where b: "make_transport_bag E cfg s = Some (Some bag, s1)"
    using assms by (auto simp: Engine_init_def Engine_make_def split: option.splits)
  define e1 :: "('c, 'r, 'k, 'cy, 't) engine" where
    "e1 = (Engine_make cfg s)\<lparr>any_transport_bag := Some (with_node_id (ep_setLocalNodeId E) (cyphal_app_node_id cfg) bag), engine_kernel := s1\<rparr>"
  obtain u e2 where u: "getUniqueId (ep_random E) e1 = (u, e2)" by (metis surj_pair)
  define e3 where "e3 = e2\<lparr>node := Some \<lparr>node_name = NODE_NAME, software_version = (VERSION_MAJOR, VERSION_MINOR),
      software_vcs_revision = ep_vcs_revision E, node_unique_id = u\<rparr>\<rparr>"
  have "init_ipc E svc_id cy e3 = Some (None, e)"
    using assms u by (auto simp: Engine_init_def Engine_make_def b e1_def e3_def Let_def split: if_splits)
  moreover have "engine_kernel e3 = s1" "ipc_connections (engine_config e3) = ipc_connections cfg"
    "any_transport_bag e3 = Some (with_node_id (ep_setLocalNodeId E) (cyphal_app_node_id cfg) bag)"
    using getUniqueId_frame [of "ep_random E" e1] by (simp_all add: u e3_def) (simp_all add: e1_def Engine_make_def)
  moreover have "u = (case cyphal_app_unique_id cfg of None \<Rightarrow> ep_random E | Some u \<Rightarrow> u)"
    using getUniqueId_value [of "ep_random E" e1] by (simp add: u) (simp add: e1_def Engine_make_def)
  ultimately show ?thesis using b init_ipc_ok [of E svc_id cy e3 e] by (auto simp: e3_def)
qed

text \<open>
  C6. A daemon whose engine initialised without an error listens on the first configured
  connection; its router is in the first state of a run, so that everything that is proved of runs
  holds from then on; it owns exactly the descriptors that were open before, those of its CAN
  media, and the listening one; and the node has the configured or the random unique id.
\<close>

theorem engine_starts_a_run:
  fixes X :: "('c, 'r, 'k socket_server, 'cy) exec_params" and cy :: 'cy and E :: "('k, 't) engine_params"
  assumes "can_fds (ep_can E) fds" and "posix_fds (ep_posix E) fds" and "short_interfaces cfg"
    and "Engine_init E svc_id cy (Engine_make cfg s) = Some (None, e)"
  shows "\<exists>bag w0 (w :: ('c, 'r, 'k socket_server, 'cy) daemon) connection rest a.
    any_transport_bag e = Some bag \<and> ipc_router e = Some w \<and>
    ipc_connections cfg = connection # rest \<and> parse (ep_pton E) connection 0 = Inr a \<and> server_address (server_pipe w) = a \<and>
    server_run (ep_posix E) (exec_env X) (node_step X) w0 w \<and> daemon_inv w \<and>
    sockets_inv fds (fds (kernel_of s) \<union> bag_owned bag) (server_pipe w) \<and>
    map_option node_unique_id (node e) = Some (case cyphal_app_unique_id cfg of None \<Rightarrow> ep_random E | Some u \<Rightarrow> u)"
proof -
  from Engine_init_ok [OF assms(4)] obtain bag0 s1 connection rest a and w :: "('c, 'r, 'k socket_server, 'cy) daemon" where
    bag: "make_transport_bag E cfg s = Some (Some bag0, s1)"
      "any_transport_bag e = Some (with_node_id (ep_setLocalNodeId E) (cyphal_app_node_id cfg) bag0)"
    and uid: "map_option node_unique_id (node e) = Some (case cyphal_app_unique_id cfg of None \<Rightarrow> ep_random E | Some u \<Rightarrow> u)"
    and conn: "ipc_connections cfg = connection # rest" "parse (ep_pton E) connection 0 = Inr a" "ipc_router e = Some w"
    and start: "ServerRouter_start (ep_posix E) (daemon_initial svc_id (SocketServer_make a (kernel_of s1)) cy) = Some (0, w)"
    by blast
  have "fds (kernel_of s1) = fds (kernel_of s) \<union> bag_owned bag0"
    using make_transport_bag_fds [OF assms(1,3) bag(1)] by simp
  with started_server(1) [OF assms(2) start, where X = X] started_server(2-4) [OF assms(2) start] bag(2) uid conn show ?thesis
    by (intro exI [of _ "with_node_id (ep_setLocalNodeId E) (cyphal_app_node_id cfg) bag0"] exI [of _ w] exI) auto
qed

subsection \<open>The run loop\<close>

text \<open>
  C40. Each turn of the daemon's loop waits for at most a second: what the loop passes to the
  executor becomes a timeout of the kernel between 0 and 1000 milliseconds, which is 0 exactly if
  something is due in less than a millisecond.
\<close>

theorem run_loop_wakes:
  "0 \<le> clamped_timeout_ms (Some (loop_timeout next_exec_time present)) \<and>
   clamped_timeout_ms (Some (loop_timeout next_exec_time present)) \<le> 1000 \<and>
   (clamped_timeout_ms (Some (loop_timeout next_exec_time present)) = 0 \<longleftrightarrow>
      (\<exists>t. next_exec_time = Some t \<and> t - present < 1000))"
proof -
  have ms: "to_milliseconds us \<le> 1000" if "us \<le> 1000000" for us
    using that by (cases us "0 :: int" rule: linorder_cases) (auto simp: to_milliseconds_def)
  have zero: "max 0 (min (to_milliseconds us) 2147483647) = 0 \<longleftrightarrow> us < 1000" for us
    by (cases us "0 :: int" rule: linorder_cases) (auto simp: to_milliseconds_def max_def min_def)
  have le: "loop_timeout next_exec_time present \<le> 1000000"
    by (simp add: loop_timeout_def split: option.split)
  have "loop_timeout next_exec_time present < 1000 \<longleftrightarrow> (\<exists>t. next_exec_time = Some t \<and> t - present < 1000)"
    by (auto simp: loop_timeout_def split: option.split)
  with ms [OF le] zero [of "loop_timeout next_exec_time present"] show ?thesis
    by (simp add: clamped_timeout_ms_def)
qed

subsection \<open>Identity\<close>

text \<open>
  The unique id does not change once it was made: it is in the configuration, and in its file.
\<close>

lemma unique_id_stable:
  "fst (getUniqueId r2 (snd (getUniqueId r1 e))) = fst (getUniqueId r1 e)"
  "cyphal_app_unique_id (engine_config e) = None \<Longrightarrow>
     map_option cyphal_app_unique_id (config_file (snd (getUniqueId r1 e))) = Some (Some r1)"
  by (auto simp: getUniqueId_def config_save_def config_setUniqueId_def split: option.splits)

lemma getIdFor_setIdFor: "getIdFor s' (setIdFor s i m) = (if s' = s then i else getIdFor s' m)"
  by (simp add: getIdFor_def setIdFor_def)

end
