(* ===== verification/Sample_Engine.thy ===== *)
theory Sample_Engine
  imports Engine_Safe Sample_Kernel
begin

text \<open>A machine without CAN on which the daemon comes up over UDP, and the theorems about that.\<close>

definition no_can :: "sample_kernel can_posix" where
  "no_can = \<lparr>
     can_socket = (\<lambda>k. (Err 97, k)),
     can_ifindex = (\<lambda>fd name k. (Err 19, k)),
     can_bind = (\<lambda>fd i k. (Err EINVAL, k)),
     can_setsockopt = (\<lambda>fd opt v k. (Err EINVAL, k)),
     can_setfilter = (\<lambda>fd cs k. (Err EINVAL, k)),
     can_ppoll = (\<lambda>fd events sec nsec k. (Err EINVAL, k)),
     can_write = (\<lambda>fd bs k. (Err EINVAL, k)),
     can_recvmsg = (\<lambda>fd n k. (Err EINVAL, k)),
     can_close = (\<lambda>fd k. if fd \<in> set (sk_open k) \<and> 0 \<le> fd \<and> fd < int (sk_next k)
        then (Ret (), k\<lparr>sk_open := filter (\<lambda>fd'. fd' \<noteq> fd) (sk_open k)\<rparr>) else (Err EBADF, k))\<rparr>"

definition real_fds :: "sample_kernel \<Rightarrow> int set" where
  "real_fds k = {fd. fd \<in> set (sk_open k) \<and> 0 \<le> fd \<and> fd < int (sk_next k)}"

lemma no_can_fds: "can_fds no_can real_fds"
proof -
  have "0 \<le> fd" if "fd \<in> real_fds k" for fd k using that by (simp add: real_fds_def)
  moreover have "closes_fd real_fds fd (can_close no_can fd)" for fd
    by (auto simp: closes_fd_def no_can_def real_fds_def)
  ultimately show ?thesis
    unfolding can_fds_def quiet_call_def keeps_fds_def fails_positive_def valid_errno_def opens_fd_def
    by (auto simp: no_can_def split: if_splits)
qed

lemma sample_posix_real: "posix_fds sample_posix real_fds"
proof -
  have opened: "sample_open k = (fd, k') \<Longrightarrow> 0 \<le> fd \<and> fd \<notin> real_fds k \<and> real_fds k' = insert fd (real_fds k)" for k k' fd
    by (auto simp: sample_open_def real_fds_def)
  have w: "real_fds (k\<lparr>sk_waiting := n\<rparr>) = real_fds k" "real_fds (k\<lparr>sk_stream := bs\<rparr>) = real_fds k" for k n bs
    by (simp_all add: real_fds_def)
  have c: "real_fds (k\<lparr>sk_open := filter (\<lambda>fd'. fd' \<noteq> fd) (sk_open k)\<rparr>) = real_fds k - {fd}" for k fd
    by (auto simp: real_fds_def)
  show ?thesis
    unfolding posix_fds_def opens_fd_def keeps_fds_def
    by (auto simp: sample_posix_def w c split: prod.split dest: opened)
qed

definition sample_config :: config where
  "sample_config = \<lparr>cyphal_app_node_id = Some 42, cyphal_app_unique_id = None,
     cyphal_transport_interfaces = [''socketcan:can0'', ''udp://127.0.0.1''],
     ipc_connections = [''unix-abstract:ocvsmd''], is_dirty = False\<rparr>"

definition sample_engine :: "(sample_kernel, u16) engine_params" where
  "sample_engine = \<lparr>ep_posix = sample_posix, ep_can = no_can, ep_makeUdp = (\<lambda>_. Some 0), ep_makeCan = (\<lambda>_. None),
     ep_setLocalNodeId = (\<lambda>i t. i), ep_makeNode = (\<lambda>_. True), ep_vcs_revision = 5,
     ep_random = replicate 16 7,
     ep_pton = (\<lambda>_ _. PtonInvalid)\<rparr>"

lemma sample_fields [simp]:
  "ep_posix sample_engine = sample_posix" "ep_makeNode sample_engine = (\<lambda>_. True)" "ep_random sample_engine = replicate 16 7"
  "ep_pton sample_engine = (\<lambda>_ _. PtonInvalid)"
  "cyphal_app_unique_id sample_config = None" "ipc_connections sample_config = [''unix-abstract:ocvsmd'']"
  by (simp_all add: sample_engine_def sample_config_def)

lemma sample_configured: "configured ''udp://'' (cyphal_transport_interfaces sample_config) = [''127.0.0.1'']"
  by (simp add: configured_def sample_config_def starts_with_def pieces_def split_commas.simps)

lemma sample_short: "short_interfaces sample_config"
  by (simp add: short_interfaces_def sample_config_def collect_ifaces_def starts_with_def)

theorem transport_choice_witness:
  "\<exists>um cm s1 s2 ms.
    UdpMediaCollection_parse (collect_ifaces ''udp://'' (cyphal_transport_interfaces sample_config)) UdpMediaCollection_make = Some um \<and>
    map udp_iface_address (take (UdpMediaCollection_count um) (udp_media_array um)) =
      take 3 (configured ''udp://'' (cyphal_transport_interfaces sample_config)) \<and>
    CanMediaCollection_parse (ep_can sample_engine) (collect_ifaces ''socketcan:'' (cyphal_transport_interfaces sample_config)) CanMediaCollection_make (0, k_start) =
      Some (cm, s1) \<and>
    holds ms cm \<and> subseq (map can_iface_address ms) (configured ''socketcan:'' (cyphal_transport_interfaces sample_config)) \<and>
    set (owned ms) \<inter> real_fds (kernel_of (0, k_start)) = {} \<and> real_fds (kernel_of s1) = real_fds (kernel_of (0, k_start)) \<union> set (owned ms) \<and>
    real_fds (kernel_of s2) = real_fds (kernel_of (0, k_start)) \<and>
    make_transport_bag sample_engine sample_config (0, k_start) = Some
      (case (if configured ''udp://'' (cyphal_transport_interfaces sample_config) = [] then None else ep_makeUdp sample_engine um) of
         Some t \<Rightarrow> (Some (UdpBag um t), 0, k_start)
       | None \<Rightarrow>
           (case (if ms = [] then None else ep_makeCan sample_engine cm) of
              Some t \<Rightarrow> (Some (CanBag cm t), s1)
            | None \<Rightarrow> (None, s2)))"
  by (rule transport_choice [OF _ sample_short]) (simp add: sample_engine_def no_can_fds)

lemma sample_bag: "\<exists>media. make_transport_bag sample_engine sample_config s = Some (Some (UdpBag media 0), s)"
proof -
  from udp_bag [of sample_config "ep_makeUdp sample_engine"] sample_short obtain media where
    "UdpTransportBag_make (ep_makeUdp sample_engine) sample_config = Some (Some (media, 0))"
    by (auto simp: short_interfaces_def sample_configured sample_engine_def)
  then show ?thesis by (simp add: make_transport_bag_def)
qed

definition init_result :: "(string option \<times> (u16, u16, sample_kernel, cyphal_action list, u16) engine) option" where
  "init_result = Engine_init sample_engine 42 [] (Engine_make sample_config (0, k_start))"

lemma sample_start:
  "\<exists>w. ServerRouter_start sample_posix
     (daemon_initial 42 (SocketServer_make adr k) cy :: (u16, u16, sample_kernel socket_server, cyphal_action list) daemon) = Some (0, w)"
  by (simp add: ServerRouter_start_def SocketServer_start_def server_makeSocketHandle_def
      SocketAddress_socket_def SocketAddress_bind_def configureNoDelay_def Let_def bind_eq_Some_conv
      SocketServer_make_def OwnFd_assign_def)

lemma sample_init: "\<exists>e. init_result = Some (None, e)"
proof -
  obtain media where b: "make_transport_bag sample_engine sample_config (0, k_start) = Some (Some (UdpBag media 0), (0, k_start))"
    using sample_bag by blast
  have "\<exists>adr. parse (\<lambda>_ _. PtonInvalid) ''unix-abstract:ocvsmd'' 0 = Inr adr"
    by (simp add: parse_def tryParseAsUnixDomain_def tryParseAsAbstractUnixDomain_def numeral_nat)
  then obtain adr where a: "parse (\<lambda>_ _. PtonInvalid) ''unix-abstract:ocvsmd'' 0 = Inr adr" by blast
  obtain w where w: "ServerRouter_start sample_posix (daemon_initial 42 (SocketServer_make adr k_start) []
       :: (u16, u16, sample_kernel socket_server, cyphal_action list) daemon) = Some (0, w)"
    using sample_start by blast
  show ?thesis
    unfolding init_result_def Engine_init_def
    by (simp add: Engine_make_def b Let_def getUniqueId_def init_ipc_def config_save_def config_setUniqueId_def a w)
qed

theorem engine_starts_a_run_witness:
  "\<exists>e. init_result = Some (None, e) \<and> (\<exists>bag w0 w connection rest a.
    any_transport_bag e = Some bag \<and> ipc_router e = Some w \<and>
    ipc_connections sample_config = connection # rest \<and> parse (ep_pton sample_engine) connection 0 = Inr a \<and>
    server_address (server_pipe w) = a \<and>
    server_run (ep_posix sample_engine) (exec_env kernel_params) (node_step kernel_params) w0 w \<and> daemon_inv w \<and>
    sockets_inv real_fds (real_fds (kernel_of (0, k_start)) \<union> bag_owned bag) (server_pipe w) \<and>
    map_option node_unique_id (node e) =
      Some (case cyphal_app_unique_id sample_config of None \<Rightarrow> ep_random sample_engine | Some u \<Rightarrow> u))"
proof -
  obtain e where e: "init_result = Some (None, e)" using sample_init by blast
  have "can_fds (ep_can sample_engine) real_fds" "posix_fds (ep_posix sample_engine) real_fds"
    by (simp_all add: sample_engine_def no_can_fds sample_posix_real)
  from engine_starts_a_run [OF this sample_short e [unfolded init_result_def], where X = kernel_params] e
  show ?thesis by blast
qed

end
