(* ===== verification/Kqueue_Executor.thy ===== *)
theory Kqueue_Executor
  imports Epoll_Executor
begin

text \<open>
  The executor on BSD, include/ocvsmd/platform/bsd/kqueue_single_threaded_executor.hpp:
  the counterpart of the epoll executor over the queue of a \<open>kqueue\<close> descriptor. The constants are
  those of sys/event.h; a filter is a negative 16-bit integer, and \<open>udata\<close> points to a node.
\<close>

type_synonym i16 = "16 word"

abbreviation EVFILT_READ :: int where "EVFILT_READ \<equiv> - 1"
abbreviation EVFILT_WRITE :: int where "EVFILT_WRITE \<equiv> - 2"
abbreviation EVFILT_VNODE :: int where "EVFILT_VNODE \<equiv> - 4"
abbreviation EV_ADD :: "16 word" where "EV_ADD \<equiv> 1"
abbreviation EV_DELETE :: "16 word" where "EV_DELETE \<equiv> 2"
abbreviation EV_CLEAR :: "16 word" where "EV_CLEAR \<equiv> 32"
abbreviation NOTE_DELETE :: u32 where "NOTE_DELETE \<equiv> 1"
abbreviation NOTE_WRITE :: u32 where "NOTE_WRITE \<equiv> 2"
abbreviation MaxEvents :: nat where "MaxEvents \<equiv> 16"
abbreviation TV_NSEC_MAX :: int where "TV_NSEC_MAX \<equiv> 9223372036854775807"

record kevent =
  ev_ident :: int
  ev_filter :: i16
  ev_flags :: "16 word"
  ev_fflags :: u32
  ev_udata :: "nat option"

text \<open>\<open>EV_SET\<close> stores its arguments in the fields, cut to their widths.\<close>

definition EV_SET :: "int \<Rightarrow> u32 \<Rightarrow> 16 word \<Rightarrow> u32 \<Rightarrow> nat option \<Rightarrow> kevent" where
  "EV_SET fd events flags fflags udata =
     \<lparr>ev_ident = fd, ev_filter = ucast events, ev_flags = flags, ev_fflags = fflags, ev_udata = udata\<rparr>"

text \<open>\<open>kq_change\<close> is \<open>kevent\<close> with one change, \<open>kq_wait\<close> the one that only waits (\<open>tv_nsec\<close> of the timeout).\<close>

record 'k kqueue_posix =
  kqueue_create :: "('k, int) syscall"
  kq_change :: "int \<Rightarrow> kevent \<Rightarrow> ('k, unit) syscall"
  kq_wait :: "int \<Rightarrow> nat \<Rightarrow> int option \<Rightarrow> ('k, nat option list) syscall"
  kq_close :: "int \<Rightarrow> ('k, unit) syscall"
  kq_sleep_for :: "int \<Rightarrow> 'k \<Rightarrow> 'k"
  kq_now :: "'k \<Rightarrow> int"

record ('k, 'f) kqueue_executor =
  kqueuefd :: int
  kq_total_awaitables :: u64
  kq_live_nodes :: "nat \<rightharpoonup> 'f awaitable_node"
  kq_scheduled :: "(nat \<times> int) list"
  kq_state :: "'k c_state"

definition KqueueSingleThreadedExecutor_make :: "'k kqueue_posix \<Rightarrow> 'k c_state \<Rightarrow> ('k, 'f) kqueue_executor" where
  "KqueueSingleThreadedExecutor_make P s =
     (let (fd, s) = c_call (kqueue_create P) s
      in \<lparr>kqueuefd = (case fd of None \<Rightarrow> - 1 | Some fd \<Rightarrow> fd), kq_total_awaitables = 0, kq_live_nodes = Map.empty,
          kq_scheduled = [], kq_state = s\<rparr>)"

subsection \<open>Nodes\<close>

definition kq_AwaitableNode_make :: "nat \<Rightarrow> 'f \<Rightarrow> ('k, 'f) kqueue_executor \<Rightarrow> ('k, 'f) kqueue_executor" where
  "kq_AwaitableNode_make n function x =
     x\<lparr>kq_live_nodes := (kq_live_nodes x)(n \<mapsto> \<lparr>aw_fd = - 1, aw_events = 0, aw_function = function\<rparr>)\<rparr>"

definition kq_AwaitableNode_setup ::
    "'k kqueue_posix \<Rightarrow> nat \<Rightarrow> int \<Rightarrow> u32 \<Rightarrow> ('k, 'f) kqueue_executor \<Rightarrow> ('k, 'f) kqueue_executor" where
  "kq_AwaitableNode_setup P n fd events x =
     (case kq_live_nodes x n of None \<Rightarrow> x
      | Some node \<Rightarrow>
          (let events = events OR of_int EVFILT_VNODE;
               ev = EV_SET fd events (EV_ADD OR EV_CLEAR) NOTE_WRITE (Some n)
           in x\<lparr>kq_live_nodes := (kq_live_nodes x)(n \<mapsto> node\<lparr>aw_fd := fd, aw_events := events\<rparr>),
                kq_total_awaitables := kq_total_awaitables x + 1,
                kq_state := c_void (kq_change P (kqueuefd x) ev) (kq_state x)\<rparr>))"

definition kq_AwaitableNode_destroy :: "'k kqueue_posix \<Rightarrow> nat \<Rightarrow> ('k, 'f) kqueue_executor \<Rightarrow> ('k, 'f) kqueue_executor" where
  "kq_AwaitableNode_destroy P n x =
     (case kq_live_nodes x n of None \<Rightarrow> x
      | Some node \<Rightarrow>
          (let x = (if 0 \<le> aw_fd node
                    then let ev = EV_SET (aw_fd node) (aw_events node) EV_DELETE NOTE_DELETE None
                      in x\<lparr>kq_state := c_void (kq_change P (kqueuefd x) ev) (kq_state x),
                           kq_total_awaitables := kq_total_awaitables x - 1\<rparr>
                    else x)
           in x\<lparr>kq_live_nodes := (kq_live_nodes x)(n := None)\<rparr>))"

text \<open>Moving takes the entry of the node away and makes one for the new address.\<close>

definition kq_AwaitableNode_move :: "'k kqueue_posix \<Rightarrow> nat \<Rightarrow> nat \<Rightarrow> ('k, 'f) kqueue_executor \<Rightarrow> ('k, 'f) kqueue_executor" where
  "kq_AwaitableNode_move P n m x =
     (case kq_live_nodes x n of None \<Rightarrow> x
      | Some other \<Rightarrow>
          (let x = x\<lparr>kq_live_nodes := (kq_live_nodes x)(n \<mapsto> other\<lparr>aw_fd := - 1, aw_events := 0\<rparr>, m \<mapsto> other)\<rparr>
           in if 0 \<le> aw_fd other
              then let del = EV_SET (aw_fd other) (aw_events other) EV_DELETE NOTE_DELETE None;
                       add = EV_SET (aw_fd other) (aw_events other) (EV_ADD OR EV_CLEAR) NOTE_WRITE (Some m)
                in x\<lparr>kq_state := c_void (kq_change P (kqueuefd x) add) (c_void (kq_change P (kqueuefd x) del) (kq_state x))\<rparr>
              else x))"

subsection \<open>Registering\<close>

definition kq_trigger :: "trigger \<Rightarrow> int \<times> u32" where
  "kq_trigger trigger = (case trigger of Readable fd \<Rightarrow> (fd, of_int EVFILT_READ) | Writable fd \<Rightarrow> (fd, of_int EVFILT_WRITE))"

definition kq_registerAwaitableCallback ::
    "'k kqueue_posix \<Rightarrow> nat \<Rightarrow> nat \<Rightarrow> 'f \<Rightarrow> trigger \<Rightarrow> ('k, 'f) kqueue_executor \<Rightarrow> ('k, 'f) kqueue_executor" where
  "kq_registerAwaitableCallback P tmp dst function trigger x =
     (let x = kq_AwaitableNode_make tmp function x;
          (fd, events) = kq_trigger trigger;
          x = kq_AwaitableNode_setup P tmp fd events x;
          x = kq_AwaitableNode_move P tmp dst x
      in kq_AwaitableNode_destroy P tmp x)"

subsection \<open>Polling\<close>

text \<open>
  The whole timeout, in nanoseconds, goes into \<open>tv_nsec\<close>, and \<open>tv_sec\<close> stays 0. Durations are in
  microseconds; a duration beyond 290 years, whose conversion overflows, is not considered.
\<close>

definition timeout_spec :: "int option \<Rightarrow> int option" where
  "timeout_spec timeout = map_option (\<lambda>us. max 0 (min (us * 1000) TV_NSEC_MAX)) timeout"

definition kq_schedule_events :: "int \<Rightarrow> nat option list \<Rightarrow> ('k, 'f) kqueue_executor \<Rightarrow> ('k, 'f) kqueue_executor" where
  "kq_schedule_events now_time evs x =
     fold (\<lambda>udata x. case udata of None \<Rightarrow> x | Some n \<Rightarrow> x\<lparr>kq_scheduled := kq_scheduled x @ [(n, now_time)]\<rparr>) evs x"

definition kq_pollAwaitableResourcesFor ::
    "'k kqueue_posix \<Rightarrow> int option \<Rightarrow> ('k, 'f) kqueue_executor \<Rightarrow> poll_failure option \<times> ('k, 'f) kqueue_executor" where
  "kq_pollAwaitableResourcesFor P timeout x =
     (if kq_total_awaitables x = 0 then
        (case timeout of None \<Rightarrow> (Some PollArgumentError, x)
         | Some t \<Rightarrow> (None, x\<lparr>kq_state := (errno_of (kq_state x), kq_sleep_for P t (kernel_of (kq_state x)))\<rparr>))
      else
        (let (kqueue_result, s) = c_call (kq_wait P (kqueuefd x) MaxEvents (timeout_spec timeout)) (kq_state x);
             x = x\<lparr>kq_state := s\<rparr>
         in case kqueue_result of
              None \<Rightarrow> (Some (PollPlatformError (errno_of s)), x)
            | Some evs \<Rightarrow> (None, kq_schedule_events (kq_now P (kernel_of s)) evs x)))"

definition KqueueSingleThreadedExecutor_destroy :: "'k kqueue_posix \<Rightarrow> ('k, 'f) kqueue_executor \<Rightarrow> ('k, 'f) kqueue_executor" where
  "KqueueSingleThreadedExecutor_destroy P x =
     (if 0 \<le> kqueuefd x then x\<lparr>kq_state := c_void (kq_close P (kqueuefd x)) (kq_state x)\<rparr> else x)"

subsection \<open>What is assumed of the kernel\<close>

text \<open>
  \<open>queue k\<close> is what the queue watches: per descriptor and filter, the node; nothing when it is made. A change with \<open>EV_ADD\<close>
  sets its entry or fails and changes nothing, one with \<open>EV_DELETE\<close> removes it (there is none when
  it fails). Waiting reports at most as many events as asked for, only of entries, and fails with
  \<open>EINVAL\<close> if the nanoseconds of its timeout are not below a second.
\<close>

definition ev_key :: "kevent \<Rightarrow> int \<times> i16" where
  "ev_key ev = (ev_ident ev, ev_filter ev)"

definition kqueue_laws :: "'k kqueue_posix \<Rightarrow> ('k \<Rightarrow> int \<times> i16 \<Rightarrow> nat option) \<Rightarrow> bool" where
  "kqueue_laws P queue \<longleftrightarrow>
     (\<forall>k. queue (snd (kqueue_create P k)) = Map.empty) \<and>
     (\<forall>q ev k. bit (ev_flags ev) 0 \<longrightarrow> queue (snd (kq_change P q ev k)) =
        (if fst (kq_change P q ev k) = Ret () then (queue k)(ev_key ev := ev_udata ev) else queue k)) \<and>
     (\<forall>q ev k. ev_flags ev = EV_DELETE \<longrightarrow> queue (snd (kq_change P q ev k)) = (queue k)(ev_key ev := None)) \<and>
     (\<forall>q m t k. queue (snd (kq_wait P q m t k)) = queue k) \<and>
     (\<forall>t k. queue (kq_sleep_for P t k) = queue k) \<and>
     (\<forall>q m t k evs k'. kq_wait P q m t k = (Ret evs, k') \<longrightarrow>
        length evs \<le> m \<and> (\<forall>n. Some n \<in> set evs \<longrightarrow> (\<exists>key. queue k key = Some n))) \<and>
     (\<forall>q m ns k. 1000000000 \<le> ns \<longrightarrow> kq_wait P q m (Some ns) k = (Err EINVAL, k))"

end
