(* ===== verification/Kqueue_Safe.thy ===== *)
theory Kqueue_Safe
  imports Kqueue_Executor Epoll_Safe
begin

text \<open>
  The kqueue executor keeps the same contract as the epoll one, with a descriptor and a filter as
  the key of a registration; but what it hands to the kernel as a timeout is refused as soon as
  it is a second or more, and \<open>EVFILT_VNODE\<close> in the filter has no effect.
\<close>

subsection \<open>Filters\<close>

text \<open>All bits of \<open>EVFILT_VNODE\<close> are set in the filters it is combined with.\<close>

lemma vnode_no_effect:
  "kq_trigger trigger = (fd, events) \<Longrightarrow> events OR of_int EVFILT_VNODE = events \<and> events \<noteq> 0 \<and>
     (ucast events :: i16) = (case trigger of Readable _ \<Rightarrow> of_int EVFILT_READ | Writable _ \<Rightarrow> of_int EVFILT_WRITE)"
proof -
  have "(ucast (- 1 :: u32) :: i16) = - 1" "(ucast (- 2 :: u32) :: i16) = - 2" by code_simp+
  moreover assume "kq_trigger trigger = (fd, events)"
  ultimately show ?thesis by (cases trigger) (auto simp: kq_trigger_def)
qed

subsection \<open>The kernel\<close>

definition unit_entries :: "('a \<rightharpoonup> nat) \<Rightarrow> 'a \<rightharpoonup> nat \<times> unit" where
  "unit_entries q = (\<lambda>key. map_option (\<lambda>n. (n, ())) (q key))"

lemma unit_entries_simps [simp]:
  "unit_entries (q(key := None)) = (unit_entries q)(key := None)"
  "unit_entries (q(key \<mapsto> n)) = (unit_entries q)(key \<mapsto> (n, ()))"
  "unit_entries q key = Some (n, u) \<longleftrightarrow> q key = Some n"
  "unit_entries Map.empty = Map.empty"
  by (auto simp: unit_entries_def fun_eq_iff)

lemma unit_entries_mono: "q \<subseteq>\<^sub>m q' \<Longrightarrow> unit_entries q \<subseteq>\<^sub>m unit_entries q'"
  by (auto simp: unit_entries_def map_le_def dom_def)

abbreviation kq_key :: "'f awaitable_node \<Rightarrow> int \<times> i16" where
  "kq_key node \<equiv> (aw_fd node, ucast (aw_events node))"

lemma kqueue_lawsD:
  assumes "kqueue_laws P queue"
  shows "queue (kernel_of (c_void (kq_change P q (EV_SET fd events (EV_ADD OR EV_CLEAR) ff (Some n))) s)) = queue (kernel_of s) \<or>
         queue (kernel_of (c_void (kq_change P q (EV_SET fd events (EV_ADD OR EV_CLEAR) ff (Some n))) s)) =
           (queue (kernel_of s))((fd, ucast events) \<mapsto> n)"
    and "queue (kernel_of (c_void (kq_change P q (EV_SET fd events EV_DELETE ff u)) s)) =
           (queue (kernel_of s))((fd, ucast events) := None)"
    and "queue (kq_sleep_for P t k) = queue k"
    and "c_call (kq_wait P q m ts) s = (r, s') \<Longrightarrow> queue (kernel_of s') = queue (kernel_of s)"
    and "c_call (kq_wait P q m ts) s = (Some evs, s') \<Longrightarrow> length evs \<le> m"
    and "c_call (kq_wait P q m ts) s = (Some evs, s') \<Longrightarrow> Some n \<in> set evs \<Longrightarrow> \<exists>key. queue (kernel_of s) key = Some n"
    and "1000000000 \<le> ns \<Longrightarrow> kq_wait P q m (Some ns) k = (Err EINVAL, k)"
proof -
  have flag: "bit (EV_ADD OR EV_CLEAR) 0" by (simp add: bit_simps)
  show "queue (kernel_of (c_void (kq_change P q (EV_SET fd events (EV_ADD OR EV_CLEAR) ff (Some n))) s)) = queue (kernel_of s) \<or>
         queue (kernel_of (c_void (kq_change P q (EV_SET fd events (EV_ADD OR EV_CLEAR) ff (Some n))) s)) =
           (queue (kernel_of s))((fd, ucast events) \<mapsto> n)"
    using assms flag by (simp add: kqueue_laws_def EV_SET_def ev_key_def)
  show "queue (kernel_of (c_void (kq_change P q (EV_SET fd events EV_DELETE ff u)) s)) =
           (queue (kernel_of s))((fd, ucast events) := None)"
    using assms by (simp add: kqueue_laws_def EV_SET_def ev_key_def)
  show "queue (kq_sleep_for P t k) = queue k" using assms by (simp add: kqueue_laws_def)
  show "c_call (kq_wait P q m ts) s = (r, s') \<Longrightarrow> queue (kernel_of s') = queue (kernel_of s)"
    using assms by (auto simp: kqueue_laws_def dest: c_call_kernel)
  note wait = assms [unfolded kqueue_laws_def, THEN conjunct2, THEN conjunct2, THEN conjunct2, THEN conjunct2, THEN conjunct2,
      THEN conjunct1, rule_format, OF c_call_SomeD]
  show "c_call (kq_wait P q m ts) s = (Some evs, s') \<Longrightarrow> length evs \<le> m"
    by (drule wait) simp
  show "c_call (kq_wait P q m ts) s = (Some evs, s') \<Longrightarrow> Some n \<in> set evs \<Longrightarrow> \<exists>key. queue (kernel_of s) key = Some n"
    by (drule wait) blast
  show "1000000000 \<le> ns \<Longrightarrow> kq_wait P q m (Some ns) k = (Err EINVAL, k)"
    using assms by (simp add: kqueue_laws_def)
qed

subsection \<open>The invariant\<close>

abbreviation kq_queue where "kq_queue queue x \<equiv> queue (kernel_of (kq_state x))"

definition kq_inv :: "('k \<Rightarrow> int \<times> i16 \<Rightarrow> nat option) \<Rightarrow> ('k, 'f) kqueue_executor \<Rightarrow> bool" where
  "kq_inv queue x \<longleftrightarrow>
     registry_inv (unit_entries (kq_queue queue x)) (node_view kq_key (\<lambda>_. ()) (kq_live_nodes x)) (kq_total_awaitables x)"

lemma kq_make_inv:
  "kq_inv queue x \<Longrightarrow> kq_live_nodes x n = None \<Longrightarrow> kq_inv queue (kq_AwaitableNode_make n f x)"
  by (simp add: kq_inv_def kq_AwaitableNode_make_def registry_new node_view_at)

lemma kq_destroy_inv:
  assumes "kqueue_laws P queue" and "kq_inv queue x"
  shows "kq_inv queue (kq_AwaitableNode_destroy P n x)"
proof (cases "kq_live_nodes x n")
  case (Some node)
  let ?nodes = "node_view kq_key (\<lambda>_. ()) (kq_live_nodes x)"
  note inv = assms(2) [unfolded kq_inv_def]
  show ?thesis
  proof (cases "0 \<le> aw_fd node")
    case True
    with Some have "?nodes n = Some (Some (kq_key node, ()))" by (simp add: node_view_at)
    from registry_drop [OF inv this] Some True kqueue_lawsD(2) [OF assms(1)] show ?thesis
      by (simp add: kq_inv_def kq_AwaitableNode_destroy_def Let_def del: c_void_kernel)
  next
    case False
    with Some have "?nodes n = Some None" by (simp add: node_view_at)
    from registry_drop_idle [OF inv disjI2 [OF this]] Some False show ?thesis
      by (simp add: kq_inv_def kq_AwaitableNode_destroy_def)
  qed
qed (use assms in \<open>simp add: kq_AwaitableNode_destroy_def\<close>)

lemma kq_setup_inv:
  assumes "kqueue_laws P queue" and "kq_inv queue x"
    and "kq_live_nodes x n = Some node" and "aw_fd node < 0" and "0 \<le> fd"
  shows "kq_inv queue (kq_AwaitableNode_setup P n fd ev x)"
proof -
  define w :: u32 where "w = ev OR of_int EVFILT_VNODE"
  have idle: "node_view kq_key (\<lambda>_. ()) (kq_live_nodes x) n = Some None" using assms(3,4) by (simp add: node_view_at)
  let ?added = "c_void (kq_change P (kqueuefd x) (EV_SET fd w (EV_ADD OR EV_CLEAR) NOTE_WRITE (Some n))) (kq_state x)"
  have "unit_entries (queue (kernel_of ?added)) = unit_entries (kq_queue queue x) \<or>
        unit_entries (queue (kernel_of ?added)) = (unit_entries (kq_queue queue x))((fd, ucast w) \<mapsto> (n, ()))"
    using kqueue_lawsD(1) [OF assms(1)] by (metis unit_entries_simps(2))
  from registry_add [OF assms(2) [unfolded kq_inv_def] idle this] assms(3,5) show ?thesis
    by (simp add: kq_inv_def kq_AwaitableNode_setup_def Let_def w_def del: c_void_kernel)
qed

lemma kq_move_inv:
  assumes "kqueue_laws P queue" and "kq_inv queue x" and "kq_live_nodes x m = None" and "n \<noteq> m"
  shows "kq_inv queue (kq_AwaitableNode_move P n m x)"
proof (cases "kq_live_nodes x n")
  case (Some other)
  let ?nodes = "node_view kq_key (\<lambda>_. ()) (kq_live_nodes x)"
  note inv = assms(2) [unfolded kq_inv_def]
  have free: "?nodes m = None" using assms(3) by (simp add: node_view_at)
  show ?thesis
  proof (cases "0 \<le> aw_fd other")
    case True
    let ?deleted = "c_void (kq_change P (kqueuefd x) (EV_SET (aw_fd other) (aw_events other) EV_DELETE NOTE_DELETE None)) (kq_state x)"
    let ?added = "c_void (kq_change P (kqueuefd x) (EV_SET (aw_fd other) (aw_events other) (EV_ADD OR EV_CLEAR) NOTE_WRITE (Some m))) ?deleted"
    have del: "queue (kernel_of ?deleted) = (kq_queue queue x)(kq_key other := None)"
      using kqueue_lawsD(2) [OF assms(1)] by blast
    then have "queue (kernel_of ?added) = (kq_queue queue x)(kq_key other := None) \<or>
               queue (kernel_of ?added) = (kq_queue queue x)(kq_key other \<mapsto> m)"
      using kqueue_lawsD(1) [OF assms(1)] by (metis fun_upd_upd)
    then have "unit_entries (queue (kernel_of ?added)) = (unit_entries (kq_queue queue x))(kq_key other := None) \<or>
        unit_entries (queue (kernel_of ?added)) = (unit_entries (kq_queue queue x))(kq_key other \<mapsto> (m, ()))"
      by (metis unit_entries_simps(1,2))
    moreover have "?nodes n = Some (Some (kq_key other, ()))" using Some True by (simp add: node_view_at)
    ultimately show ?thesis using registry_move [OF inv _ free] Some True
      by (simp add: kq_inv_def kq_AwaitableNode_move_def Let_def del: c_void_kernel)
  next
    case False
    with Some have "?nodes n = Some None" by (simp add: node_view_at)
    from registry_move_idle [OF inv this free] Some False show ?thesis
      by (simp add: kq_inv_def kq_AwaitableNode_move_def Let_def)
  qed
qed (use assms in \<open>simp add: kq_AwaitableNode_move_def\<close>)

lemma kq_register_inv:
  assumes "kqueue_laws P queue" and "kq_inv queue x"
    and "kq_live_nodes x tmp = None" and "kq_live_nodes x dst = None" and "tmp \<noteq> dst" and "0 \<le> fst (kq_trigger trigger)"
  shows "kq_inv queue (kq_registerAwaitableCallback P tmp dst f trigger x)"
proof -
  obtain fd ev where t: "kq_trigger trigger = (fd, ev)" by (metis surj_pair)
  define x1 where "x1 = kq_AwaitableNode_make tmp f x"
  have 1: "kq_inv queue x1" unfolding x1_def by (rule kq_make_inv [OF assms(2,3)])
  have n1: "kq_live_nodes x1 tmp = Some \<lparr>aw_fd = - 1, aw_events = 0, aw_function = f\<rparr>" "kq_live_nodes x1 dst = None"
    using assms(4,5) by (simp_all add: x1_def kq_AwaitableNode_make_def)
  define x2 where "x2 = kq_AwaitableNode_setup P tmp fd ev x1"
  have 2: "kq_inv queue x2"
    unfolding x2_def by (rule kq_setup_inv [OF assms(1) 1 n1(1)]) (use assms(6) t in simp_all)
  have n2: "kq_live_nodes x2 dst = None" using n1 assms(5) by (simp add: x2_def kq_AwaitableNode_setup_def Let_def)
  have "kq_inv queue (kq_AwaitableNode_destroy P tmp (kq_AwaitableNode_move P tmp dst x2))"
    by (rule kq_destroy_inv [OF assms(1) kq_move_inv [OF assms(1) 2 n2 assms(5)]])
  then show ?thesis by (simp add: kq_registerAwaitableCallback_def t x1_def x2_def)
qed

subsection \<open>Polling\<close>

lemma kq_schedule_events_state [simp]:
  "kq_live_nodes (kq_schedule_events t evs x) = kq_live_nodes x" "kq_state (kq_schedule_events t evs x) = kq_state x"
  "kq_total_awaitables (kq_schedule_events t evs x) = kq_total_awaitables x"
  unfolding kq_schedule_events_def by (induction evs arbitrary: x) (auto split: option.splits)

lemma kq_schedule_events_log:
  "kq_scheduled (kq_schedule_events t evs x) = kq_scheduled x @ map (\<lambda>n. (n, t)) (List.map_filter id evs)"
  unfolding kq_schedule_events_def by (induction evs arbitrary: x) (auto simp: List.map_filter_simps split: option.splits)

lemma kq_poll_inv:
  assumes "kqueue_laws P queue" and "kq_inv queue x" and "kq_pollAwaitableResourcesFor P timeout x = (r, x')"
  shows "kq_inv queue x'"
proof -
  obtain w s where w: "c_call (kq_wait P (kqueuefd x) MaxEvents (timeout_spec timeout)) (kq_state x) = (w, s)"
    by (metis surj_pair)
  have "kq_live_nodes x' = kq_live_nodes x" and "kq_total_awaitables x' = kq_total_awaitables x"
    and "kq_queue queue x' = kq_queue queue x"
    using assms(3) kqueue_lawsD(4) [OF assms(1) w] kqueue_lawsD(3) [OF assms(1)]
    by (auto simp: kq_pollAwaitableResourcesFor_def w Let_def split: if_splits option.splits)
  with assms(2) show ?thesis by (simp add: kq_inv_def)
qed

lemma kq_poll_log:
  assumes "kqueue_laws P queue" and "kq_inv queue x" and "kq_pollAwaitableResourcesFor P timeout x = (r, x')"
  shows "\<exists>ns. kq_scheduled x' = kq_scheduled x @ map (\<lambda>n. (n, kq_now P (kernel_of (kq_state x')))) ns \<and>
    length ns \<le> MaxEvents \<and> list_all (\<lambda>n. n \<in> awaiting (kq_live_nodes x')) ns"
proof -
  obtain w s where w: "c_call (kq_wait P (kqueuefd x) MaxEvents (timeout_spec timeout)) (kq_state x) = (w, s)"
    by (metis surj_pair)
  show ?thesis
  proof (cases "kq_total_awaitables x \<noteq> 0 \<and> w \<noteq> None")
    case False
    then have "kq_scheduled x' = kq_scheduled x"
      using assms(3) by (auto simp: kq_pollAwaitableResourcesFor_def w Let_def split: if_splits option.splits)
    then show ?thesis by (intro exI [of _ "[]"]) simp
  next
    case True
    then obtain evs where evs: "w = Some evs" by blast
    have x': "x' = kq_schedule_events (kq_now P (kernel_of s)) evs (x\<lparr>kq_state := s\<rparr>)"
      using assms(3) True by (simp add: kq_pollAwaitableResourcesFor_def w evs Let_def)
    have "length (List.map_filter id evs) \<le> MaxEvents"
      using kqueue_lawsD(5) [OF assms(1) w [unfolded evs]] length_map_filter_le [of id evs] by simp
    moreover have "n \<in> awaiting (kq_live_nodes x')" if "n \<in> set (List.map_filter id evs)" for n
    proof -
      from that have "Some n \<in> set evs" by (auto simp: List.map_filter_def)
      from kqueue_lawsD(6) [OF assms(1) w [unfolded evs] this] obtain key
        where "unit_entries (kq_queue queue x) key = Some (n, ())" by auto
      from registry_invD(1) [OF assms(2) [unfolded kq_inv_def] this]
      have "n \<in> waiting (node_view kq_key (\<lambda>_. ()) (kq_live_nodes x))" by (auto simp: waiting_def)
      then show ?thesis by (simp add: x')
    qed
    ultimately show ?thesis
      by (intro exI [of _ "List.map_filter id evs"]) (simp add: x' kq_schedule_events_log list_all_iff)
  qed
qed

subsection \<open>Runs\<close>

definition kq_initial :: "'k kqueue_posix \<Rightarrow> ('k, 'f) kqueue_executor \<Rightarrow> bool" where
  "kq_initial P x \<longleftrightarrow> (\<exists>s. x = KqueueSingleThreadedExecutor_make P s)"

lemma kq_executor_make_inv:
  assumes "kqueue_laws P queue"
  shows "kq_inv queue (KqueueSingleThreadedExecutor_make P s)"
proof -
  obtain fd s1 where c: "c_call (kqueue_create P) s = (fd, s1)" by (metis surj_pair)
  have "queue (kernel_of s1) = Map.empty"
    using assms [unfolded kqueue_laws_def, THEN conjunct1] c_call_kernel [OF c] by simp
  then show ?thesis by (simp add: kq_inv_def KqueueSingleThreadedExecutor_make_def c)
qed

inductive kq_step :: "'k kqueue_posix \<Rightarrow> ('k \<Rightarrow> int \<times> i16 \<Rightarrow> nat option) \<Rightarrow>
    ('k, 'f) kqueue_executor \<Rightarrow> ('k, 'f) kqueue_executor \<Rightarrow> bool"
  for P queue x where
  kq_register: "kq_live_nodes x tmp = None \<Longrightarrow> kq_live_nodes x dst = None \<Longrightarrow> tmp \<noteq> dst \<Longrightarrow>
    0 \<le> fst (kq_trigger trigger) \<Longrightarrow> kq_step P queue x (kq_registerAwaitableCallback P tmp dst f trigger x)"
| kq_move: "kq_live_nodes x m = None \<Longrightarrow> n \<noteq> m \<Longrightarrow> kq_step P queue x (kq_AwaitableNode_move P n m x)"
| kq_destroy: "kq_step P queue x (kq_AwaitableNode_destroy P n x)"
| kq_environment: "queue (kernel_of s) \<subseteq>\<^sub>m kq_queue queue x \<Longrightarrow> kq_step P queue x (x\<lparr>kq_state := s\<rparr>)"

inductive_cases kq_stepE: "kq_step P queue x x'"

definition kqueue_run :: "'k kqueue_posix \<Rightarrow> ('k \<Rightarrow> int \<times> i16 \<Rightarrow> nat option) \<Rightarrow> ('k, 'f) kqueue_executor \<Rightarrow> bool" where
  "kqueue_run P queue = executor_run (kq_initial P) (kq_step P queue) (kq_pollAwaitableResourcesFor P)"

lemma kq_step_inv:
  assumes "kqueue_laws P queue" and "kq_inv queue x" and "kq_step P queue x x'"
  shows "kq_inv queue x'"
  by (rule kq_stepE [OF assms(3)])
     (use assms(1,2) registry_shrink [OF assms(2) [unfolded kq_inv_def] unit_entries_mono] in
      \<open>simp_all add: kq_register_inv kq_move_inv kq_destroy_inv kq_inv_def [of queue "x\<lparr>kq_state := _\<rparr>"]\<close>)

interpretation kq: awaiting_executor "kq_initial P" "kq_step P queue" "kq_pollAwaitableResourcesFor P"
    "kqueue_laws P queue" "kq_inv queue" kq_scheduled "\<lambda>x n. n \<in> awaiting (kq_live_nodes x)"
    "\<lambda>x. kq_now P (kernel_of (kq_state x))" MaxEvents for P queue
proof
  show "kq_inv queue x" if "kqueue_laws P queue" and "kq_initial P x" for P queue and x :: "('k, 'f) kqueue_executor"
    using that by (auto simp: kq_initial_def kq_executor_make_inv)
qed (blast intro: kq_step_inv kq_poll_inv kq_poll_log)+

text \<open>
  C12. In every run of the kqueue executor, too, a poll schedules only callbacks that exist and wait
  for a descriptor; but a poll with callbacks whose timeout is a second or more does not wait: it
  fails with \<open>EINVAL\<close> at once and schedules nothing. The run loops, which wait for a second when
  nothing else is due, then spin.
\<close>

theorem kqueue_polls:
  assumes "kqueue_run P queue x" and "kqueue_laws P queue" and "kq_pollAwaitableResourcesFor P timeout x = (r, x')"
  shows "\<exists>new. kq_scheduled x' = kq_scheduled x @ new \<and> length new \<le> MaxEvents \<and>
      (\<forall>(n, t) \<in> set new. t = kq_now P (kernel_of (kq_state x')) \<and> n \<in> awaiting (kq_live_nodes x')) \<and>
    kq_total_awaitables x' = of_nat (card (awaiting (kq_live_nodes x'))) \<and>
    (kq_total_awaitables x \<noteq> 0 \<and> (\<exists>us \<ge> 1000000. timeout = Some us) \<longrightarrow> r = Some (PollPlatformError EINVAL) \<and> new = [])"
proof -
  from kq.run_schedules_awaiting [OF assms(1) [unfolded kqueue_run_def] assms(2,3)] obtain new where
    new: "kq_scheduled x' = kq_scheduled x @ new" "length new \<le> MaxEvents"
      "\<forall>(n, t) \<in> set new. t = kq_now P (kernel_of (kq_state x')) \<and> n \<in> awaiting (kq_live_nodes x')" and inv: "kq_inv queue x'" by blast
  have "kq_total_awaitables x' = of_nat (card (awaiting (kq_live_nodes x')))"
    using inv by (auto simp: kq_inv_def dest!: registry_invD(3))
  moreover have "r = Some (PollPlatformError EINVAL) \<and> new = []"
    if some: "kq_total_awaitables x \<noteq> 0" and us: "us \<ge> 1000000" "timeout = Some us" for us
  proof -
    obtain en k where s: "kq_state x = (en, k)" by (metis surj_pair)
    have "c_call (kq_wait P (kqueuefd x) MaxEvents (timeout_spec timeout)) (kq_state x) = (None, EINVAL, k)"
      unfolding s us(2) using us(1) by (intro c_call_Err) (simp add: timeout_spec_def kqueue_lawsD(7) [OF assms(2)])
    with assms(3) some new(1) show ?thesis by (auto simp: kq_pollAwaitableResourcesFor_def Let_def)
  qed
  ultimately show ?thesis using new by (intro exI [of _ new]) auto
qed

end
