(* ===== verification/Sample_Kqueue.thy ===== *)
theory Sample_Kqueue
  imports Kqueue_Safe
begin

text \<open>A small queue: the list of its entries, every one of which is ready.\<close>

definition sample_kqueue :: "((int \<times> i16) \<times> nat) list kqueue_posix" where
  "sample_kqueue = \<lparr>
     kqueue_create = (\<lambda>k. (Ret 3, [])),
     kq_change = (\<lambda>q ev k. if bit (ev_flags ev) 0
        then (Ret (), case ev_udata ev of None \<Rightarrow> AList.delete (ev_key ev) k | Some n \<Rightarrow> AList.update (ev_key ev) n k)
        else if ev_flags ev = EV_DELETE then (if map_of k (ev_key ev) = None then Err 2 else Ret (), AList.delete (ev_key ev) k)
        else (Err EINVAL, k)),
     kq_wait = (\<lambda>q m t k. if (case t of None \<Rightarrow> False | Some ns \<Rightarrow> 1000000000 \<le> ns) then (Err EINVAL, k)
        else (Ret (take m (map (\<lambda>(key, n). Some n) (filter (\<lambda>(key, n). map_of k key = Some n) k))), k)),
     kq_close = (\<lambda>q k. (Ret (), [])),
     kq_sleep_for = (\<lambda>t k. k), kq_now = (\<lambda>k. 0)\<rparr>"

lemma sample_kqueue_laws: "kqueue_laws sample_kqueue map_of"
proof -
  have wait: "\<exists>a b. map_of k (a, b) = Some n"
    if "Some n \<in> set (take m (map (\<lambda>(key, n). Some n) (filter (\<lambda>(key, n). map_of k key = Some n) k)))"
    for n m and k :: "((int \<times> i16) \<times> nat) list"
    using in_set_takeD [OF that] by auto
  show ?thesis
    unfolding kqueue_laws_def
    by (auto simp: sample_kqueue_def update_conv' bit_simps simp del: fun_upd_apply
        split: option.splits if_splits intro: wait)
qed

definition kq_start :: "(((int \<times> i16) \<times> nat) list, unit) kqueue_executor" where
  "kq_start = KqueueSingleThreadedExecutor_make sample_kqueue (0, [])"

lemma kq_start_eq:
  "kq_start = \<lparr>kqueuefd = 3, kq_total_awaitables = 0, kq_live_nodes = Map.empty, kq_scheduled = [], kq_state = (0, [])\<rparr>"
  by (simp add: kq_start_def KqueueSingleThreadedExecutor_make_def sample_kqueue_def c_call.simps)

definition kq_registered :: "(((int \<times> i16) \<times> nat) list, unit) kqueue_executor" where
  "kq_registered = kq_registerAwaitableCallback sample_kqueue 100 200 () (Readable 5) kq_start"

lemma kq_registered_run: "kqueue_run sample_kqueue map_of kq_registered"
  unfolding kq_registered_def kqueue_run_def
  by (rule exec_change [where x = kq_start], rule exec_start, auto simp: kq_start_def kq_initial_def)
     (rule kq_step.kq_register; simp add: kq_start_eq [unfolded kq_start_def] kq_trigger_def)

lemma kq_registered_total: "kq_total_awaitables kq_registered = 1"
  by (simp add: kq_start_eq kq_registered_def kq_registerAwaitableCallback_def kq_AwaitableNode_make_def kq_trigger_def
      kq_AwaitableNode_setup_def kq_AwaitableNode_move_def kq_AwaitableNode_destroy_def Let_def)

theorem kqueue_polls_witness:
  "fst (kq_pollAwaitableResourcesFor sample_kqueue (Some 1000000) kq_registered) = Some (PollPlatformError EINVAL)"
proof -
  obtain r x' where p: "kq_pollAwaitableResourcesFor sample_kqueue (Some 1000000) kq_registered = (r, x')" by (metis surj_pair)
  from kqueue_polls [OF kq_registered_run sample_kqueue_laws p] p show ?thesis by (auto simp: kq_registered_total)
qed

end
