(* ===== verification/Sync_Wait.thy ===== *)
theory Sync_Wait
  imports Engine_Init Client_Sockets
begin

text \<open>
  Waiting for a result: \<open>waitPollingUntil\<close> of include/ocvsmd/platform/defines.hpp and \<open>sync_wait\<close> of
  include/ocvsmd/sdk/execution.hpp. The executor is an argument, as for the run loop of the daemon:
  \<open>spin\<close> gives the next execution time, \<open>present\<close> the time, \<open>poll\<close> waits; they act on a world of
  which the SDK is a part. A wait that never ends has no result, and the theorems say when that is.
\<close>

subsection \<open>Waiting for a predicate\<close>

partial_function (option) waitPollingUntil ::
    "('x \<Rightarrow> bool) \<Rightarrow> ('x \<Rightarrow> int option \<times> 'x) \<Rightarrow> ('x \<Rightarrow> int) \<Rightarrow> (int \<Rightarrow> 'x \<Rightarrow> 'x) \<Rightarrow> 'x \<Rightarrow> 'x option" where
  "waitPollingUntil predicate spinOnce present poll x =
     (if predicate x then Some x
      else let (next_exec_time, x1) = spinOnce x
        in if predicate x1 then Some x1
           else waitPollingUntil predicate spinOnce present poll (poll (loop_timeout next_exec_time (present x1)) x1))"

text \<open>The worlds at which the predicate is asked: before and after each spin.\<close>

fun moment :: "('x \<Rightarrow> int option \<times> 'x) \<Rightarrow> ('x \<Rightarrow> int) \<Rightarrow> (int \<Rightarrow> 'x \<Rightarrow> 'x) \<Rightarrow> nat \<Rightarrow> 'x \<Rightarrow> 'x" where
  "moment spinOnce present poll 0 x = x"
| "moment spinOnce present poll (Suc 0) x = snd (spinOnce x)"
| "moment spinOnce present poll (Suc (Suc n)) x =
     moment spinOnce present poll n
       (let (next_exec_time, x1) = spinOnce x in poll (loop_timeout next_exec_time (present x1)) x1)"

lemma waitPollingUntil_first:
  assumes "predicate (moment spinOnce present poll n x)"
    and "\<And>m. m < n \<Longrightarrow> \<not> predicate (moment spinOnce present poll m x)"
  shows "waitPollingUntil predicate spinOnce present poll x = Some (moment spinOnce present poll n x)"
  using assms
proof (induction spinOnce present poll n x rule: moment.induct)
  case (1 spinOnce present poll x)
  then show ?case by (simp add: waitPollingUntil.simps)
next
  case (2 spinOnce present poll x)
  obtain t x1 where "spinOnce x = (t, x1)" by (metis surj_pair)
  with 2 show ?case by (subst waitPollingUntil.simps) auto
next
  case (3 spinOnce present poll n x)
  obtain t x1 where s: "spinOnce x = (t, x1)" by (metis surj_pair)
  have "\<not> predicate x" "\<not> predicate x1" using 3(3) [of 0] 3(3) [of 1] s by simp_all
  moreover have "waitPollingUntil predicate spinOnce present poll (poll (loop_timeout t (present x1)) x1) =
      Some (moment spinOnce present poll n (poll (loop_timeout t (present x1)) x1))"
  proof -
    have "\<not> predicate (moment spinOnce present poll m (poll (loop_timeout t (present x1)) x1))" if "m < n" for m
      using 3(3) [of "Suc (Suc m)"] that s by simp
    then show ?thesis using "3.IH" 3(2) s by simp
  qed
  ultimately show ?case by (subst waitPollingUntil.simps) (simp add: s)
qed

lemma waitPollingUntil_fulfilled:
  assumes "waitPollingUntil predicate spinOnce present poll x = Some y"
  shows "\<exists>n. predicate (moment spinOnce present poll n x)"
proof (rule waitPollingUntil.raw_induct
    [where P = "\<lambda>predicate spinOnce present poll x y. \<exists>n. predicate (moment spinOnce present poll n x)"
       and xa = "((((predicate, spinOnce), present), poll), x)", unfolded prod.case, OF _ assms])
  fix f predicate spinOnce present poll x y
  assume IH: "\<And>predicate spinOnce present poll x y. f predicate spinOnce present poll x = Some y \<Longrightarrow>
        \<exists>n. predicate (moment spinOnce present poll n x)"
    and eq: "(if predicate x then Some x
      else let (next_exec_time, x1) = spinOnce x
        in if predicate x1 then Some x1
           else f predicate spinOnce present poll (poll (loop_timeout next_exec_time (present x1)) x1)) = Some y"
  obtain t x1 where s: "spinOnce x = (t, x1)" by (metis surj_pair)
  consider "predicate x" | "predicate x1" | "f predicate spinOnce present poll (poll (loop_timeout t (present x1)) x1) = Some y"
    using eq s by (auto split: if_splits)
  then show "\<exists>n. predicate (moment spinOnce present poll n x)"
  proof cases
    case 1
    then show ?thesis by (intro exI [of _ 0]) simp
  next
    case 2
    then show ?thesis using s by (intro exI [of _ "Suc 0"]) simp
  next
    case 3
    from IH [OF this] obtain n where "predicate (moment spinOnce present poll n (poll (loop_timeout t (present x1)) x1))" by blast
    then show ?thesis using s by (intro exI [of _ "Suc (Suc n)"]) simp
  qed
qed

lemma waitPollingUntil_eq:
  "waitPollingUntil predicate spinOnce present poll x =
     (let reached = \<lambda>n. predicate (moment spinOnce present poll n x)
      in if \<exists>n. reached n then Some (moment spinOnce present poll (LEAST n. reached n) x) else None)"
proof (cases "\<exists>n. predicate (moment spinOnce present poll n x)")
  case True
  let ?n = "LEAST n. predicate (moment spinOnce present poll n x)"
  have "predicate (moment spinOnce present poll ?n x)" using True by (rule LeastI_ex)
  moreover have "\<not> predicate (moment spinOnce present poll m x)" if "m < ?n" for m
    using that by (rule not_less_Least)
  ultimately show ?thesis using True waitPollingUntil_first [of predicate spinOnce present poll ?n x] by (simp add: Let_def)
next
  case False
  then show ?thesis
    using waitPollingUntil_fulfilled [of predicate spinOnce present poll x]
    by (cases "waitPollingUntil predicate spinOnce present poll x") (auto simp: Let_def)
qed

subsection \<open>Waiting for the result of a command\<close>

text \<open>\<open>get\<close> of a state without a result does not happen (\<open>sync_wait_returns\<close>).\<close>

definition sync_wait ::
    "'p sdk_params \<Rightarrow> ('e \<times> 'p sdk \<Rightarrow> int option \<times> 'e \<times> 'p sdk) \<Rightarrow> ('e \<times> 'p sdk \<Rightarrow> int) \<Rightarrow>
     (int \<Rightarrow> 'e \<times> 'p sdk \<Rightarrow> 'e \<times> 'p sdk) \<Rightarrow> nat \<Rightarrow> receiver \<Rightarrow> 'e \<times> 'p sdk \<Rightarrow> (command_result \<times> 'e \<times> 'p sdk) option" where
  "sync_wait X spinOnce present poll sender state x =
     (case waitPollingUntil (\<lambda>(e, w). StateOf_completed state w) spinOnce present poll
             (fst x, ExecCmdClient_submit X sender state (snd x)) of
        None \<Rightarrow> None
      | Some (e, w) \<Rightarrow> map_option (\<lambda>res. (res, e, w)) (StateOf_result state (results (cl_app w))))"

text \<open>
  C10. A synchronous wait for a command returns exactly if the receiver is given a result at some
  point of the executor's work; it returns at the first such point, with that result.
\<close>

theorem sync_wait_returns:
  "sync_wait X spinOnce present poll sender state (e, w) =
     (let at = (\<lambda>n. moment spinOnce present poll n (e, ExecCmdClient_submit X sender state w));
          result = (\<lambda>n. StateOf_result state (results (cl_app (snd (at n)))));
          n = (LEAST n. result n \<noteq> None)
      in if \<exists>n. result n \<noteq> None then Some (the (result n), at n) else None)"
proof -
  let ?x = "(e, ExecCmdClient_submit X sender state w)"
  let ?r = "\<lambda>n. StateOf_result state (results (cl_app (snd (moment spinOnce present poll n ?x))))"
  let ?n = "LEAST n. ?r n \<noteq> None"
  have eq: "waitPollingUntil (\<lambda>(e, w). StateOf_completed state w) spinOnce present poll ?x =
     (if \<exists>n. ?r n \<noteq> None then Some (moment spinOnce present poll ?n ?x) else None)"
    by (simp add: waitPollingUntil_eq StateOf_completed_def Let_def case_prod_beta)
  have "?r ?n \<noteq> None" if "\<exists>n. ?r n \<noteq> None" using that by (rule LeastI_ex)
  then show ?thesis
    by (cases "\<exists>n. ?r n \<noteq> None") (auto simp: sync_wait_def eq Let_def split: prod.split)
qed

subsection \<open>A lost connection\<close>

text \<open>An executor without a callback of the client leaves the SDK alone.\<close>

definition idle_without_callback ::
    "('e \<times> 'k socket_client sdk \<Rightarrow> int option \<times> 'e \<times> 'k socket_client sdk) \<Rightarrow>
     (int \<Rightarrow> 'e \<times> 'k socket_client sdk \<Rightarrow> 'e \<times> 'k socket_client sdk) \<Rightarrow> bool" where
  "idle_without_callback spinOnce poll \<longleftrightarrow>
     (\<forall>e w. sc_callback (client_pipe w) = None \<longrightarrow>
        snd (snd (spinOnce (e, w))) = w \<and> (\<forall>t. snd (poll t (e, w)) = w))"

lemma moment_idle:
  assumes "idle_without_callback spinOnce poll" and "sc_callback (client_pipe (snd x)) = None"
  shows "snd (moment spinOnce present poll n x) = snd x"
  using assms
proof (induction spinOnce present poll n x rule: moment.induct)
  case (3 spinOnce present poll n x)
  obtain t e1 w1 where s: "spinOnce x = (t, e1, w1)" by (metis surj_pair)
  have idle: "snd (snd (spinOnce (e, v))) = v \<and> snd (poll t (e, v)) = v"
    if "sc_callback (client_pipe v) = None" for e v t
    using 3(2) that by (simp add: idle_without_callback_def)
  have w1: "w1 = snd x" using idle [OF 3(3), of "fst x"] s by simp
  have "snd (poll (loop_timeout t (present (e1, w1))) (e1, w1)) = w1"
    using idle [of w1] 3(3) w1 by simp
  with "3.IH" 3(2,3) s w1 show ?case by simp
qed (simp_all add: idle_without_callback_def, metis prod.collapse)

lemma submit_unconnected:
  assumes "\<not> is_connected w"
  shows "client_pipe (ExecCmdClient_submit X i r w) = client_pipe w"
    and "results (cl_app (ExecCmdClient_submit X i r w)) = results (cl_app w)"
  using assms
  by (simp_all add: ExecCmdClient_submit_def cl_gateway_subscribe_def cl_onGatewaySubscription_def split: option.split)

text \<open>
  C20. After a connection was lost before the server answered the handshake, a synchronous wait on a
  command never returns: the command is submitted to a router that will never be connected, and
  neither an error nor a timeout comes to its receiver.
\<close>

theorem sync_wait_hangs:
  assumes "\<not> is_connected w" and "handle_disconnect P (sdk_env X) w = Some w'"
    and "StateOf_result state (results (cl_app w)) = None" and "idle_without_callback spinOnce poll"
  shows "sync_wait X spinOnce present poll sender state (e, w') = None"
proof -
  have w': "results (cl_app w') = results (cl_app w)" "sc_callback (client_pipe w') = None" "\<not> is_connected w'"
    using assms(1,2) by (auto simp: handle_disconnect_def cl_handleDisconnected_def cl_over_pipe_def close_client_def Let_def
        split: prod.split)
  note sub = submit_unconnected [OF w'(3), of X sender state]
  have "snd (moment spinOnce present poll n (e, ExecCmdClient_submit X sender state w')) = ExecCmdClient_submit X sender state w'" for n
    using moment_idle [OF assms(4), of "(e, ExecCmdClient_submit X sender state w')" present n] w'(2) sub(1) by simp
  then show ?thesis by (simp add: sync_wait_returns Let_def sub(2) w'(1) assms(3))
qed

end
