(* ===== verification/Sdk_Daemon.thy ===== *)
theory Sdk_Daemon
  imports Sync_Wait
begin

text \<open>
  The SDK's handle of the daemon, src/sdk/daemon.cpp: from a connection string to a started client
  router over a socket. The node command client is the SDK's application state, empty at first;
  the kernel is where the pipe has it, or the one given as long as there is no pipe.
\<close>

definition sdk_app_empty :: sdk_app where
  "sdk_app_empty = \<lparr>exec_clients = Map.empty, next_exec_client = 0, results = []\<rparr>"

text \<open>The error, and the router if it was made (otherwise just the kernel).\<close>

definition DaemonImpl_start ::
    "inet_pton \<Rightarrow> 'k posix \<Rightarrow> string \<Rightarrow> 'k \<Rightarrow> (int \<times> ('k + 'k socket_client sdk)) option" where
  "DaemonImpl_start pton P connection k =
     (case parse pton connection 0 of
        Inl err \<Rightarrow> Some (err, Inl k)
      | Inr socket_address \<Rightarrow>
          (let ipc_router = ClientRouter_make (SocketClient_make socket_address k) sdk_app_empty
           in case ClientRouter_start P ipc_router of
                None \<Rightarrow> None
              | Some (err, ipc_router) \<Rightarrow> Some (err, Inr ipc_router)))"

text \<open>Destruction: the members of the socket client go, its callback and its descriptor.\<close>

definition SocketClient_destroy :: "'k posix \<Rightarrow> 'k socket_client \<Rightarrow> 'k" where
  "SocketClient_destroy P s = OwnFd_destroy P (st_fd (sc_state s)) (sc_kernel s)"

definition DaemonImpl_destroy :: "'k posix \<Rightarrow> 'k + 'k socket_client sdk \<Rightarrow> 'k" where
  "DaemonImpl_destroy P d = (case d of Inl k \<Rightarrow> k | Inr w \<Rightarrow> SocketClient_destroy P (client_pipe w))"

text \<open>\<open>nullptr\<close>, with the kernel after it, or the daemon.\<close>

definition Daemon_make ::
    "inet_pton \<Rightarrow> 'k posix \<Rightarrow> string \<Rightarrow> 'k \<Rightarrow> ('k + ('k + 'k socket_client sdk)) option" where
  "Daemon_make pton P connection k =
     (case DaemonImpl_start pton P connection k of
        None \<Rightarrow> None
      | Some (err, daemon) \<Rightarrow> Some (if err \<noteq> 0 then Inl (DaemonImpl_destroy P daemon) else Inr daemon))"

subsection \<open>What making a daemon promises\<close>

lemma SocketClient_start_address:
  assumes "SocketClient_start P s = Some (r, s')"
  shows "sc_address s' = sc_address s"
proof -
  have make: "sc_address s1 = sc_address s" if made: "client_makeSocketHandle P s = Some (e, s1)" for e s1
  proof -
    from made obtain r k where 1: "SocketAddress_socket P (sc_address s) SOCK_STREAM (sc_kernel s) = Some (r, k)"
      by (auto simp: client_makeSocketHandle_def bind_eq_Some_conv)
    show ?thesis
    proof (cases r)
      case (Inl e')
      with made 1 show ?thesis by (auto simp: client_makeSocketHandle_def)
    next
      case (Inr fd)
      with made 1 obtain e2 k2 where "SocketAddress_connect P (sc_address s) fd k = Some (e2, k2)"
        by (auto simp: client_makeSocketHandle_def bind_eq_Some_conv)
      with made 1 Inr show ?thesis by (auto simp: client_makeSocketHandle_def Let_def split: if_splits prod.splits)
    qed
  qed
  from assms obtain e s1 where 1: "client_makeSocketHandle P s = Some (e, s1)"
    by (auto simp: SocketClient_start_def bind_eq_Some_conv)
  with assms make [OF 1] show ?thesis by (auto simp: SocketClient_start_def split: if_splits)
qed

lemma SocketClient_start_fails:
  assumes P: "posix_fds P fds" and st: "SocketClient_start P (SocketClient_make a k) = Some (err, s)" and err: "err \<noteq> 0"
  shows "fds (SocketClient_destroy P s) = fds k"
proof -
  let ?s0 = "SocketClient_make a k"
  have 1: "client_makeSocketHandle P ?s0 = Some (err, s)"
    using st err by (auto simp: SocketClient_start_def bind_eq_Some_conv split: if_splits)
  from 1 obtain r k1 where 2: "SocketAddress_socket P a SOCK_STREAM k = Some (r, k1)"
    by (auto simp: client_makeSocketHandle_def SocketClient_make_def bind_eq_Some_conv)
  note opened = socket_no_leak [OF P 2]
  have idle: "fds (OwnFd_destroy P (- 1) k') = fds k'" for k'
    by (simp add: OwnFd_destroy_def OwnFd_reset_def)
  show ?thesis
  proof (cases r)
    case (Inl e)
    with 1 2 have "s = ?s0\<lparr>sc_kernel := k1\<rparr>" by (simp add: client_makeSocketHandle_def SocketClient_make_def)
    with opened Inl idle show ?thesis by (simp add: SocketClient_destroy_def SocketClient_make_def socket_state_default_def)
  next
    case (Inr fd)
    with 1 2 obtain e2 k2 where 3: "SocketAddress_connect P a fd k1 = Some (e2, k2)"
      by (auto simp: client_makeSocketHandle_def SocketClient_make_def bind_eq_Some_conv)
    have f: "fds k2 = insert fd (fds k)" "0 \<le> fd" "fd \<notin> fds k"
      using SocketAddress_connect_keeps [OF P 3] opened Inr by simp_all
    have "s = ?s0\<lparr>sc_kernel := OwnFd_destroy P fd k2\<rparr>"
      using 1 2 3 Inr err
      by (auto simp: client_makeSocketHandle_def SocketClient_make_def OwnFd_assign_def split: if_splits prod.splits)
    moreover have "fds (OwnFd_destroy P fd k2) = fds k"
      using f by (simp add: OwnFd_destroy_def OwnFd_reset_def posix_fdsD(3) [OF P])
    ultimately show ?thesis using idle by (simp add: SocketClient_destroy_def SocketClient_make_def socket_state_default_def)
  qed
qed

text \<open>
  C19. Making the SDK's daemon leaves nothing behind when it fails: no descriptor more is open. When
  it succeeds, the connection string was an address, and the router over a socket to it is in the
  first state of a run, in which one descriptor more is open and one callback waits on it.
\<close>

theorem sdk_daemon_make:
  assumes "posix_fds P fds" and "\<And>family host. pton family host \<noteq> PtonError 0"
    and "Daemon_make pton P connection k = Some d"
  shows "case d of
      Inl k' \<Rightarrow> fds k' = fds k
    | Inr (Inl k') \<Rightarrow> False
    | Inr (Inr w) \<Rightarrow> (\<exists>a w0. parse pton connection 0 = Inr a \<and> sc_address (client_pipe w) = a \<and>
        client_run P env other w0 w \<and> client_pipe w0 = SocketClient_make a k \<and> \<not> is_connected w \<and>
        over_socket fds (fds k) (client_pipe w) (is_connected w))"
proof (cases "parse pton connection 0")
  case (Inl err)
  then have "err \<noteq> 0" using parse_errors [of pton connection 0 err] assms(2) by auto
  with Inl assms(3) show ?thesis by (auto simp: Daemon_make_def DaemonImpl_start_def DaemonImpl_destroy_def)
next
  case (Inr a)
  define w0 :: "'a socket_client sdk" where "w0 = ClientRouter_make (SocketClient_make a k) sdk_app_empty"
  have w0: "client_pipe w0 = SocketClient_make a k" "\<not> is_connected w0" by (simp_all add: w0_def ClientRouter_make_def)
  from assms(3) Inr obtain err w where st: "ClientRouter_start P w0 = Some (err, w)"
    and d: "d = (if err \<noteq> 0 then Inl (SocketClient_destroy P (client_pipe w)) else Inr (Inr w))"
    by (auto simp: Daemon_make_def DaemonImpl_start_def DaemonImpl_destroy_def w0_def split: option.splits)
  from st w0 obtain sp where sp: "SocketClient_start P (SocketClient_make a k) = Some (err, sp)" "w = w0\<lparr>client_pipe := sp\<rparr>"
    by (auto simp: ClientRouter_start_def)
  show ?thesis
  proof (cases "err = 0")
    case True
    have "sc_address sp = a"
      using SocketClient_start_address [OF sp(1)] by (simp add: SocketClient_make_def)
    moreover have "over_socket fds (fds k) sp False"
      using SocketClient_start_inv [OF assms(1) sp(1) [unfolded True]] by (simp add: over_socket_def)
    ultimately show ?thesis using True d st sp(2) w0 Inr
      by (auto intro: crun_start)
  next
    case False
    with d sp(2) SocketClient_start_fails [OF assms(1) sp(1)] show ?thesis by simp
  qed
qed

end
