(* ===== verification/Sample_Sdk.thy ===== *)
theory Sample_Sdk
  imports Sdk_Daemon Sample_Kernel
begin

text \<open>The SDK over the sample kernel: making its daemon, and waiting after the connection is lost.\<close>

theorem sdk_daemon_make_witness:
  "\<exists>w. Daemon_make sample_pton sample_posix ''unix-abstract:ocvsmd'' k_start = Some (Inr (Inr w)) \<and>
     over_socket sample_fds (sample_fds k_start) (client_pipe w) False"
proof -
  obtain a where a: "parse sample_pton ''unix-abstract:ocvsmd'' 0 = Inr a" "\<not> isAnyInet a"
    by (simp add: parse_def tryParseAsUnixDomain_def tryParseAsAbstractUnixDomain_def starts_with_def isAnyInet_def Let_def)
  define w0 :: "sample_kernel socket_client sdk" where "w0 = ClientRouter_make (SocketClient_make a k_start) sdk_app_empty"
  have "\<exists>w. ClientRouter_start sample_posix w0 = Some (0, w)"
    by (simp add: ClientRouter_start_def SocketClient_start_def client_makeSocketHandle_def
        SocketAddress_socket_def SocketAddress_connect_def configureNoDelay_def Let_def bind_eq_Some_conv
        w0_def ClientRouter_make_def SocketClient_make_def socket_state_default_def a(2) SOCK_STREAM_def OwnFd_assign_def)
  then obtain w where "ClientRouter_start sample_posix w0 = Some (0, w)" by blast
  then have made: "Daemon_make sample_pton sample_posix ''unix-abstract:ocvsmd'' k_start = Some (Inr (Inr w))"
    by (simp add: Daemon_make_def DaemonImpl_start_def a(1) w0_def [symmetric])
  have "sample_pton family host \<noteq> PtonError 0" for family host by (simp add: sample_pton_def)
  from sdk_daemon_make [OF sample_posix_fds this made, where env = "sdk_env kernel_sdk" and other = "sdk_call kernel_sdk"] made show ?thesis by auto
qed

theorem sync_wait_hangs_witness:
  "\<exists>w'. handle_disconnect sample_posix (sdk_env kernel_sdk) c_connecting = Some w' \<and>
     sync_wait kernel_sdk (Pair None) (\<lambda>x. 0) (\<lambda>t x. x) 0 7 ((), w') = None"
proof -
  obtain w' where w': "handle_disconnect sample_posix (sdk_env kernel_sdk) c_connecting = Some w'"
    by (simp add: handle_disconnect_def)
  have "StateOf_result 7 (results (cl_app c_connecting)) = None"
    by (simp add: c_connecting_def ClientRouter_start_def SocketClient_start_def client_makeSocketHandle_def
        SocketAddress_socket_def SocketAddress_connect_def configureNoDelay_def Let_def bind_eq_Some_conv
        c_start_def ClientRouter_make_def SocketClient_make_def socket_state_default_def
        sample_address_def isAnyInet_def SOCK_STREAM_def OwnFd_assign_def)
  from sync_wait_hangs [OF c_connecting_pipe(2) w' this, of "Pair None" "\<lambda>t x. x"] w' show ?thesis
    by (auto simp: idle_without_callback_def)
qed

end
