(* ===== verification/Command_Wait.thy ===== *)
theory Command_Wait
  imports Sync_Wait Client_Scenarios
begin

text \<open>
  A command from the call to its return: the daemon's frames, delivered to the SDK by the executor
  during a synchronous wait, make the wait return the responses of the nodes.
\<close>

lemma StateOf_result_snoc:
  "StateOf_result r (xs @ [(r', res)]) = (if r' = r then Some (transform res) else StateOf_result r xs)"
  by (induction xs) (auto split: option.split)

lemma transform_distinct:
  assumes "distinct (map fst m)"
  shows "transform (Success m) = Success m"
proof -
  have "fold (\<lambda>(n, r). emplace n r) m acc = acc @ m" if "distinct (map fst (acc @ m))" for acc
    using that
  proof (induction m arbitrary: acc)
    case (Cons x m)
    obtain n r where x: "x = (n, r)" by fastforce
    have "map_of acc n = None" using Cons.prems by (auto simp: x map_of_eq_None_iff)
    with Cons.IH [of "acc @ [x]"] Cons.prems show ?case by (simp add: x emplace_def)
  qed simp
  from this [of "[]"] assms show ?thesis by simp
qed

text \<open>
  C2. A synchronous wait for a command returns the responses of the nodes: if the executor delivers,
  by the end of some moment of its work, the frames of a session in which every node has answered,
  and the receiver has been given nothing before, then the wait returns at that moment, with success
  and the response of exactly the nodes that answered successfully.
\<close>

theorem sync_wait_gets_responses:
  fixes w :: "('c, 'r, (client_id \<times> bytes list) list, 'cy) daemon"
  assumes "daemon_inv w" and "find_fsm i w = Some f" and "gateways w (fsm_gateway f) = Some gw"
    and "rs \<noteq> []" and "distinct (map fst rs)" and "set (map fst rs) = fst ` set (node_id_to_op f)"
    and "\<And>sq k. serialize (xp_codec X) (RouteChannelMsg (sg_tag gw) sq (ch_service_id (fsm_channel f)) k) =
                Some (ser (RouteChannelMsg (sg_tag gw) sq (ch_service_id (fsm_channel f)) k))"
    and "serialize (xp_codec X) (RouteChannelEnd (sg_tag gw) 0) = Some frame"
    and "\<And>r. length (ser r) < 2 ^ 32" and "dsdl_codec (xp_codec X)" and "delivers X"
    and "sp_codec Y = xp_codec X" and "responses_agree X Y rs"
    and "client_session j c cgw receiver cw" and "cg_tag cgw = sg_tag gw" and "node_id_to_response c = []"
    and "snd (moment spinOnce present poll n (e, ExecCmdClient_submit Y sender receiver w0)) =
         cl_deliver (sdk_env Y) (map (concat \<circ> snd) (drop (length (server_pipe w)) (server_pipe (answers X i rs w)))) cw"
    and "\<And>m. m < n \<Longrightarrow>
         \<not> StateOf_completed receiver (snd (moment spinOnce present poll m (e, ExecCmdClient_submit Y sender receiver w0)))"
  shows "sync_wait Y spinOnce present poll sender receiver (e, w0) =
    Some (Success (successful rs), moment spinOnce present poll n (e, ExecCmdClient_submit Y sender receiver w0))"
proof -
  let ?at = "\<lambda>n. moment spinOnce present poll n (e, ExecCmdClient_submit Y sender receiver w0)"
  have "distinct (map fst (successful rs))"
    using answer_distinct [OF assms(5)] by (simp add: successful_def o_def)
  then have result: "StateOf_result receiver (results (cl_app (snd (?at n)))) = Some (Success (successful rs))"
    by (simp add: assms(17) command_delivered [OF assms(1-16)] StateOf_result_snoc transform_distinct del: transform.simps)
  have "waitPollingUntil (\<lambda>(e, w). StateOf_completed receiver w) spinOnce present poll (e, ExecCmdClient_submit Y sender receiver w0) =
      Some (?at n)"
    using result assms(18) by (intro waitPollingUntil_first) (simp_all add: StateOf_completed_def case_prod_beta)
  with result show ?thesis by (cases "?at n") (simp add: sync_wait_def)
qed

text \<open>The session of Client_Scenarios, and an executor whose first spin delivers its frames.\<close>

theorem sync_wait_gets_responses_witness:
  "\<exists>x. sync_wait sample_sdk_params
      (\<lambda>x. (None, (), cl_deliver (sdk_env sample_sdk_params)
        (map (concat \<circ> snd) (drop (length (server_pipe w_open)) (server_pipe
          (answers sample_params 0 [(20, Inl ResponsePromiseExpired), (21, Inr (0, [8]))] w_open)))) sdk_waiting))
      (\<lambda>x. 0) (\<lambda>t x. x) 0 3 ((), sdk_waiting) = Some (Success [(21, \<lparr>nr_status = 0, nr_output = [8]\<rparr>)], x)"
proof -
  let ?rs = "[(20, Inl ResponsePromiseExpired), (21, Inr (0, [8]))] :: (u16 \<times> (cy_error + u8 \<times> bytes)) list"
  let ?spin = "\<lambda>x :: unit \<times> bytes list list sdk. (None :: int option, (), cl_deliver (sdk_env sample_sdk_params)
        (map (concat \<circ> snd) (drop (length (server_pipe w_open)) (server_pipe (answers sample_params 0 ?rs w_open)))) sdk_waiting)"
  have agree: "responses_agree sample_params sample_sdk_params ?rs"
    by (simp add: responses_agree_def answer_responses_def sample_ser_response_def sample_sdk_params_def sample_des_response_def)
  have session: "client_session 0 waiting_client client_gw 3 sdk_waiting"
    by (simp add: client_session_def sdk_waiting_def find_client_def waiting_client_def)
  have ser: "serialize (xp_codec sample_params) (RouteChannelMsg t q s n) = Some (total_ser (RouteChannelMsg t q s n))" for t q s n
    by (simp add: total_ser_def)
  have first: "\<not> StateOf_completed 3 (snd (moment ?spin (\<lambda>x. 0) (\<lambda>t x. x) m ((), ExecCmdClient_submit sample_sdk_params 0 3 sdk_waiting)))"
    if "m < Suc 0" for m
    using that
    by (simp add: StateOf_completed_def ExecCmdClient_submit_def sdk_waiting_def one_gateway_def find_client_def sdk_update_def
        cl_gateway_subscribe_def cl_onGatewaySubscription_def cl_findAndActOnRegisteredGateway_def cl_find_def cl_update_gateway_def
        cl_with_locked_def cl_share_def cl_alive_def cl_release_def cl_onGatewayDisposal_def cl_gateway_event_def client_gw_def
        sdk_handler_def ExecCmdClient_handleEvent_def channel_send_def tryPerformOnSerialized_def cl_gateway_send_def
        cl_isRegisteredGateway_def cl_send_route_def cl_send_to_pipe_def sample_sdk_params_def waiting_client_def Let_def)
  have "sync_wait sample_sdk_params ?spin (\<lambda>x. 0) (\<lambda>t x. x) 0 3 ((), sdk_waiting) = Some (Success (successful ?rs),
      moment ?spin (\<lambda>x. 0) (\<lambda>t x. x) (Suc 0) ((), ExecCmdClient_submit sample_sdk_params 0 3 sdk_waiting))"
    by (rule sync_wait_gets_responses [OF inv_open _ _ _ _ _ ser _ total_ser_short _ _ _ agree session _ _ _ first,
          where f = open_fsm and gw = open_gateway and frame = "[3, 5, 0, 0, 0, 0, 0, 0, 0, 0, 0, 0, 0]"])
       (auto simp: open_gateway_def sample_frames sample_dsdl_codec delivers_def sample_sdk_params_def waiting_client_def
          simp del: sample_serialize.simps)
  moreover have "successful ?rs = [(21, \<lparr>nr_status = 0, nr_output = [8]\<rparr>)]"
    by (simp add: successful_def answer_responses_def response_of_def)
  ultimately show ?thesis by auto
qed

end
