(* ===== verification/Daemon_Main.thy ===== *)
theory Daemon_Main
  imports C_Calls
begin

text \<open>
  How the daemon process starts, src/daemon/main.cpp: the steps of \<open>daemonize\<close>, the configuration
  file, \<open>main\<close>, and the pipe on which the process that was started by the user learns how the
  daemon in the background fared. The kernel is an argument. What a process writes with
  \<open>writeString\<close> is a log of texts with their descriptors. A step ends the process with an exit
  code or lets it go on. Loading the configuration, the logging and the engine are arguments: each
  succeeds or gives the text of its failure.
\<close>

abbreviation EXIT_SUCCESS :: int where "EXIT_SUCCESS \<equiv> 0"
abbreviation EXIT_FAILURE :: int where "EXIT_FAILURE \<equiv> 1"
abbreviation SIGINT :: int where "SIGINT \<equiv> 2"
abbreviation SIGTERM :: int where "SIGTERM \<equiv> 15"

record 'k os =
  os_getrlimit :: "('k, nat) syscall"
  os_close :: "int \<Rightarrow> ('k, unit) syscall"
  os_pipe :: "('k, int \<times> int) syscall"
  os_fork :: "('k, int) syscall"
  os_setsid :: "('k, unit) syscall"
  os_open_null :: "('k, int) syscall"
  os_dup2 :: "int \<Rightarrow> int \<Rightarrow> ('k, unit) syscall"
  os_umask :: "('k, unit) syscall"
  os_chdir :: "('k, unit) syscall"
  os_open_pid :: "('k, int) syscall"
  os_lockf :: "int \<Rightarrow> ('k, unit) syscall"
  os_ftruncate :: "int \<Rightarrow> ('k, unit) syscall"
  os_pid_text :: "'k \<Rightarrow> string"
  os_write :: "int \<Rightarrow> string \<Rightarrow> ('k, nat) syscall"
  os_read :: "int \<Rightarrow> nat \<Rightarrow> ('k, string) syscall"
  os_strerror :: "int \<Rightarrow> string"

record 'k proc =
  written :: "(int \<times> string) list"
  g_running :: int
  handles_signals :: bool
  proc_state :: "'k c_state"

type_synonym 'k proc_step = "'k proc \<Rightarrow> int option \<times> 'k proc"

text \<open>An exit code ends the process.\<close>

definition and_then :: "'k proc_step \<Rightarrow> 'k proc_step \<Rightarrow> 'k proc_step" where
  "and_then f g p = (case f p of (Some code, p) \<Rightarrow> (Some code, p) | (None, p) \<Rightarrow> g p)"

definition proc_call :: "('k, 'a) syscall \<Rightarrow> 'k proc \<Rightarrow> 'a option \<times> 'k proc" where
  "proc_call call p = (let (r, s) = c_call call (proc_state p) in (r, p\<lparr>proc_state := s\<rparr>))"

definition proc_void :: "('k, 'a) syscall \<Rightarrow> 'k proc \<Rightarrow> 'k proc" where
  "proc_void call p = snd (proc_call call p)"

definition writeString :: "int \<Rightarrow> string \<Rightarrow> 'k proc \<Rightarrow> 'k proc" where
  "writeString fd str p = p\<lparr>written := written p @ [(fd, str)]\<rparr>"

definition exitWithFailure :: "'k os \<Rightarrow> int \<Rightarrow> string \<Rightarrow> 'k proc_step" where
  "exitWithFailure P fd msg p =
     (let err_txt = os_strerror P (errno_of (proc_state p))
      in (Some EXIT_FAILURE, writeString fd err_txt (writeString fd msg p)))"

subsection \<open>Signals\<close>

definition signalHandler :: "int \<Rightarrow> 'k proc \<Rightarrow> 'k proc" where
  "signalHandler sig p = (if sig = SIGTERM \<or> sig = SIGINT then p\<lparr>g_running := 0\<rparr> else p)"

definition setupSignalHandlers :: "'k proc \<Rightarrow> 'k proc" where
  "setupSignalHandlers p = p\<lparr>handles_signals := True\<rparr>"

subsection \<open>The steps of daemonize\<close>

text \<open>
  Step 1 writes its failures to the standard error, descriptor 2. Counting an \<open>int\<close> up to a limit
  that is not below the largest \<open>int\<close> does not end properly: the outer option.
\<close>

definition step_01_close_all_file_descriptors ::
    "'k os \<Rightarrow> 'k proc \<Rightarrow> (int option \<times> (int \<times> int) \<times> 'k proc) option" where
  "step_01_close_all_file_descriptors P p =
     (let (rlim, p) = proc_call (os_getrlimit P) p
      in case rlim of
           None \<Rightarrow> Some (Some EXIT_FAILURE, (- 1, - 1),
                     writeString 2 (''Failed to getrlimit(RLIMIT_NOFILE): '' @ os_strerror P (errno_of (proc_state p))) p)
         | Some rlim_cur \<Rightarrow>
             (if 2147483647 \<le> rlim_cur then None
              else
                (let p = fold (\<lambda>fd. proc_void (os_close P (int fd))) [3..<rlim_cur + 1] p;
                     (pipe_fds, p) = proc_call (os_pipe P) p
                 in case pipe_fds of
                      None \<Rightarrow> Some (Some EXIT_FAILURE, (- 1, - 1),
                                writeString 2 (''Failed to create pipe: '' @ os_strerror P (errno_of (proc_state p))) p)
                    | Some fds \<Rightarrow> Some (None, fds, p))))"

definition step_02_03_setup_signal_handlers :: "'k proc \<Rightarrow> 'k proc" where
  "step_02_03_setup_signal_handlers = setupSignalHandlers"

text \<open>Whether this is the child, and the pipe with the other end closed.\<close>

definition step_05_fork_to_background ::
    "'k os \<Rightarrow> int \<times> int \<Rightarrow> 'k proc \<Rightarrow> (int + bool) \<times> (int \<times> int) \<times> 'k proc" where
  "step_05_fork_to_background P pipe_fds p =
     (let (pid, p) = proc_call (os_fork P) p
      in case pid of
           None \<Rightarrow> (Inl EXIT_FAILURE, pipe_fds,
                    writeString 2 (''Failed to fork: '' @ os_strerror P (errno_of (proc_state p))) p)
         | Some parent_pid \<Rightarrow>
             (if parent_pid = 0 then (Inr True, (- 1, snd pipe_fds), proc_void (os_close P (fst pipe_fds)) p)
              else (Inr False, (fst pipe_fds, - 1), proc_void (os_close P (snd pipe_fds)) p)))"

text \<open>A call whose failure is reported on the pipe.\<close>

definition checked :: "'k os \<Rightarrow> int \<Rightarrow> string \<Rightarrow> ('k, 'a) syscall \<Rightarrow> ('a \<Rightarrow> 'k proc_step) \<Rightarrow> 'k proc_step" where
  "checked P pipe_write_fd msg call cont p =
     (let (r, p) = proc_call call p in case r of None \<Rightarrow> exitWithFailure P pipe_write_fd msg p | Some a \<Rightarrow> cont a p)"

definition step_06_create_new_session :: "'k os \<Rightarrow> int \<Rightarrow> 'k proc_step" where
  "step_06_create_new_session P fd = checked P fd ''Failed to setsid: '' (os_setsid P) (\<lambda>_ p. (None, p))"

definition step_07_08_fork_and_exit_again :: "'k os \<Rightarrow> int \<Rightarrow> 'k proc_step" where
  "step_07_08_fork_and_exit_again P fd = checked P fd ''Failed to fork: '' (os_fork P)
     (\<lambda>pid p. if 0 < pid then (Some EXIT_SUCCESS, proc_void (os_close P fd) p) else (None, p))"

definition step_09_redirect_stdio_to_devnull :: "'k os \<Rightarrow> int \<Rightarrow> 'k proc_step" where
  "step_09_redirect_stdio_to_devnull P pipe_write_fd =
     checked P pipe_write_fd ''Failed to open(/dev/null): '' (os_open_null P)
       (\<lambda>fd p. let p = proc_void (os_dup2 P fd 2) (proc_void (os_dup2 P fd 1) (proc_void (os_dup2 P fd 0) p))
               in (None, if 2 < fd then proc_void (os_close P fd) p else p))"

definition step_10_reset_umask :: "'k os \<Rightarrow> 'k proc_step" where
  "step_10_reset_umask P p = (None, proc_void (os_umask P) p)"

definition step_11_change_curr_dir :: "'k os \<Rightarrow> int \<Rightarrow> 'k proc_step" where
  "step_11_change_curr_dir P fd = checked P fd ''Failed to chdir(/): '' (os_chdir P) (\<lambda>_ p. (None, p))"

definition step_12_create_pid_file :: "'k os \<Rightarrow> int \<Rightarrow> 'k proc_step" where
  "step_12_create_pid_file P pipe_write_fd =
     checked P pipe_write_fd ''Failed to create on PID file: '' (os_open_pid P) (\<lambda>fd.
     checked P pipe_write_fd ''Failed to lock PID file: '' (os_lockf P fd) (\<lambda>_.
     checked P pipe_write_fd ''Failed to ftruncate PID file: '' (os_ftruncate P fd) (\<lambda>_ p.
       let buf = os_pid_text P (kernel_of (proc_state p));
           (n, p) = proc_call (os_write P fd buf) p
       in if n \<noteq> Some (length buf) then exitWithFailure P pipe_write_fd ''Failed to write to PID file: '' p
          else (None, p))))"

definition s_init_complete :: string where "s_init_complete = ''init_complete''"

definition step_14_notify_init_complete :: "'k os \<Rightarrow> int \<Rightarrow> 'k proc \<Rightarrow> 'k proc" where
  "step_14_notify_init_complete P pipe_write_fd p =
     proc_void (os_close P pipe_write_fd) (writeString pipe_write_fd s_init_complete p)"

text \<open>The original process: one read of up to 1023 characters, compared as C strings.\<close>

definition step_15_exit_org_process :: "'k os \<Rightarrow> int \<Rightarrow> 'k proc \<Rightarrow> int \<times> 'k proc" where
  "step_15_exit_org_process P pipe_read_fd p =
     (let (res, p) = proc_call (os_read P pipe_read_fd 1023) p
      in case res of
           None \<Rightarrow> (EXIT_FAILURE, writeString 2 (''Failed to read pipe: '' @ os_strerror P (errno_of (proc_state p))) p)
         | Some msg_from_child \<Rightarrow>
             (if c_str msg_from_child \<noteq> s_init_complete
              then (EXIT_FAILURE, writeString 2 (''Child init failed: '' @ c_str msg_from_child) p)
              else (EXIT_SUCCESS, proc_void (os_close P pipe_read_fd) p)))"

text \<open>The steps of the child.\<close>

definition daemonize_child :: "'k os \<Rightarrow> int \<Rightarrow> 'k proc_step" where
  "daemonize_child P fd =
     and_then (step_06_create_new_session P fd)
     (and_then (step_07_08_fork_and_exit_again P fd)
     (and_then (step_09_redirect_stdio_to_devnull P fd)
     (and_then (step_10_reset_umask P)
     (and_then (step_11_change_curr_dir P fd)
               (step_12_create_pid_file P fd)))))"

text \<open>The process ends with a code, or it is the daemon, with the descriptor to report on.\<close>

definition daemonize :: "'k os \<Rightarrow> 'k proc \<Rightarrow> ((int + int) \<times> 'k proc) option" where
  "daemonize P p =
     (case step_01_close_all_file_descriptors P p of
        None \<Rightarrow> None
      | Some (Some code, _, p) \<Rightarrow> Some (Inl code, p)
      | Some (None, pipe_fds, p) \<Rightarrow>
          (case step_05_fork_to_background P pipe_fds (step_02_03_setup_signal_handlers p) of
             (Inl code, _, p) \<Rightarrow> Some (Inl code, p)
           | (Inr True, pipe_fds, p) \<Rightarrow>
               (case daemonize_child P (snd pipe_fds) p of
                  (Some code, p) \<Rightarrow> Some (Inl code, p)
                | (None, p) \<Rightarrow> Some (Inr (snd pipe_fds), p))
           | (Inr False, pipe_fds, p) \<Rightarrow>
               (let (code, p) = step_15_exit_org_process P (fst pipe_fds) p in Some (Inl code, p))))"

subsection \<open>Configuration and main\<close>

text \<open>The last \<open>CONFIG_FILE=\<close> argument names the file; the first argument is the program.\<close>

definition config_file_path :: "bool \<Rightarrow> string list \<Rightarrow> string" where
  "config_file_path is_daemonized argv =
     fold (\<lambda>arg_str path. if starts_with ''CONFIG_FILE='' arg_str then drop (length ''CONFIG_FILE='') arg_str else path)
       (tl argv) ((if is_daemonized then ''/etc/ocvsmd/'' else ''./'') @ ''ocvsmd.toml'')"

text \<open>
  A failure of loading has a text, if it was a standard exception. On success the configuration.
\<close>

definition loadConfig :: "(string \<Rightarrow> string option + 'c) \<Rightarrow> int \<Rightarrow> bool \<Rightarrow> string list \<Rightarrow> 'k proc \<Rightarrow> (int + 'c) \<times> 'k proc" where
  "loadConfig Config_make err_fd is_daemonized argv p =
     (let cfg_file_path = config_file_path is_daemonized argv
      in case Config_make cfg_file_path of
           Inr c \<Rightarrow> (Inr c, p)
         | Inl (Some what) \<Rightarrow>
             (Inl EXIT_FAILURE, writeString err_fd (''Failed to load configuration file (path='' @ [CHR 0x27] @ cfg_file_path @
                [CHR 0x27] @ '').'' @ [CHR 0x0A] @ what) p)
         | Inl None \<Rightarrow> (Inl EXIT_FAILURE, writeString err_fd ''Failed to load configuration file.'' p))"

definition setupLogging :: "('c \<Rightarrow> string option) \<Rightarrow> int \<Rightarrow> 'c \<Rightarrow> 'k proc_step" where
  "setupLogging logging err_fd c p =
     (case logging c of
        None \<Rightarrow> (None, p)
      | Some what \<Rightarrow> (Some EXIT_FAILURE, writeString err_fd what (writeString err_fd ''Failed to setup logging: '' p)))"

text \<open>What initialising the engine can come to; an exception ends \<open>main\<close> without a word on the pipe.\<close>

datatype init_outcome = InitDone | InitFailed string | InitThrows

definition should_daemonize :: "string list \<Rightarrow> bool" where
  "should_daemonize argv \<longleftrightarrow> ''--dev'' \<notin> set (tl argv)"

text \<open>\<open>main\<close> from the point where it has a descriptor to report on, up to its run loop.\<close>

definition main_init ::
    "'k os \<Rightarrow> (string \<Rightarrow> string option + 'c) \<Rightarrow> ('c \<Rightarrow> string option) \<Rightarrow> ('c \<Rightarrow> init_outcome) \<Rightarrow> string list \<Rightarrow> int \<Rightarrow> 'k proc_step" where
  "main_init P Config_make logging engine_init argv pipe_write_fd p =
     (case loadConfig Config_make pipe_write_fd (should_daemonize argv) argv p of
        (Inl code, p) \<Rightarrow> (Some code, p)
      | (Inr config, p) \<Rightarrow>
          and_then (setupLogging logging pipe_write_fd config)
            (\<lambda>p. case engine_init config of
                InitThrows \<Rightarrow> (Some EXIT_FAILURE, p)
              | InitFailed failure_str \<Rightarrow>
                  (Some EXIT_FAILURE, writeString pipe_write_fd failure_str (writeString pipe_write_fd ''Failed to init engine: '' p))
              | InitDone \<Rightarrow> (None, if should_daemonize argv then step_14_notify_init_complete P pipe_write_fd p else p))
            p)"

definition main ::
    "'k os \<Rightarrow> (string \<Rightarrow> string option + 'c) \<Rightarrow> ('c \<Rightarrow> string option) \<Rightarrow> ('c \<Rightarrow> init_outcome) \<Rightarrow> string list \<Rightarrow> 'k proc \<Rightarrow>
     (int option \<times> 'k proc) option" where
  "main P Config_make logging engine_init argv p =
     (if should_daemonize argv then
        (case daemonize P p of
           None \<Rightarrow> None
         | Some (Inl code, p) \<Rightarrow> Some (Some code, p)
         | Some (Inr pipe_write_fd, p) \<Rightarrow> Some (main_init P Config_make logging engine_init argv pipe_write_fd p))
      else Some (main_init P Config_make logging engine_init argv 2 (setupSignalHandlers p)))"

end
