(* ===== verification/Daemon_Main_Safe.thy ===== *)
theory Daemon_Main_Safe
  imports Daemon_Main
begin

text \<open>
  The start of the daemon is reported truthfully: the process the user started ends with success
  exactly if the daemon in the background came up.
\<close>

subsection \<open>What a step reports\<close>

text \<open>
  A step that lets the process go on reports nothing; one that ends it with a failure reports
  nothing or, first, a text that says so; and one that ends it with success reports nothing.
\<close>

definition reported :: "int \<Rightarrow> 'k proc \<Rightarrow> int option \<Rightarrow> 'k proc \<Rightarrow> bool" where
  "reported fd p c p' \<longleftrightarrow>
     (case c of None \<Rightarrow> written p' = written p
      | Some code \<Rightarrow>
          (code = EXIT_SUCCESS \<and> written p' = written p) \<or>
          (code = EXIT_FAILURE \<and> (\<exists>ts. written p' = written p @ map (Pair fd) ts \<and> (ts = [] \<or> starts_with ''Failed'' (hd ts)))))"

definition reports :: "int \<Rightarrow> 'k proc_step \<Rightarrow> bool" where
  "reports fd f \<longleftrightarrow> (\<forall>p c p'. f p = (c, p') \<longrightarrow> reported fd p c p')"

lemma reportsI: "(\<And>p c p'. f p = (c, p') \<Longrightarrow> reported fd p c p') \<Longrightarrow> reports fd f"
  by (simp add: reports_def)

lemma reports_at:
  assumes "reports fd f" and "f p1 = (c, p')" and "written p1 = written p"
  shows "reported fd p c p'"
  using assms(1) [unfolded reports_def reported_def, rule_format, OF assms(2)] unfolding reported_def assms(3) .

lemma reportedD:
  assumes "reported fd p c p'"
  shows "c = None \<Longrightarrow> written p' = written p"
    and "c = Some code \<Longrightarrow> (code = EXIT_SUCCESS \<and> written p' = written p) \<or>
          (code = EXIT_FAILURE \<and> (\<exists>ts. written p' = written p @ map (Pair fd) ts \<and> (ts = [] \<or> starts_with ''Failed'' (hd ts))))"
  using assms by (simp_all add: reported_def)

lemma proc_call_written [simp]: "written (snd (proc_call call p)) = written p"
  by (simp add: proc_call_def split: prod.split)

lemma proc_void_written [simp]: "written (proc_void call p) = written p"
  by (simp add: proc_void_def)

lemma reports_go_on: "(\<And>p. written (g p) = written p) \<Longrightarrow> reports fd (\<lambda>p. (None, g p))"
  by (rule reportsI) (auto simp: reported_def)

lemma reports_and_then:
  assumes "reports fd f" and "reports fd g"
  shows "reports fd (and_then f g)"
proof (rule reportsI)
  fix p c p'
  assume eq: "and_then f g p = (c, p')"
  obtain c1 p1 where 1: "f p = (c1, p1)" by (metis surj_pair)
  note first = reports_at [OF assms(1) 1 refl]
  show "reported fd p c p'"
  proof (cases c1)
    case None
    then have "g p1 = (c, p')" using eq 1 by (simp add: and_then_def)
    then show ?thesis by (rule reports_at [OF assms(2)]) (rule reportedD(1) [OF first None])
  next
    case (Some code)
    with eq 1 have "c = c1" "p' = p1" by (simp_all add: and_then_def)
    with first show ?thesis by simp
  qed
qed

lemma reports_exit:
  assumes "starts_with ''Failed'' msg"
  shows "reports fd (exitWithFailure P fd msg)"
proof (rule reportsI)
  fix p c p'
  assume "exitWithFailure P fd msg p = (c, p')"
  then have "c = Some EXIT_FAILURE" "written p' = written p @ map (Pair fd) [msg, os_strerror P (errno_of (proc_state p))]"
    by (auto simp: exitWithFailure_def Let_def writeString_def)
  with assms show "reported fd p c p'"
    unfolding reported_def by (simp del: list.map) (metis list.sel(1))
qed

lemma reports_checked:
  assumes "starts_with ''Failed'' msg" and "\<And>a. reports fd (cont a)"
  shows "reports fd (checked P fd msg call cont)"
proof (rule reportsI)
  fix p c p'
  assume eq: "checked P fd msg call cont p = (c, p')"
  obtain r p1 where 1: "proc_call call p = (r, p1)" by (metis surj_pair)
  then have w: "written p1 = written p" using proc_call_written [of call p] by simp
  show "reported fd p c p'"
  proof (cases r)
    case None
    with eq 1 have "exitWithFailure P fd msg p1 = (c, p')" by (simp add: checked_def)
    then show ?thesis using w by (rule reports_at [OF reports_exit [OF assms(1)]])
  next
    case (Some a)
    with eq 1 have "cont a p1 = (c, p')" by (simp add: checked_def)
    then show ?thesis using w by (rule reports_at [OF assms(2)])
  qed
qed

lemma reports_write:
  assumes "starts_with ''Failed'' msg"
  shows "reports fd (\<lambda>p. let buf = t p; (n, p) = proc_call (w buf) p
     in if n \<noteq> Some (length buf) then exitWithFailure P fd msg p else (None, p))"
proof (rule reportsI)
  fix p c p'
  assume eq: "(let buf = t p; (n, p) = proc_call (w buf) p
     in if n \<noteq> Some (length buf) then exitWithFailure P fd msg p else (None, p)) = (c, p')"
  obtain n p1 where 1: "proc_call (w (t p)) p = (n, p1)" by (metis surj_pair)
  then have wr: "written p1 = written p" using proc_call_written [of "w (t p)" p] by simp
  show "reported fd p c p'"
  proof (cases "n = Some (length (t p))")
    case True
    with eq 1 wr show ?thesis by (auto simp: reported_def Let_def)
  next
    case False
    with eq 1 have "exitWithFailure P fd msg p1 = (c, p')" by (simp add: Let_def)
    then show ?thesis using wr by (rule reports_at [OF reports_exit [OF assms]])
  qed
qed

lemma reports_pure: "reports fd (\<lambda>p. (None, p))" "(\<And>p. written (g p) = written p) \<Longrightarrow> reports fd (\<lambda>p. (Some EXIT_SUCCESS, g p))"
  by (auto intro!: reportsI simp: reported_def)

lemma reports_if: "reports fd f \<Longrightarrow> reports fd g \<Longrightarrow> reports fd (\<lambda>p. if b then f p else g p)"
  by (cases b) simp_all

lemma daemonize_child_reports: "reports fd (daemonize_child P fd)"
proof -
  have 9: "reports fd (\<lambda>p. let p = proc_void (os_dup2 P n 2) (proc_void (os_dup2 P n 1) (proc_void (os_dup2 P n 0) p))
               in (None, if 2 < n then proc_void (os_close P n) p else p))" for n
    unfolding Let_def by (rule reports_go_on) simp
  have 10: "reports fd (step_10_reset_umask P)"
    unfolding step_10_reset_umask_def [abs_def] by (rule reports_go_on) simp
  show ?thesis
    unfolding daemonize_child_def step_06_create_new_session_def step_07_08_fork_and_exit_again_def
      step_09_redirect_stdio_to_devnull_def step_11_change_curr_dir_def step_12_create_pid_file_def
    by (intro reports_and_then reports_checked reports_pure reports_if reports_write 9 10) simp_all
qed

lemma main_init_reports:
  assumes "should_daemonize argv" and "main_init P Config_make logging engine_init argv fd p = (c, p')"
  shows "(c = None \<and> written p' = written p @ [(fd, s_init_complete)]) \<or>
         (c = Some EXIT_FAILURE \<and> (\<exists>ts. written p' = written p @ map (Pair fd) ts \<and> (ts = [] \<or> starts_with ''Failed'' (hd ts))))"
proof -
  have one: "\<exists>ts. [(fd, x)] = map (Pair fd) ts \<and> (ts = [] \<or> starts_with ''Failed'' (hd ts))"
    if "starts_with ''Failed'' x" for x using that by (intro exI [of _ "[x]"]) simp
  have two: "\<exists>ts. [(fd, x), (fd, y)] = map (Pair fd) ts \<and> (ts = [] \<or> starts_with ''Failed'' (hd ts))"
    if "starts_with ''Failed'' x" for x y using that by (intro exI [of _ "[x, y]"]) simp
  show ?thesis
    using assms one two
    by (auto simp: main_init_def loadConfig_def setupLogging_def and_then_def writeString_def step_14_notify_init_complete_def Let_def
             split: sum.splits option.splits init_outcome.splits)
qed

subsection \<open>What the original process reads\<close>

text \<open>What a process wrote to a descriptor.\<close>

definition texts_to :: "int \<Rightarrow> 'k proc \<Rightarrow> string list" where
  "texts_to fd p = map snd (filter (\<lambda>(d, _). d = fd) (written p))"

lemma texts_to_more: "written p' = written p @ map (Pair fd) ts \<Longrightarrow> texts_to fd p' = texts_to fd p @ ts"
  by (simp add: texts_to_def filter_map o_def)

lemma texts_to_same: "written p' = written p \<Longrightarrow> texts_to fd p' = texts_to fd p"
  by (simp add: texts_to_def)

text \<open>
  What a pipe promises. A read blocks until something was written to the other end or nothing can
  be any more; it gives nothing only in the second case, and otherwise a part from the front of
  what was written, of at most the size of the buffer. A text of at most 512 bytes (the least
  value of \<open>PIPE_BUF\<close>) is written in one piece, so a read does not see a part of the first one.
\<close>

definition pipe_delivers :: "string list \<Rightarrow> string \<Rightarrow> bool" where
  "pipe_delivers texts b \<longleftrightarrow>
     (if concat texts = [] then b = []
      else b \<noteq> [] \<and> b = take (min 1023 (length b)) (concat texts) \<and>
           (length (hd texts) \<le> 512 \<longrightarrow> length (hd texts) \<le> length b))"

lemma delivered_complete:
  assumes "pipe_delivers [s_init_complete] b"
  shows "c_str b = s_init_complete"
proof -
  from assms have "b = take (min 1023 (length b)) s_init_complete" "length s_init_complete \<le> length b"
    unfolding pipe_delivers_def by (simp_all add: s_init_complete_def)
  then have "b = s_init_complete" by (metis length_take min.bounded_iff nle_le take_all)
  then show ?thesis by (simp add: c_str_def s_init_complete_def)
qed

lemma delivered_failed:
  assumes "pipe_delivers ts b" and "ts = [] \<or> starts_with ''Failed'' (hd ts)"
  shows "c_str b \<noteq> s_init_complete"
proof (cases ts)
  case Nil
  with assms show ?thesis by (simp add: pipe_delivers_def c_str_def s_init_complete_def)
next
  case (Cons t ts')
  from assms(2) Cons obtain r where t: "t = CHR ''F'' # r" by (cases t) (auto simp: starts_with_def)
  with assms(1) Cons have b: "b \<noteq> []" "b = take (min 1023 (length b)) (CHR ''F'' # r @ concat ts')"
    by (simp_all add: pipe_delivers_def)
  then obtain m where "min 1023 (length b) = Suc m" by (cases "min 1023 (length b)") auto
  with b(2) have "b = CHR ''F'' # take m (r @ concat ts')" by simp
  then have "hd b = CHR ''F''" by (metis list.sel(1))
  with b(1) show ?thesis by (cases b) (simp_all add: c_str_def s_init_complete_def)
qed

text \<open>What the child came to, and what it wrote to its end of the pipe by then.\<close>

lemma child_reports:
  assumes "should_daemonize argv"
    and "and_then (daemonize_child P fd) (main_init P Config_make logging engine_init argv fd) p = (c, p')"
    and "c \<noteq> Some EXIT_SUCCESS" and "texts_to fd p = []"
  shows "(c = None \<and> texts_to fd p' = [s_init_complete]) \<or>
         (c \<noteq> None \<and> (texts_to fd p' = [] \<or> starts_with ''Failed'' (hd (texts_to fd p'))))"
proof -
  obtain c1 p1 where 1: "daemonize_child P fd p = (c1, p1)" by (metis surj_pair)
  note child = reportedD [OF reports_at [OF daemonize_child_reports 1 refl]]
  have failed: ?thesis if "c \<noteq> None" "written p' = written p @ map (Pair fd) ts" "ts = [] \<or> starts_with ''Failed'' (hd ts)" for ts
    using that assms(4) texts_to_more [OF that(2)] by simp
  show ?thesis
  proof (cases c1)
    case None
    then have "main_init P Config_make logging engine_init argv fd p1 = (c, p')" using assms(2) 1 by (simp add: and_then_def)
    from main_init_reports [OF assms(1) this] show ?thesis
    proof (elim disjE conjE exE)
      assume "c = None" "written p' = written p1 @ [(fd, s_init_complete)]"
      with child(1) [OF None] texts_to_more [of p' p fd "[s_init_complete]"] assms(4) show ?thesis by simp
    next
      fix ts
      assume "c = Some EXIT_FAILURE" "written p' = written p1 @ map (Pair fd) ts" "ts = []"
      with child(1) [OF None] failed [of ts] show ?thesis by simp
    next
      fix ts
      assume "c = Some EXIT_FAILURE" "written p' = written p1 @ map (Pair fd) ts" "starts_with ''Failed'' (hd ts)"
      with child(1) [OF None] failed [of ts] show ?thesis by simp
    qed
  next
    case (Some code)
    with assms(2) 1 have eq: "c = Some code" "p' = p1" by (simp_all add: and_then_def)
    with child(2) [OF Some] assms(3) obtain ts where "written p' = written p @ map (Pair fd) ts" "ts = [] \<or> starts_with ''Failed'' (hd ts)"
      by auto
    with eq(1) failed show ?thesis by blast
  qed
qed

text \<open>The ends of the pipe after the fork: the child keeps the one it writes to, its parent the other.\<close>

lemma forked_child:
  assumes "step_05_fork_to_background P (rfd, wfd) p = (Inr True, (a, fd), p1)"
  shows "fd = wfd" and "written p1 = written p"
proof -
  obtain r p2 where 2: "proc_call (os_fork P) p = (r, p2)" by (metis surj_pair)
  then have "written p2 = written p" using proc_call_written [of "os_fork P" p] by simp
  with assms 2 show "fd = wfd" "written p1 = written p"
    by (auto simp: step_05_fork_to_background_def split: option.splits if_splits)
qed

lemma forked_parent:
  assumes "step_05_fork_to_background P (rfd, wfd) p = (Inr False, (rd, b), p1)"
  shows "rd = rfd"
  using assms by (auto simp: step_05_fork_to_background_def split: option.splits if_splits prod.splits)

text \<open>
  C8. The pipe \<open>(rfd, wfd)\<close> is split by the fork between the process that the user started, which
  goes on as \<open>q1\<close>, and its child, which goes on as \<open>p1\<close>. Whatever goes wrong on the way of the child
  (the session, the PID file and its lock, the configuration, the logging, the engine, an
  exception) or nothing: once the child has come up as the daemon or ended, the process that the
  user started, which reads what was written to the other end of that pipe, exits with success if
  the daemon came up and the read did not fail, and with failure otherwise. (A child that ends
  with success is the intermediate process of the second fork, which leaves the pipe to its own
  child.)
\<close>

theorem startup_is_reported:
  assumes "should_daemonize argv"
    and "step_05_fork_to_background P (rfd, wfd) p = (Inr True, (a, fd), p1)" and "texts_to wfd p = []"
    and "and_then (daemonize_child P fd) (main_init P Config_make logging engine_init argv fd) p1 = (c, p')"
    and "c \<noteq> Some EXIT_SUCCESS"
    and "step_05_fork_to_background Q (rfd, wfd) q = (Inr False, (rd, b), q1)"
    and "os_read Q rfd 1023 (kernel_of (proc_state q1)) = (r, k')"
    and "\<And>s. r = Ret s \<Longrightarrow> pipe_delivers (texts_to wfd p') s"
  shows "fst (step_15_exit_org_process Q rd q1) = (if c = None \<and> (\<exists>s. r = Ret s) then EXIT_SUCCESS else EXIT_FAILURE)"
proof -
  note child = forked_child [OF assms(2)] and rd = forked_parent [OF assms(6)]
  have "texts_to wfd p1 = []" using assms(3) texts_to_same [OF child(2)] by simp
  note reports = child_reports [OF assms(1) assms(4) [unfolded child(1)] assms(5) this]
  have up: "c_str s = s_init_complete \<longleftrightarrow> c = None" if "r = Ret s" for s
    using reports delivered_complete [of s] delivered_failed [OF assms(8) [OF that]] assms(8) [OF that] by auto
  have read: "fst (proc_call (os_read Q rfd 1023) q1) = (case r of Ret s \<Rightarrow> Some s | Err e \<Rightarrow> None)"
    using assms(7) by (cases "proc_state q1") (auto simp: proc_call_def c_call.simps split: sysret.splits)
  show ?thesis
    using read up by (cases r) (auto simp: rd step_15_exit_org_process_def split: prod.split)
qed

subsection \<open>The configuration file\<close>

lemma config_file_path_default:
  "\<forall>arg \<in> set (tl argv). \<not> starts_with ''CONFIG_FILE='' arg \<Longrightarrow>
   config_file_path d argv = (if d then ''/etc/ocvsmd/ocvsmd.toml'' else ''./ocvsmd.toml'')"
proof -
  have "fold (\<lambda>arg_str path. if starts_with ''CONFIG_FILE='' arg_str then drop n arg_str else path) args x = x"
    if "\<forall>arg \<in> set args. \<not> starts_with ''CONFIG_FILE='' arg" for args n x
    using that by (induction args) simp_all
  moreover assume "\<forall>arg \<in> set (tl argv). \<not> starts_with ''CONFIG_FILE='' arg"
  ultimately show ?thesis by (simp add: config_file_path_def)
qed

lemma config_file_path_last:
  "config_file_path d (argv0 # args @ [''CONFIG_FILE='' @ path]) = path"
  by (simp add: config_file_path_def)

lemma signal_stops: "g_running (signalHandler sig p) = (if sig = SIGTERM \<or> sig = SIGINT then 0 else g_running p)"
  by (simp add: signalHandler_def)

subsection \<open>A second daemon\<close>

text \<open>A system on which another daemon holds the lock: everything succeeds but \<open>lockf\<close>.\<close>

definition busy_os :: "unit os" where
  "busy_os = \<lparr>
     os_getrlimit = (\<lambda>k. (Ret 8, k)), os_close = (\<lambda>fd k. (Ret (), k)), os_pipe = (\<lambda>k. (Ret (3, 4), k)),
     os_fork = (\<lambda>k. (Ret 0, k)), os_setsid = (\<lambda>k. (Ret (), k)), os_open_null = (\<lambda>k. (Ret 5, k)),
     os_dup2 = (\<lambda>a b k. (Ret (), k)), os_umask = (\<lambda>k. (Ret (), k)), os_chdir = (\<lambda>k. (Ret (), k)),
     os_open_pid = (\<lambda>k. (Ret 5, k)), os_lockf = (\<lambda>fd k. (Err EAGAIN, k)), os_ftruncate = (\<lambda>fd k. (Ret (), k)),
     os_pid_text = (\<lambda>k. ''77''), os_write = (\<lambda>fd s k. (Ret (length s), k)),
     os_read = (\<lambda>fd n k. (Ret ''Failed to lock PID file: busy'', k)), os_strerror = (\<lambda>e. ''busy'')\<rparr>"

definition busy_proc :: "unit proc" where
  "busy_proc = \<lparr>written = [], g_running = 1, handles_signals = True, proc_state = (0, ())\<rparr>"

text \<open>The process the user started is left with the other side of the fork and reads from its end.\<close>

definition starter_os :: "unit os" where
  "starter_os = busy_os\<lparr>os_fork := (\<lambda>k. (Ret 76, k)),
     os_read := (\<lambda>fd n k. (if fd = 3 then Ret ''Failed to lock PID file: busy'' else Err EBADF, k))\<rparr>"

theorem startup_is_reported_witness:
  "fst (step_15_exit_org_process starter_os 3 busy_proc) = EXIT_FAILURE"
proof -
  let ?p = "busy_proc\<lparr>written := [(4, ''Failed to lock PID file: ''), (4, ''busy'')], proc_state := (EAGAIN, ())\<rparr>"
  note eval = checked_def proc_call_def proc_void_def c_call.simps busy_os_def starter_os_def busy_proc_def Let_def
  have child: "step_05_fork_to_background busy_os (3, 4) busy_proc = (Inr True, (- 1, 4), busy_proc)"
    by (simp add: step_05_fork_to_background_def eval)
  have parent: "step_05_fork_to_background starter_os (3, 4) busy_proc = (Inr False, (3, - 1), busy_proc)"
    by (simp add: step_05_fork_to_background_def eval)
  have run: "and_then (daemonize_child busy_os 4)
      (main_init busy_os (\<lambda>_. Inr ()) (\<lambda>_. None) (\<lambda>_. InitDone) [''ocvsmd''] 4) busy_proc = (Some EXIT_FAILURE, ?p)"
    by (simp add: daemonize_child_def and_then_def step_06_create_new_session_def step_07_08_fork_and_exit_again_def
        step_09_redirect_stdio_to_devnull_def step_10_reset_umask_def step_11_change_curr_dir_def step_12_create_pid_file_def
        exitWithFailure_def writeString_def eval)
  have read: "os_read starter_os 3 1023 (kernel_of (proc_state busy_proc)) = (Ret ''Failed to lock PID file: busy'', ())"
    by (simp add: eval)
  have delivers: "pipe_delivers (texts_to 4 ?p) ''Failed to lock PID file: busy''"
    by (simp add: pipe_delivers_def texts_to_def)
  show ?thesis
    using startup_is_reported [OF _ child _ run _ parent read] delivers
    by (simp add: should_daemonize_def texts_to_def busy_proc_def)
qed

end
