(* ===== verification/Config_File.thy ===== *)
theory Config_File
  imports Engine_Init
begin

text \<open>
  The configuration of the daemon over its file, src/daemon/engine/config.cpp. The TOML library is
  an argument: documents, what \<open>find\<close> gives for a path of keys at each type (a missing or ill-typed
  value is the exception that \<open>findImpl\<close> and \<open>find_or\<close> turn into a default), assignment through
  \<open>operator []\<close> (it throws when a value on the way is no table), parsing and printing. So are the
  files: reading, and writing through a stream, which reports nothing.
\<close>

record 'r toml =
  tl_parse :: "string \<Rightarrow> 'r option"
  tl_format :: "'r \<Rightarrow> string option"
  tl_find_u16 :: "'r \<Rightarrow> string list \<Rightarrow> u16 option"
  tl_find_bytes :: "'r \<Rightarrow> string list \<Rightarrow> bytes option"
  tl_find_string :: "'r \<Rightarrow> string list \<Rightarrow> string option"
  tl_find_strings :: "'r \<Rightarrow> string list \<Rightarrow> string list option"
  tl_set_bytes :: "string list \<Rightarrow> bytes \<Rightarrow> 'r \<Rightarrow> 'r option"
  tl_set_strings :: "string list \<Rightarrow> string list \<Rightarrow> 'r \<Rightarrow> 'r option"
  tl_set_time :: "string list \<Rightarrow> int \<Rightarrow> 'r \<Rightarrow> 'r option"

record 'k files =
  fs_read :: "string \<Rightarrow> 'k \<Rightarrow> string option"
  fs_write :: "string \<Rightarrow> string \<Rightarrow> 'k \<Rightarrow> 'k"
  fs_time :: "'k \<Rightarrow> int"

record 'r config_impl =
  file_path :: string
  toml_root :: 'r
  ci_is_dirty :: bool

abbreviation UNIQUE_ID :: "string list" where "UNIQUE_ID \<equiv> [''cyphal'', ''application'', ''unique_id'']"
abbreviation NODE_ID :: "string list" where "NODE_ID \<equiv> [''cyphal'', ''application'', ''node_id'']"
abbreviation INTERFACES :: "string list" where "INTERFACES \<equiv> [''cyphal'', ''transport'', ''interfaces'']"
abbreviation CONNECTIONS :: "string list" where "CONNECTIONS \<equiv> [''ipc'', ''connections'']"
abbreviation ROOTS :: "string list" where "ROOTS \<equiv> [''file_server'', ''roots'']"
abbreviation LAST_MODIFIED :: "string list" where "LAST_MODIFIED \<equiv> [''__meta__'', ''last_modified'']"

subsection \<open>Operations\<close>

text \<open>No file or an ill-formed one is an exception.\<close>

definition Config_make :: "'r toml \<Rightarrow> 'k files \<Rightarrow> string \<Rightarrow> 'k \<Rightarrow> 'r config_impl option" where
  "Config_make T F path k =
     (case fs_read F path k of None \<Rightarrow> None
      | Some content \<Rightarrow> map_option (\<lambda>root. \<lparr>file_path = path, toml_root = root, ci_is_dirty = False\<rparr>) (tl_parse T content))"

definition find_or :: "('r \<Rightarrow> string list \<Rightarrow> 'v option) \<Rightarrow> 'r config_impl \<Rightarrow> string list \<Rightarrow> 'v \<Rightarrow> 'v" where
  "find_or finder c keys default_value = (case finder (toml_root c) keys of None \<Rightarrow> default_value | Some v \<Rightarrow> v)"

definition findImpl :: "('r \<Rightarrow> string list \<Rightarrow> 'v option) \<Rightarrow> 'r config_impl \<Rightarrow> string list \<Rightarrow> 'v option" where
  "findImpl finder c keys = finder (toml_root c) keys"

definition getCyphalAppNodeId :: "'r toml \<Rightarrow> 'r config_impl \<Rightarrow> u16 option" where
  "getCyphalAppNodeId T c = findImpl (tl_find_u16 T) c NODE_ID"

definition getCyphalAppUniqueId :: "'r toml \<Rightarrow> 'r config_impl \<Rightarrow> bytes option" where
  "getCyphalAppUniqueId T c = findImpl (tl_find_bytes T) c UNIQUE_ID"

definition setCyphalAppUniqueId :: "'r toml \<Rightarrow> bytes \<Rightarrow> 'r config_impl \<Rightarrow> 'r config_impl option" where
  "setCyphalAppUniqueId T unique_id c =
     map_option (\<lambda>root. c\<lparr>toml_root := root, ci_is_dirty := True\<rparr>) (tl_set_bytes T UNIQUE_ID unique_id (toml_root c))"

definition getCyphalTransportInterfaces :: "'r toml \<Rightarrow> 'r config_impl \<Rightarrow> string list" where
  "getCyphalTransportInterfaces T c = find_or (tl_find_strings T) c INTERFACES []"

definition getFileServerRoots :: "'r toml \<Rightarrow> 'r config_impl \<Rightarrow> string list" where
  "getFileServerRoots T c = find_or (tl_find_strings T) c ROOTS []"

definition setFileServerRoots :: "'r toml \<Rightarrow> string list \<Rightarrow> 'r config_impl \<Rightarrow> 'r config_impl option" where
  "setFileServerRoots T roots c =
     map_option (\<lambda>root. c\<lparr>toml_root := root, ci_is_dirty := True\<rparr>) (tl_set_strings T ROOTS roots (toml_root c))"

definition getIpcConnections :: "'r toml \<Rightarrow> 'r config_impl \<Rightarrow> string list" where
  "getIpcConnections T c = find_or (tl_find_strings T) c CONNECTIONS []"

definition getLoggingFile :: "'r toml \<Rightarrow> 'r config_impl \<Rightarrow> string option" where
  "getLoggingFile T c = findImpl (tl_find_string T) c [''logging'', ''file'']"

definition getLoggingLevel :: "'r toml \<Rightarrow> 'r config_impl \<Rightarrow> string option" where
  "getLoggingLevel T c = findImpl (tl_find_string T) c [''logging'', ''level'']"

definition getLoggingFlushLevel :: "'r toml \<Rightarrow> 'r config_impl \<Rightarrow> string option" where
  "getLoggingFlushLevel T c = findImpl (tl_find_string T) c [''logging'', ''flush_level'']"

text \<open>
  Saving: an exception on the way leaves the configuration dirty; a stream that could not be opened
  or written does not throw.
\<close>

definition save :: "'r toml \<Rightarrow> 'k files \<Rightarrow> 'r config_impl \<Rightarrow> 'k \<Rightarrow> 'r config_impl \<times> 'k" where
  "save T F c k =
     (if ci_is_dirty c then
        (case tl_set_time T LAST_MODIFIED (fs_time F k) (toml_root c) of
           None \<Rightarrow> (c, k)
         | Some root \<Rightarrow>
             (let c = c\<lparr>toml_root := root\<rparr>
              in case tl_format T root of
                   None \<Rightarrow> (c, k)
                 | Some cfg_str \<Rightarrow> (c\<lparr>ci_is_dirty := False\<rparr>, fs_write F (file_path c) cfg_str k)))
      else (c, k))"

subsection \<open>What the engine sees of it\<close>

definition config_view :: "'r toml \<Rightarrow> 'r config_impl \<Rightarrow> config" where
  "config_view T c =
     \<lparr>cyphal_app_node_id = getCyphalAppNodeId T c, cyphal_app_unique_id = getCyphalAppUniqueId T c,
      cyphal_transport_interfaces = getCyphalTransportInterfaces T c, ipc_connections = getIpcConnections T c,
      is_dirty = ci_is_dirty c\<rparr>"

text \<open>
  What is assumed of the library: what was assigned is found at its type, what is found elsewhere
  does not change, and a printed document parses to one in which the same is found.
\<close>

definition same_found :: "'r toml \<Rightarrow> string list \<Rightarrow> 'r \<Rightarrow> 'r \<Rightarrow> bool" where
  "same_found T keys r r' \<longleftrightarrow>
     tl_find_u16 T r' keys = tl_find_u16 T r keys \<and> tl_find_bytes T r' keys = tl_find_bytes T r keys \<and>
     tl_find_string T r' keys = tl_find_string T r keys \<and> tl_find_strings T r' keys = tl_find_strings T r keys"

definition unrelated :: "string list \<Rightarrow> string list \<Rightarrow> bool" where
  "unrelated p q \<longleftrightarrow> take (length p) q \<noteq> p \<and> take (length q) p \<noteq> q"

definition toml_laws :: "'r toml \<Rightarrow> bool" where
  "toml_laws T \<longleftrightarrow>
     (\<forall>p v r r'. tl_set_bytes T p v r = Some r' \<longrightarrow> tl_find_bytes T r' p = Some v \<and> (\<forall>q. unrelated p q \<longrightarrow> same_found T q r r')) \<and>
     (\<forall>p v r r'. tl_set_strings T p v r = Some r' \<longrightarrow> tl_find_strings T r' p = Some v \<and> (\<forall>q. unrelated p q \<longrightarrow> same_found T q r r')) \<and>
     (\<forall>p v r r'. tl_set_time T p v r = Some r' \<longrightarrow> (\<forall>q. unrelated p q \<longrightarrow> same_found T q r r')) \<and>
     (\<forall>r s. tl_format T r = Some s \<longrightarrow> (\<exists>r'. tl_parse T s = Some r' \<and> (\<forall>q. same_found T q r r')))"

lemma toml_lawsD:
  assumes "toml_laws T"
  shows "tl_set_bytes T p v r = Some r' \<Longrightarrow> tl_find_bytes T r' p = Some v"
    and "tl_set_bytes T p v r = Some r' \<Longrightarrow> unrelated p q \<Longrightarrow> same_found T q r r'"
    and "tl_set_time T p t r = Some r' \<Longrightarrow> unrelated p q \<Longrightarrow> same_found T q r r'"
    and "tl_format T r = Some s \<Longrightarrow> \<exists>r'. tl_parse T s = Some r' \<and> (\<forall>q. same_found T q r r')"
  using assms by (simp_all add: toml_laws_def)

lemma unrelated_paths:
  "unrelated UNIQUE_ID NODE_ID" "unrelated UNIQUE_ID INTERFACES" "unrelated UNIQUE_ID CONNECTIONS"
  "unrelated LAST_MODIFIED NODE_ID" "unrelated LAST_MODIFIED UNIQUE_ID" "unrelated LAST_MODIFIED INTERFACES"
  "unrelated LAST_MODIFIED CONNECTIONS"
  by (simp_all add: unrelated_def)

lemmas config_view_defs = config_view_def getCyphalAppNodeId_def getCyphalAppUniqueId_def
  getCyphalTransportInterfaces_def getIpcConnections_def findImpl_def find_or_def

lemma config_view_same:
  assumes "same_found T NODE_ID r r'" "same_found T UNIQUE_ID r r'" "same_found T INTERFACES r r'" "same_found T CONNECTIONS r r'"
  shows "config_view T \<lparr>file_path = p, toml_root = r', ci_is_dirty = d\<rparr> = config_view T \<lparr>file_path = p', toml_root = r, ci_is_dirty = d\<rparr>"
  using assms by (simp add: config_view_defs same_found_def)

text \<open>The operations the engine uses refine those on what it sees.\<close>

lemma setCyphalAppUniqueId_refines:
  assumes "toml_laws T" and "setCyphalAppUniqueId T u c = Some c'"
  shows "config_view T c' = config_setUniqueId u (config_view T c)"
proof -
  from assms(2) obtain r where r: "tl_set_bytes T UNIQUE_ID u (toml_root c) = Some r" "c' = c\<lparr>toml_root := r, ci_is_dirty := True\<rparr>"
    by (auto simp: setCyphalAppUniqueId_def)
  from toml_lawsD(1) [OF assms(1) r(1)] toml_lawsD(2) [OF assms(1) r(1) unrelated_paths(1)]
    toml_lawsD(2) [OF assms(1) r(1) unrelated_paths(2)] toml_lawsD(2) [OF assms(1) r(1) unrelated_paths(3)]
  show ?thesis by (simp add: r(2) config_view_defs config_setUniqueId_def same_found_def)
qed

lemma save_refines:
  assumes "toml_laws T" and "tl_set_time T LAST_MODIFIED (fs_time F k) (toml_root c) = Some root" and "tl_format T root = Some s"
  shows "config_view T (fst (save T F c k)) = fst (config_save (config_view T c))"
    and "ci_is_dirty c \<Longrightarrow> snd (save T F c k) = fs_write F (file_path c) s k"
    and "ci_is_dirty c \<Longrightarrow> fs_read F (file_path c) k' = Some s \<Longrightarrow>
      \<exists>c'. Config_make T F (file_path c) k' = Some c' \<and> Some (config_view T c') = snd (config_save (config_view T c))"
proof -
  have same: "config_view T \<lparr>file_path = p, toml_root = root, ci_is_dirty = d\<rparr> = config_view T \<lparr>file_path = p', toml_root = toml_root c, ci_is_dirty = d\<rparr>" for p p' d
    using toml_lawsD(3) [OF assms(1,2)] unrelated_paths(4-7) by (intro config_view_same) blast+
  have c: "c\<lparr>toml_root := r, ci_is_dirty := d\<rparr> = \<lparr>file_path = file_path c, toml_root = r, ci_is_dirty = d\<rparr>" for r d
    by (cases c) simp
  have dirty: "is_dirty (config_view T c) = ci_is_dirty c" by (simp add: config_view_def)
  have clean: "config_view T \<lparr>file_path = p, toml_root = toml_root c, ci_is_dirty = d\<rparr> = (config_view T c)\<lparr>is_dirty := d\<rparr>" for p d
    by (simp add: config_view_defs)
  have seen: "config_view T \<lparr>file_path = p, toml_root = root, ci_is_dirty = d\<rparr> = (config_view T c)\<lparr>is_dirty := d\<rparr>" for p d
    using same clean by metis
  show "config_view T (fst (save T F c k)) = fst (config_save (config_view T c))"
    using assms(2,3) by (simp add: save_def config_save_def dirty Let_def c seen)
  show "ci_is_dirty c \<Longrightarrow> snd (save T F c k) = fs_write F (file_path c) s k"
    using assms(2,3) by (simp add: save_def Let_def)
  show "\<exists>c'. Config_make T F (file_path c) k' = Some c' \<and> Some (config_view T c') = snd (config_save (config_view T c))"
    if "ci_is_dirty c" "fs_read F (file_path c) k' = Some s"
  proof -
    from toml_lawsD(4) [OF assms(1,3)] obtain r where r: "tl_parse T s = Some r" "\<And>q. same_found T q root r" by blast
    have "config_view T \<lparr>file_path = file_path c, toml_root = r, ci_is_dirty = False\<rparr> = (config_view T c)\<lparr>is_dirty := False\<rparr>"
      using config_view_same [OF r(2) r(2) r(2) r(2)] seen by metis
    then show ?thesis using that r(1) by (simp add: Config_make_def config_save_def dirty)
  qed
qed

text \<open>
  C11. The unique id that a daemon gave itself on its first run is the one it has on every later run:
  set in the configuration and saved to a file that can be written, it is found again when the
  file is loaded, with everything else the engine reads as it was, and the engine takes it instead
  of making another one.
\<close>

theorem unique_id_survives_restart:
  assumes "toml_laws T" and "setCyphalAppUniqueId T u c = Some c1"
    and "tl_set_time T LAST_MODIFIED (fs_time F k) (toml_root c1) = Some root" and "tl_format T root \<noteq> None"
    and "\<And>s. fs_read F (file_path c) (fs_write F (file_path c) s k) = Some s"
    and "save T F c1 k = (c2, k2)"
  shows "\<exists>c3. Config_make T F (file_path c) k2 = Some c3 \<and> config_view T c3 = config_view T c2 \<and>
    config_view T c3 = (config_view T c)\<lparr>cyphal_app_unique_id := Some u, is_dirty := False\<rparr> \<and>
    (\<forall>random e. engine_config e = config_view T c3 \<longrightarrow> fst (getUniqueId random e) = u)"
proof -
  note set = setCyphalAppUniqueId_refines [OF assms(1,2)]
  have dirty: "ci_is_dirty c1" and path: "file_path c1 = file_path c" using assms(2) by (auto simp: setCyphalAppUniqueId_def)
  from assms(4) obtain s where s: "tl_format T root = Some s" by blast
  note saved = save_refines [OF assms(1,3) s]
  have "fs_read F (file_path c1) k2 = Some s" using saved(2) [OF dirty] assms(5,6) path by simp
  from saved(3) [OF dirty this] obtain c3 where c3: "Config_make T F (file_path c1) k2 = Some c3"
    "Some (config_view T c3) = snd (config_save (config_view T c1))" by blast
  then have view: "config_view T c3 = (config_view T c)\<lparr>cyphal_app_unique_id := Some u, is_dirty := False\<rparr>"
    by (simp add: set config_save_def config_setUniqueId_def)
  moreover have "config_view T c2 = config_view T c3"
    using saved(1) assms(6) by (simp add: set config_save_def config_setUniqueId_def view)
  ultimately show ?thesis using c3(1) path by (auto simp: getUniqueId_def)
qed

text \<open>
  A file that cannot be written is not noticed: the configuration counts as saved, the file is as it
  was, and the next run makes another unique id.
\<close>

lemma save_failure_is_silent:
  assumes "ci_is_dirty c" and "tl_set_time T LAST_MODIFIED (fs_time F k) (toml_root c) = Some root" and "tl_format T root = Some s"
    and "fs_write F (file_path c) s k = k"
  shows "\<exists>c'. save T F c k = (c', k) \<and> \<not> ci_is_dirty c' \<and> save T F c' k = (c', k)"
  using assms by (simp add: save_def Let_def)

subsection \<open>A first run\<close>

text \<open>A library whose documents hold one unique id or none, and a file system of one file.\<close>

definition sample_toml :: "bool toml" where
  "sample_toml = \<lparr>
     tl_parse = (\<lambda>s. Some (s = ''yes'')), tl_format = (\<lambda>r. Some (if r then ''yes'' else ''no'')),
     tl_find_u16 = (\<lambda>r p. None), tl_find_bytes = (\<lambda>r p. if r \<and> p = UNIQUE_ID then Some [7] else None),
     tl_find_string = (\<lambda>r p. None), tl_find_strings = (\<lambda>r p. None),
     tl_set_bytes = (\<lambda>p v r. if p = UNIQUE_ID \<and> v = [7] then Some True else None),
     tl_set_strings = (\<lambda>p v r. None), tl_set_time = (\<lambda>p t r. Some r)\<rparr>"

lemma sample_toml_laws: "toml_laws sample_toml"
  unfolding toml_laws_def
  by (auto simp: sample_toml_def same_found_def unrelated_def split: if_splits)

definition sample_files :: "string files" where
  "sample_files = \<lparr>fs_read = (\<lambda>p k. Some k), fs_write = (\<lambda>p s k. s), fs_time = (\<lambda>k. 0)\<rparr>"

theorem unique_id_survives_restart_witness:
  "\<exists>c3. Config_make sample_toml sample_files ''ocvsmd.toml'' ''yes'' = Some c3 \<and>
     (\<forall>random (e :: (unit, unit, unit, unit, unit) engine). engine_config e = config_view sample_toml c3 \<longrightarrow> fst (getUniqueId random e) = [7])"
proof -
  let ?c = "\<lparr>file_path = ''ocvsmd.toml'', toml_root = False, ci_is_dirty = False\<rparr>"
  let ?c1 = "\<lparr>file_path = ''ocvsmd.toml'', toml_root = True, ci_is_dirty = True\<rparr>"
  have "setCyphalAppUniqueId sample_toml [7] ?c = Some ?c1" by (simp add: setCyphalAppUniqueId_def sample_toml_def)
  moreover have "save sample_toml sample_files ?c1 ''no'' = (?c1\<lparr>ci_is_dirty := False\<rparr>, ''yes'')"
    by (simp add: save_def sample_toml_def sample_files_def Let_def)
  ultimately show ?thesis
    using unique_id_survives_restart [OF sample_toml_laws, of "[7]" ?c ?c1 sample_files "''no''" True
        "?c1\<lparr>ci_is_dirty := False\<rparr>" "''yes''"]
    by (force simp: sample_toml_def sample_files_def)
qed

end
