(* ===== verification/Daemon_Life.thy ===== *)
theory Daemon_Life
  imports Daemon_Main_Safe Config_File
begin

text \<open>
  The rest of the daemon's \<open>main\<close> (src/daemon/main.cpp) once the engine is initialised: it runs
  while no signal has come, saves the configuration and ends; an exception ends it with a failure.
  The world of the engine is its own state with the configuration, which it shares with \<open>main\<close>, and
  the files. Only the signal handler of the process touches the flag of the loop: what the executor
  does comes with the signals that were handled meanwhile.
\<close>

subsection \<open>Turns of the run loop\<close>

definition run_turn ::
    "('x \<Rightarrow> (string + int option) \<times> 'x) \<Rightarrow> ('x \<Rightarrow> int) \<Rightarrow> (int \<Rightarrow> 'x \<Rightarrow> string option \<times> 'x) \<Rightarrow> 'x \<Rightarrow> string option \<times> 'x" where
  "run_turn spinOnce present poll x =
     (case spinOnce x of
        (Inl what, x) \<Rightarrow> (Some what, x)
      | (Inr next_exec_time, x) \<Rightarrow> poll (loop_timeout next_exec_time (present x)) x)"

lemma runWhile_step:
  "runWhile loop_predicate spinOnce present poll x =
     (if loop_predicate x
      then (case run_turn spinOnce present poll x of
              (Some what, x) \<Rightarrow> Some (Some what, x)
            | (None, x) \<Rightarrow> runWhile loop_predicate spinOnce present poll x)
      else Some (None, x))"
  by (subst runWhile.simps) (simp add: run_turn_def split: prod.split sum.split)

text \<open>The state after a number of turns.\<close>

definition after :: "('x \<Rightarrow> string option \<times> 'x) \<Rightarrow> nat \<Rightarrow> 'x \<Rightarrow> 'x" where
  "after step n = (snd \<circ> step) ^^ n"

lemma after_simps [simp]:
  "after step 0 x = x" "after step (Suc n) x = after step n (snd (step x))"
  by (simp_all add: after_def funpow_swap1)

lemma after_Suc: "after step (Suc n) x = snd (step (after step n x))"
  by (simp add: after_def del: after_simps)

lemma runWhile_turns:
  assumes "\<And>m. m < n \<Longrightarrow> loop_predicate (after (run_turn spinOnce present poll) m x)"
    and "\<And>m. m < n \<Longrightarrow> fst (run_turn spinOnce present poll (after (run_turn spinOnce present poll) m x)) = None"
  shows "runWhile loop_predicate spinOnce present poll x =
    runWhile loop_predicate spinOnce present poll (after (run_turn spinOnce present poll) n x)"
  using assms
proof (induction n arbitrary: x)
  case (Suc n)
  obtain x1 where x1: "run_turn spinOnce present poll x = (None, x1)"
    using Suc.prems(2) [of 0] by (cases "run_turn spinOnce present poll x") simp
  have "runWhile loop_predicate spinOnce present poll x = runWhile loop_predicate spinOnce present poll x1"
    using Suc.prems(1) [of 0] by (subst runWhile_step) (simp add: x1)
  also have "\<dots> = runWhile loop_predicate spinOnce present poll (after (run_turn spinOnce present poll) n x1)"
    using Suc.prems(1) [of "Suc m" for m] Suc.prems(2) [of "Suc m" for m] by (intro Suc.IH) (simp_all add: x1)
  finally show ?case by (simp add: x1)
qed simp

lemma runWhile_ended:
  assumes "runWhile loop_predicate spinOnce present poll x = Some y"
  shows "\<exists>n. \<not> loop_predicate (after (run_turn spinOnce present poll) n x) \<or>
    fst (run_turn spinOnce present poll (after (run_turn spinOnce present poll) n x)) \<noteq> None"
proof (rule runWhile.raw_induct
    [where P = "\<lambda>loop_predicate spinOnce present poll x y. \<exists>n. \<not> loop_predicate (after (run_turn spinOnce present poll) n x) \<or>
        fst (run_turn spinOnce present poll (after (run_turn spinOnce present poll) n x)) \<noteq> None"
       and xa = "((((loop_predicate, spinOnce), present), poll), x)", unfolded prod.case, OF _ assms])
  fix f loop_predicate spinOnce present poll x y
  let ?t = "run_turn spinOnce present poll"
  assume IH: "\<And>loop_predicate spinOnce present poll x y. f loop_predicate spinOnce present poll x = Some y \<Longrightarrow>
        \<exists>n. \<not> loop_predicate (after (run_turn spinOnce present poll) n x) \<or>
          fst (run_turn spinOnce present poll (after (run_turn spinOnce present poll) n x)) \<noteq> None"
    and "(if loop_predicate x then
        (case spinOnce x of
           (Inl what, x) \<Rightarrow> Some (Some what, x)
         | (Inr next_exec_time, x) \<Rightarrow>
             (case poll (loop_timeout next_exec_time (present x)) x of
                (Some what, x) \<Rightarrow> Some (Some what, x)
              | (None, x) \<Rightarrow> f loop_predicate spinOnce present poll x))
      else Some (None, x)) = Some y"
  then have eq: "(if loop_predicate x then (case ?t x of (Some what, x) \<Rightarrow> Some (Some what, x) | (None, x) \<Rightarrow> f loop_predicate spinOnce present poll x)
      else Some (None, x)) = Some y"
    by (auto simp: run_turn_def split: prod.splits sum.splits if_splits)
  show "\<exists>n. \<not> loop_predicate (after ?t n x) \<or> fst (?t (after ?t n x)) \<noteq> None"
  proof (cases "loop_predicate x \<and> fst (?t x) = None")
    case True
    then obtain x1 where x1: "?t x = (None, x1)" by (cases "?t x") simp
    with eq True have "f loop_predicate spinOnce present poll x1 = Some y" by simp
    from IH [OF this] obtain n where "\<not> loop_predicate (after ?t n x1) \<or> fst (?t (after ?t n x1)) \<noteq> None" by blast
    then show ?thesis by (intro exI [of _ "Suc n"]) (simp add: x1)
  next
    case False
    then show ?thesis by (intro exI [of _ 0]) simp
  qed
qed

subsection \<open>Running and ending\<close>

text \<open>Something the engine does, with the signals handled during it.\<close>

definition with_signals :: "('e \<Rightarrow> 'a \<times> 'e \<times> int list) \<Rightarrow> 'e \<times> 'p proc \<Rightarrow> 'a \<times> 'e \<times> 'p proc" where
  "with_signals f = (\<lambda>(e, p). let (r, e, sigs) = f e in (r, e, fold signalHandler sigs p))"

definition main_run ::
    "'r toml \<Rightarrow> 'k files \<Rightarrow> ('s \<times> 'r config_impl \<times> 'k \<Rightarrow> (string + int option) \<times> ('s \<times> 'r config_impl \<times> 'k) \<times> int list) \<Rightarrow>
     ('s \<times> 'r config_impl \<times> 'k \<Rightarrow> int) \<Rightarrow>
     (int \<Rightarrow> 's \<times> 'r config_impl \<times> 'k \<Rightarrow> string option \<times> ('s \<times> 'r config_impl \<times> 'k) \<times> int list) \<Rightarrow>
     ('s \<times> 'r config_impl \<times> 'k) \<times> 'p proc \<Rightarrow> (int \<times> ('s \<times> 'r config_impl \<times> 'k) \<times> 'p proc) option" where
  "main_run T F spinOnce present poll x =
     (case runWhile (\<lambda>(e, p). g_running p = 1) (with_signals spinOnce) (present \<circ> fst) (\<lambda>t. with_signals (poll t)) x of
        None \<Rightarrow> None
      | Some (None, (s, c, k), p) \<Rightarrow> (let (c, k) = save T F c k in Some (EXIT_SUCCESS, (s, c, k), p))
      | Some (Some what, e, p) \<Rightarrow> Some (EXIT_FAILURE, e, p))"

text \<open>One turn of the engine: the exception, the state after it, and the signals of the whole turn.\<close>

definition engine_turn ::
    "('e \<Rightarrow> (string + int option) \<times> 'e \<times> int list) \<Rightarrow> ('e \<Rightarrow> int) \<Rightarrow> (int \<Rightarrow> 'e \<Rightarrow> string option \<times> 'e \<times> int list) \<Rightarrow>
     'e \<Rightarrow> string option \<times> 'e \<times> int list" where
  "engine_turn spinOnce present poll e =
     (case spinOnce e of
        (Inl what, e, sigs) \<Rightarrow> (Some what, e, sigs)
      | (Inr next_exec_time, e, sigs) \<Rightarrow>
          (let (what, e, sigs') = poll (loop_timeout next_exec_time (present e)) e in (what, e, sigs @ sigs')))"

lemma run_turn_signals:
  "run_turn (with_signals spinOnce) (present \<circ> fst) (\<lambda>t. with_signals (poll t)) = with_signals (engine_turn spinOnce present poll)"
  by (rule ext) (auto simp: run_turn_def with_signals_def engine_turn_def split: prod.split sum.split)

definition stop_signal :: "int list \<Rightarrow> bool" where
  "stop_signal sigs \<longleftrightarrow> SIGTERM \<in> set sigs \<or> SIGINT \<in> set sigs"

lemma signals_handled: "fold signalHandler sigs p = (if stop_signal sigs then p\<lparr>g_running := 0\<rparr> else p)"
  by (induction sigs arbitrary: p) (auto simp: stop_signal_def signalHandler_def)

text \<open>The state of the engine before its turn \<open>n\<close>.\<close>

definition engine_at ::
    "('e \<Rightarrow> (string + int option) \<times> 'e \<times> int list) \<Rightarrow> ('e \<Rightarrow> int) \<Rightarrow> (int \<Rightarrow> 'e \<Rightarrow> string option \<times> 'e \<times> int list) \<Rightarrow>
     'e \<Rightarrow> nat \<Rightarrow> 'e" where
  "engine_at spinOnce present poll e n = ((\<lambda>e. fst (snd (engine_turn spinOnce present poll e))) ^^ n) e"

lemma engine_at_Suc: "engine_at spinOnce present poll e (Suc n) = fst (snd (engine_turn spinOnce present poll (engine_at spinOnce present poll e n)))"
  by (simp add: engine_at_def)

text \<open>A turn that neither throws nor sees a signal to stop.\<close>

definition uneventful :: "string option \<times> 'e \<times> int list \<Rightarrow> bool" where
  "uneventful = (\<lambda>(what, _, sigs). what = None \<and> \<not> stop_signal sigs)"

lemma uneventful_turns:
  assumes "\<forall>m < n. uneventful (engine_turn spinOnce present poll (engine_at spinOnce present poll e m))"
  shows "after (with_signals (engine_turn spinOnce present poll)) n (e, p) = (engine_at spinOnce present poll e n, p)"
  using assms
proof (induction n)
  case 0
  then show ?case by (simp add: engine_at_def)
next
  case (Suc n)
  then have "after (with_signals (engine_turn spinOnce present poll)) n (e, p) = (engine_at spinOnce present poll e n, p)"
    and "uneventful (engine_turn spinOnce present poll (engine_at spinOnce present poll e n))" by simp_all
  then show ?case
    by (auto simp: after_Suc engine_at_Suc with_signals_def uneventful_def signals_handled simp del: after_simps split: prod.splits)
qed

lemma main_run_turns:
  assumes "g_running p = 1" and "\<forall>m < n. uneventful (engine_turn spinOnce present poll (engine_at spinOnce present poll e m))"
  shows "main_run T F spinOnce present poll (e, p) = main_run T F spinOnce present poll (engine_at spinOnce present poll e n, p)"
proof -
  let ?t = "with_signals (engine_turn spinOnce present poll)"
  have at: "after ?t m (e, p) = (engine_at spinOnce present poll e m, p)" if "m \<le> n" for m
    using assms(2) that by (intro uneventful_turns) simp
  have "fst (?t (after ?t m (e, p))) = None" if "m < n" for m
    using assms(2) that at [of m] by (auto simp: with_signals_def uneventful_def split: prod.splits)
  then show ?thesis
    using runWhile_turns [of n "\<lambda>(e, p). g_running p = 1" "with_signals spinOnce" "present \<circ> fst" "\<lambda>t. with_signals (poll t)" "(e, p)"]
      at assms(1)
    by (simp add: main_run_def run_turn_signals)
qed

text \<open>The turn in which something happens is the last.\<close>

lemma main_run_last:
  assumes "g_running p = 1" and "engine_turn spinOnce present poll e = (what, (s, c, k), sigs)" and "what \<noteq> None \<or> stop_signal sigs"
  shows "main_run T F spinOnce present poll (e, p) = Some
    (case what of
       None \<Rightarrow> (EXIT_SUCCESS, (s, save T F c k), p\<lparr>g_running := 0\<rparr>)
     | Some _ \<Rightarrow> (EXIT_FAILURE, (s, c, k), if stop_signal sigs then p\<lparr>g_running := 0\<rparr> else p))"
proof -
  let ?W = "runWhile (\<lambda>(e, p). g_running p = 1) (with_signals spinOnce) (present \<circ> fst) (\<lambda>t. with_signals (poll t))"
  have turn: "with_signals (engine_turn spinOnce present poll) (e, p) = (what, (s, c, k), if stop_signal sigs then p\<lparr>g_running := 0\<rparr> else p)"
    by (simp add: with_signals_def assms(2) signals_handled)
  show ?thesis
  proof (cases what)
    case None
    have "?W (e, p) = Some (None, (s, c, k), p\<lparr>g_running := 0\<rparr>)"
      using assms(1,3) None runWhile_step [of "\<lambda>(e, p). g_running p = 1" _ _ _ "((s, c, k), p\<lparr>g_running := 0\<rparr>)"]
      by (subst runWhile_step) (simp add: run_turn_signals turn)
    with None show ?thesis by (simp add: main_run_def Let_def split: prod.split)
  next
    case (Some w)
    have "?W (e, p) = Some (Some w, (s, c, k), if stop_signal sigs then p\<lparr>g_running := 0\<rparr> else p)"
      using assms(1) Some by (subst runWhile_step) (simp add: run_turn_signals turn)
    with Some show ?thesis by (simp add: main_run_def)
  qed
qed

text \<open>
  C21. How a running daemon ends. The first turn of its loop in which \<open>SIGTERM\<close> or \<open>SIGINT\<close> is
  handled is the last one: if nothing was thrown in it, the daemon saves the configuration as that
  turn left it and ends with success. A turn in which an exception escapes is also the last: the
  daemon ends with failure, and the configuration is not saved. If neither ever happens, in no turn,
  the daemon does not end.
\<close>

theorem daemon_stops_on_signal:
  assumes "g_running p = 1"
  shows "(\<forall>n sigs s c k. (\<forall>m < n. uneventful (engine_turn spinOnce present poll (engine_at spinOnce present poll e m))) \<and>
        engine_turn spinOnce present poll (engine_at spinOnce present poll e n) = (None, (s, c, k), sigs) \<and>
        (SIGTERM \<in> set sigs \<or> SIGINT \<in> set sigs) \<longrightarrow>
        main_run T F spinOnce present poll (e, p) = Some (EXIT_SUCCESS, (s, save T F c k), p\<lparr>g_running := 0\<rparr>)) \<and>
    (\<forall>n what e' sigs. (\<forall>m < n. uneventful (engine_turn spinOnce present poll (engine_at spinOnce present poll e m))) \<and>
        engine_turn spinOnce present poll (engine_at spinOnce present poll e n) = (Some what, e', sigs) \<longrightarrow>
        (\<exists>p'. main_run T F spinOnce present poll (e, p) = Some (EXIT_FAILURE, e', p'))) \<and>
    ((\<forall>n. uneventful (engine_turn spinOnce present poll (engine_at spinOnce present poll e n))) \<longrightarrow>
        main_run T F spinOnce present poll (e, p) = None)"
proof (intro conjI allI impI)
  fix n sigs s c k
  assume "(\<forall>m < n. uneventful (engine_turn spinOnce present poll (engine_at spinOnce present poll e m))) \<and>
        engine_turn spinOnce present poll (engine_at spinOnce present poll e n) = (None, (s, c, k), sigs) \<and>
        (SIGTERM \<in> set sigs \<or> SIGINT \<in> set sigs)"
  then show "main_run T F spinOnce present poll (e, p) = Some (EXIT_SUCCESS, (s, save T F c k), p\<lparr>g_running := 0\<rparr>)"
    using main_run_turns [OF assms, of n spinOnce present poll e T F] main_run_last [OF assms] by (fastforce simp: stop_signal_def)
next
  fix n what e' sigs
  assume "(\<forall>m < n. uneventful (engine_turn spinOnce present poll (engine_at spinOnce present poll e m))) \<and>
        engine_turn spinOnce present poll (engine_at spinOnce present poll e n) = (Some what, e', sigs)"
  then show "\<exists>p'. main_run T F spinOnce present poll (e, p) = Some (EXIT_FAILURE, e', p')"
    using main_run_turns [OF assms, of n spinOnce present poll e T F] main_run_last [OF assms] by (cases e') fastforce
next
  assume quiet: "\<forall>n. uneventful (engine_turn spinOnce present poll (engine_at spinOnce present poll e n))"
  let ?t = "with_signals (engine_turn spinOnce present poll)"
  have at: "after ?t n (e, p) = (engine_at spinOnce present poll e n, p)" for n
    using quiet by (intro uneventful_turns) simp
  moreover have "fst (?t (engine_at spinOnce present poll e n, p)) = None" for n
    using quiet [rule_format, of n] by (auto simp: with_signals_def uneventful_def split: prod.splits)
  ultimately have "runWhile (\<lambda>(e, p). g_running p = 1) (with_signals spinOnce) (present \<circ> fst) (\<lambda>t. with_signals (poll t)) (e, p) = None"
    using runWhile_ended [of "\<lambda>(e, p). g_running p = 1" "with_signals spinOnce" "present \<circ> fst" "\<lambda>t. with_signals (poll t)" "(e, p)"] assms
    by (cases "runWhile (\<lambda>(e, p). g_running p = 1) (with_signals spinOnce) (present \<circ> fst) (\<lambda>t. with_signals (poll t)) (e, p)")
       (auto simp: run_turn_signals)
  then show "main_run T F spinOnce present poll (e, p) = None" by (simp add: main_run_def)
qed

text \<open>
  An engine that counts its turns and follows a script of exceptions and signals, over a changed
  configuration: one that gets another signal and then a \<open>SIGTERM\<close> in its second turn, one in which
  something is thrown there, and one in which nothing happens.
\<close>

definition scripted_poll ::
    "(nat \<Rightarrow> string option \<times> int list) \<Rightarrow> int \<Rightarrow> nat \<times> bool config_impl \<times> string \<Rightarrow>
     string option \<times> (nat \<times> bool config_impl \<times> string) \<times> int list" where
  "scripted_poll script t = (\<lambda>(n, c, k). (fst (script n), (n + 1, c, k), snd (script n)))"

definition run_config :: "bool config_impl" where
  "run_config = \<lparr>file_path = ''ocvsmd.toml'', toml_root = True, ci_is_dirty = True\<rparr>"

abbreviation idle_spin :: "nat \<times> bool config_impl \<times> string \<Rightarrow> (string + int option) \<times> (nat \<times> bool config_impl \<times> string) \<times> int list" where
  "idle_spin e \<equiv> (Inr None, e, [])"

lemma scripted_turn:
  "engine_turn idle_spin (\<lambda>_. 0) (scripted_poll script) (n, c, k) = (fst (script n), (n + 1, c, k), snd (script n))"
  by (simp add: engine_turn_def scripted_poll_def)

lemma scripted_at: "engine_at idle_spin (\<lambda>_. 0) (scripted_poll script) (0, c, k) n = (n, c, k)"
  by (induction n) (simp_all add: engine_at_Suc scripted_turn, simp add: engine_at_def)

theorem daemon_stops_on_signal_witness:
  "main_run sample_toml sample_files idle_spin (\<lambda>_. 0) (scripted_poll (\<lambda>n. (None, if n = 1 then [1, SIGTERM] else [])))
     ((0, run_config, ''no''), busy_proc) =
     Some (EXIT_SUCCESS, (2, run_config\<lparr>ci_is_dirty := False\<rparr>, ''yes''), busy_proc\<lparr>g_running := 0\<rparr>) \<and>
   (\<exists>p'. main_run sample_toml sample_files idle_spin (\<lambda>_. 0) (scripted_poll (\<lambda>n. (if n = 1 then Some ''bad'' else None, [])))
     ((0, run_config, ''no''), busy_proc) = Some (EXIT_FAILURE, (2, run_config, ''no''), p')) \<and>
   main_run sample_toml sample_files idle_spin (\<lambda>_. 0) (scripted_poll (\<lambda>n. (None, [1]))) ((0, run_config, ''no''), busy_proc) = None"
proof (intro conjI)
  note run = daemon_stops_on_signal [where p = busy_proc and spinOnce = idle_spin and present = "\<lambda>_. 0"
      and e = "(0, run_config, ''no'')" and T = sample_toml and F = sample_files]
  note eval = scripted_at scripted_turn uneventful_def stop_signal_def
  have busy: "g_running busy_proc = 1" by (simp add: busy_proc_def)
  have saved: "save sample_toml sample_files run_config ''no'' = (run_config\<lparr>ci_is_dirty := False\<rparr>, ''yes'')"
    by (simp add: save_def sample_toml_def sample_files_def run_config_def Let_def)
  show "main_run sample_toml sample_files idle_spin (\<lambda>_. 0) (scripted_poll (\<lambda>n. (None, if n = 1 then [1, SIGTERM] else [])))
     ((0, run_config, ''no''), busy_proc) =
     Some (EXIT_SUCCESS, (2, run_config\<lparr>ci_is_dirty := False\<rparr>, ''yes''), busy_proc\<lparr>g_running := 0\<rparr>)"
    using run [where poll = "scripted_poll (\<lambda>n. (None, if n = 1 then [1, SIGTERM] else []))", OF busy, THEN conjunct1, rule_format,
        where n = 1 and s = 2 and c = run_config and k = "''no''" and sigs = "[1, SIGTERM]"] saved
    by (simp add: eval)
  show "\<exists>p'. main_run sample_toml sample_files idle_spin (\<lambda>_. 0) (scripted_poll (\<lambda>n. (if n = 1 then Some ''bad'' else None, [])))
     ((0, run_config, ''no''), busy_proc) = Some (EXIT_FAILURE, (2, run_config, ''no''), p')"
    using run [where poll = "scripted_poll (\<lambda>n. (if n = 1 then Some ''bad'' else None, []))", OF busy, THEN conjunct2, THEN conjunct1, rule_format,
        where n = 1 and what = "''bad''" and e' = "(2, run_config, ''no'')" and sigs = "[]"]
    by (simp add: eval)
  show "main_run sample_toml sample_files idle_spin (\<lambda>_. 0) (scripted_poll (\<lambda>n. (None, [1]))) ((0, run_config, ''no''), busy_proc) = None"
    using run [where poll = "scripted_poll (\<lambda>n. (None, [1]))", OF busy, THEN conjunct2, THEN conjunct2, rule_format]
    by (simp add: eval)
qed

end
