(* ===== verification/Logging_Setup.thy ===== *)
theory Logging_Setup
  imports Daemon_Main Config_File
begin

text \<open>
  The part of daemon/setup_logging.hpp and cli/setup_logging.hpp that decides something: where the
  daemon logs to, which loggers there are, and at which level each is flushed. The logging library
  is an argument: splitting a list of \<open>name=level\<close>, lower case, the level of a name (\<open>off\<close> if it is
  none), and the flush level a new logger has.
\<close>

record 'l spdlog =
  extract_key_vals :: "string \<Rightarrow> (string \<times> string) list"
  to_lower :: "string \<Rightarrow> string"
  level_from_str :: "string \<Rightarrow> 'l"
  level_off :: 'l
  initial_flush_level :: 'l

text \<open>The default logger is registered under the empty name.\<close>

record 'l loggers =
  default_flush_level :: 'l
  flush_levels :: "string \<rightharpoonup> 'l"

definition flush_on :: "string \<Rightarrow> 'l \<Rightarrow> 'l loggers \<Rightarrow> 'l loggers" where
  "flush_on logger_name level g =
     (if logger_name = [] then g\<lparr>default_flush_level := level\<rparr>
      else case flush_levels g logger_name of None \<Rightarrow> g
        | Some _ \<Rightarrow> g\<lparr>flush_levels := (flush_levels g)(logger_name \<mapsto> level)\<rparr>)"

definition load_name_level :: "'l spdlog \<Rightarrow> string \<times> string \<Rightarrow> 'l loggers \<Rightarrow> 'l loggers" where
  "load_name_level L = (\<lambda>(logger_name, level_name) g.
     let level_name = to_lower L level_name; level = level_from_str L level_name
     in if level = level_off L \<and> level_name \<noteq> ''off'' then g else flush_on logger_name level g)"

definition max_levels_len :: nat where "max_levels_len = 512"

definition loadFlushLevels :: "'l spdlog \<Rightarrow> string \<Rightarrow> 'l loggers \<Rightarrow> 'l loggers" where
  "loadFlushLevels L levels g =
     (if levels = [] \<or> max_levels_len < length levels then g
      else let key_vals = extract_key_vals L levels;
               g = fold (load_name_level L) key_vals g;
               default_level = default_flush_level g
        in g\<lparr>flush_levels := (\<lambda>name. if name \<notin> fst ` set key_vals
               then map_option (\<lambda>_. default_level) (flush_levels g name) else flush_levels g name)\<rparr>)"

definition loadArgvFlushLevels :: "'l spdlog \<Rightarrow> string list \<Rightarrow> 'l loggers \<Rightarrow> 'l loggers" where
  "loadArgvFlushLevels L argv g =
     fold (\<lambda>arg_str g. if starts_with ''SPDLOG_FLUSH_LEVEL='' arg_str
        then loadFlushLevels L (drop (length ''SPDLOG_FLUSH_LEVEL='') arg_str) g else g) (tl argv) g"

definition log_file_path :: "bool \<Rightarrow> string option \<Rightarrow> string" where
  "log_file_path is_daemonized logging_file =
     (case logging_file of Some path \<Rightarrow> path
      | None \<Rightarrow> (if is_daemonized then ''/var/log/'' else ''./'') @ ''ocvsmd'' @ ''.log'')"

definition fresh_loggers :: "'l spdlog \<Rightarrow> string list \<Rightarrow> 'l loggers" where
  "fresh_loggers L names =
     \<lparr>default_flush_level = initial_flush_level L, flush_levels = (\<lambda>n. if n \<in> set names then Some (initial_flush_level L) else None)\<rparr>"

definition daemon_loggers :: "'l spdlog \<Rightarrow> 'r toml \<Rightarrow> 'r config_impl \<Rightarrow> string list \<Rightarrow> 'l loggers" where
  "daemon_loggers L T config argv =
     (let g = fresh_loggers L [''io'', ''ipc'', ''engine''];
          g = (case getLoggingFlushLevel T config of None \<Rightarrow> g | Some levels \<Rightarrow> loadFlushLevels L levels g)
      in loadArgvFlushLevels L argv g)"

definition cli_loggers :: "'l spdlog \<Rightarrow> string list \<Rightarrow> 'l loggers" where
  "cli_loggers L argv = loadArgvFlushLevels L argv (fresh_loggers L [''io'', ''ipc'', ''sdk'', ''svc''])"

subsection \<open>What a list of levels does\<close>

text \<open>No logger comes or goes.\<close>

lemma load_name_level_dom: "dom (flush_levels (load_name_level L kv g)) = dom (flush_levels g)"
  by (auto simp: load_name_level_def flush_on_def Let_def split: prod.splits option.splits if_splits)

lemma fold_load_dom: "dom (flush_levels (fold (load_name_level L) kvs g)) = dom (flush_levels g)"
  by (induction kvs arbitrary: g) (simp_all add: load_name_level_dom)

lemma loadFlushLevels_dom: "dom (flush_levels (loadFlushLevels L levels g)) = dom (flush_levels g)"
  using fold_load_dom [of L "extract_key_vals L levels" g]
  by (auto simp: loadFlushLevels_def Let_def dom_def)

text \<open>
  A logger that the list does not name gets the level of the default logger, whatever an earlier
  list (that of the configuration file, or of an earlier argument) had set for it.
\<close>

lemma unnamed_logger_is_reset:
  assumes "levels \<noteq> []" and "length levels \<le> max_levels_len"
    and "name \<notin> fst ` set (extract_key_vals L levels)" and "flush_levels g name \<noteq> None"
  shows "flush_levels (loadFlushLevels L levels g) name = Some (default_flush_level (loadFlushLevels L levels g))"
proof -
  have "name \<in> dom (flush_levels (fold (load_name_level L) (extract_key_vals L levels) g))"
    unfolding fold_load_dom using assms(4) by blast
  with assms(1-3) show ?thesis by (auto simp: loadFlushLevels_def Let_def)
qed

text \<open>A list that is empty or longer than 512 characters is ignored.\<close>

lemma long_list_ignored: "max_levels_len < length levels \<Longrightarrow> loadFlushLevels L levels g = g"
  by (simp add: loadFlushLevels_def)

subsection \<open>Sinks and levels\<close>

text \<open>
  \<open>setupLogging\<close> of both programs. The levels at which loggers write are a state \<open>'v\<close> of the
  library, which parses their lists itself; \<open>open_log_file\<close> is the text of the exception, if the file
  of a rotating sink cannot be opened. A sink is what it was made with and its pattern. \<open>file_lines\<close>
  is what goes into the log file at once.
\<close>

abbreviation LOG_PID :: int where "LOG_PID \<equiv> 1"
abbreviation LOG_USER :: int where "LOG_USER \<equiv> 8"
abbreviation LOG_DAEMON :: int where "LOG_DAEMON \<equiv> 24"

record ('l, 'v) log_system =
  flush_library :: "'l spdlog"
  initial_levels :: 'v
  load_levels :: "string \<Rightarrow> 'v \<Rightarrow> 'v"
  load_argv_levels :: "string list \<Rightarrow> 'v \<Rightarrow> 'v"
  default_logs_info :: "'v \<Rightarrow> bool"
  open_log_file :: "string \<Rightarrow> string option"

datatype log_sink = RotatingFile string nat nat string | Syslog string int int bool string

record ('l, 'v) logging =
  logger_sinks :: "(string \<times> log_sink list) list"
  logger_levels :: 'v
  logger_flush :: "'l loggers"
  file_lines :: "string list"

definition log_file_max_size :: nat where "log_file_max_size = 16 * 1048576"
definition log_files_max :: nat where "log_files_max = 4"

definition file_sink :: "string \<Rightarrow> log_sink" where
  "file_sink path = RotatingFile path log_file_max_size log_files_max ''[%Y-%m-%d %H:%M:%S.%e] [%P] [%n] [%l] %v''"

definition syslog_sink :: "bool \<Rightarrow> log_sink" where
  "syslog_sink is_daemonized =
     Syslog ''ocvsmd'' LOG_PID (if is_daemonized then LOG_DAEMON else LOG_USER) True (''[%l] '' @ [CHR 0x27] @ ''%n'' @ [CHR 0x27] @ '' | %v'')"

definition separator_line :: string where "separator_line = ''--------------------------''"

definition daemon_setupLogging ::
    "('l, 'v) log_system \<Rightarrow> 'r toml \<Rightarrow> bool \<Rightarrow> string list \<Rightarrow> 'r config_impl \<Rightarrow> string + ('l, 'v) logging" where
  "daemon_setupLogging G T is_daemonized argv config =
     (let path = log_file_path is_daemonized (getLoggingFile T config)
      in case open_log_file G path of
           Some what \<Rightarrow> Inl what
         | None \<Rightarrow>
             (let levels = (case getLoggingLevel T config of None \<Rightarrow> initial_levels G | Some l \<Rightarrow> load_levels G l (initial_levels G));
                  levels = load_argv_levels G argv levels
              in Inr \<lparr>logger_sinks = ([], [syslog_sink is_daemonized, file_sink path]) #
                        map (\<lambda>n. (n, [file_sink path])) [''io'', ''ipc'', ''engine''],
                      logger_levels = levels,
                      logger_flush = daemon_loggers (flush_library G) T config argv,
                      file_lines = (if default_logs_info G levels then [separator_line] else [])\<rparr>))"

definition cli_setupLogging :: "('l, 'v) log_system \<Rightarrow> string list \<Rightarrow> string + ('l, 'v) logging" where
  "cli_setupLogging G argv =
     (let path = ''./'' @ ''ocvsmd-cli'' @ ''.log''
      in case open_log_file G path of
           Some what \<Rightarrow> Inl what
         | None \<Rightarrow>
             (let levels = load_argv_levels G argv (initial_levels G)
              in Inr \<lparr>logger_sinks = map (\<lambda>n. (n, [file_sink path])) [[], ''io'', ''ipc'', ''sdk'', ''svc''],
                      logger_levels = levels,
                      logger_flush = cli_loggers (flush_library G) argv,
                      file_lines = (if default_logs_info G levels then [separator_line] else [])\<rparr>))"

text \<open>
  Every logger that has a flush level has sinks and the other way round, the default one apart; in the
  daemon only the default logger writes to syslog, and all of them to the one file.
\<close>

lemma loadArgvFlushLevels_dom: "dom (flush_levels (loadArgvFlushLevels L argv g)) = dom (flush_levels g)"
proof -
  have "dom (flush_levels (fold (\<lambda>arg_str g. if starts_with p arg_str then loadFlushLevels L (drop n arg_str) g else g) args g)) =
      dom (flush_levels g)" for p n args
    by (induction args arbitrary: g) (simp_all add: loadFlushLevels_dom)
  then show ?thesis by (simp add: loadArgvFlushLevels_def)
qed

lemma fresh_loggers_dom: "dom (flush_levels (fresh_loggers L names)) = set names"
  by (auto simp: fresh_loggers_def split: if_splits)

lemma daemon_loggers_dom: "dom (flush_levels (daemon_loggers L T config argv)) = {''io'', ''ipc'', ''engine''}"
  by (simp add: daemon_loggers_def Let_def loadArgvFlushLevels_dom loadFlushLevels_dom fresh_loggers_dom split: option.split)

lemma cli_loggers_dom: "dom (flush_levels (cli_loggers L argv)) = {''io'', ''ipc'', ''sdk'', ''svc''}"
  by (simp add: cli_loggers_def loadArgvFlushLevels_dom fresh_loggers_dom)

lemma daemon_setupLogging_Inr:
  assumes "daemon_setupLogging G T is_daemonized argv config = Inr g"
  shows "logger_sinks g =
      ([], [syslog_sink is_daemonized, file_sink (log_file_path is_daemonized (getLoggingFile T config))]) #
      map (\<lambda>n. (n, [file_sink (log_file_path is_daemonized (getLoggingFile T config))])) [''io'', ''ipc'', ''engine'']"
    and "logger_flush g = daemon_loggers (flush_library G) T config argv"
  using assms by (auto simp: daemon_setupLogging_def Let_def split: option.splits)

lemma cli_setupLogging_Inr:
  assumes "cli_setupLogging G argv = Inr g"
  shows "logger_sinks g = map (\<lambda>n. (n, [file_sink ''./ocvsmd-cli.log''])) [[], ''io'', ''ipc'', ''sdk'', ''svc'']"
    and "logger_flush g = cli_loggers (flush_library G) argv"
  using assms by (auto simp: cli_setupLogging_def Let_def split: option.splits)

lemma daemon_logging_shape:
  assumes "daemon_setupLogging G T is_daemonized argv config = Inr g"
  shows "fst ` set (logger_sinks g) = insert [] (dom (flush_levels (logger_flush g)))"
    and "(name, sinks) \<in> set (logger_sinks g) \<Longrightarrow> syslog_sink d \<in> set sinks \<longleftrightarrow> name = [] \<and> d = is_daemonized"
    and "(name, sinks) \<in> set (logger_sinks g) \<Longrightarrow>
      file_sink (log_file_path is_daemonized (getLoggingFile T config)) \<in> set sinks"
proof -
  have "syslog_sink d = syslog_sink is_daemonized \<longleftrightarrow> d = is_daemonized" "syslog_sink d \<noteq> file_sink path" for path
    by (simp_all add: syslog_sink_def file_sink_def)
  then show "(name, sinks) \<in> set (logger_sinks g) \<Longrightarrow> syslog_sink d \<in> set sinks \<longleftrightarrow> name = [] \<and> d = is_daemonized"
    by (auto simp: daemon_setupLogging_Inr [OF assms])
qed (auto simp: daemon_setupLogging_Inr [OF assms] daemon_loggers_dom)

lemma cli_logging_shape:
  assumes "cli_setupLogging G argv = Inr g"
  shows "fst ` set (logger_sinks g) = insert [] (dom (flush_levels (logger_flush g)))"
    and "(name, sinks) \<in> set (logger_sinks g) \<Longrightarrow> sinks = [file_sink ''./ocvsmd-cli.log'']"
  by (auto simp: cli_setupLogging_Inr [OF assms] cli_loggers_dom)

text \<open>
  The failure that \<open>main\<close> reports. A daemon that cannot open its log file ends before its engine is
  made, with two texts on the descriptor on which the first process listens.
\<close>

definition logging_failure ::
    "('l, 'v) log_system \<Rightarrow> 'r toml \<Rightarrow> bool \<Rightarrow> string list \<Rightarrow> 'r config_impl \<Rightarrow> string option" where
  "logging_failure G T is_daemonized argv config =
     (case daemon_setupLogging G T is_daemonized argv config of Inl what \<Rightarrow> Some what | Inr _ \<Rightarrow> None)"

lemma no_log_file_ends_main:
  assumes "make_config (config_file_path (should_daemonize argv) argv) = Inr config"
    and "open_log_file G (log_file_path (should_daemonize argv) (getLoggingFile T config)) = Some what"
  shows "main_init P make_config (logging_failure G T (should_daemonize argv) argv) engine_init argv fd p =
    (Some EXIT_FAILURE, p\<lparr>written := written p @ [(fd, ''Failed to setup logging: ''), (fd, what)]\<rparr>)"
  using assms by (simp add: main_init_def loadConfig_def setupLogging_def logging_failure_def daemon_setupLogging_def
      and_then_def writeString_def Let_def)

end
