(* ===== verification/Cli_Main.thy ===== *)
theory Cli_Main
  imports Sdk_Daemon Daemon_Life Logging_Setup
begin

text \<open>
  The command line client, src/cli/main.cpp: the SDK's operations composed into a program that has
  three nodes update their software and waits for the outcome. The executor and the kernel are
  arguments as before; what it writes to \<open>cerr\<close> is a list of texts, and what it logs about the outcome
  a list of entries. Their formatting is left out, and so are exceptions (of an allocation or of the
  executor), which \<open>main\<close> catches and turns into the exit code of a failure.
\<close>

datatype cli_entry = CommandFailed int | NodeResponded u16 u8

definition ipc_connection :: "string option \<Rightarrow> string" where
  "ipc_connection env_connection_str =
     (case env_connection_str of None \<Rightarrow> ''unix-abstract:org.opencyphal.ocvsmd.ipc'' | Some s \<Rightarrow> s)"

definition cli_report :: "command_result \<Rightarrow> cli_entry list" where
  "cli_report cmd_result =
     (case cmd_result of Failure err \<Rightarrow> [CommandFailed err]
      | Success responds \<Rightarrow> map (\<lambda>(node, respond). NodeResponded node (nr_status respond)) responds)"

text \<open>
  The exit code, the texts and the entries. A null router (a parse error of 0) is not survived; the
  default timeout is a second. \<open>full_name\<close> is the name of the generated request type.
\<close>

definition cli_main ::
    "inet_pton \<Rightarrow> 'k posix \<Rightarrow> 'k socket_client sdk_params \<Rightarrow> (string \<Rightarrow> u64) \<Rightarrow> string \<Rightarrow>
     ('e \<times> 'k socket_client sdk \<Rightarrow> int option \<times> 'e \<times> 'k socket_client sdk) \<Rightarrow> ('e \<times> 'k socket_client sdk \<Rightarrow> int) \<Rightarrow>
     (int \<Rightarrow> 'e \<times> 'k socket_client sdk \<Rightarrow> 'e \<times> 'k socket_client sdk) \<Rightarrow> ('l, 'v) log_system \<Rightarrow>
     string list \<Rightarrow> string option \<Rightarrow> 'e \<Rightarrow> 'k \<Rightarrow> (int \<times> string list \<times> cli_entry list) option" where
  "cli_main pton P X crc64 full_name spinOnce present poll G argv env_connection_str e k =
     (case cli_setupLogging G argv of
        Inl what \<Rightarrow> Some (EXIT_FAILURE, [''Failed to setup logging: '', what, [CHR 0x0A]], [])
      | Inr _ \<Rightarrow>
     (case Daemon_make pton P (ipc_connection env_connection_str) k of
        None \<Rightarrow> None
      | Some (Inl _) \<Rightarrow> Some (EXIT_FAILURE, [''Failed to create daemon.''], [])
      | Some (Inr (Inl _)) \<Rightarrow> None
      | Some (Inr (Inr daemon)) \<Rightarrow>
          (let (sender, w) = beginSoftwareUpdate crc64 full_name [42, 43, 44] (map of_char ''firmware.bin'') 1000000 daemon
           in case sync_wait X spinOnce present poll sender 0 (e, w) of
                None \<Rightarrow> None
              | Some (cmd_result, _) \<Rightarrow> Some (EXIT_SUCCESS, [], cli_report cmd_result))))"

text \<open>
  The exit code says only whether the log and the SDK could be started, and exactly then there is
  nothing on \<open>cerr\<close>: a command that failed exits with success. And the flag that the program's
  signal handler clears is not looked at while it waits.
\<close>

lemma cli_exit_code:
  assumes "cli_main pton P X crc64 full_name spinOnce present poll G argv env e k = Some (code, texts, entries)"
  shows "code = EXIT_FAILURE \<longleftrightarrow> open_log_file G ''./ocvsmd-cli.log'' \<noteq> None \<or>
      (\<exists>k'. Daemon_make pton P (ipc_connection env) k = Some (Inl k'))"
    and "texts = [] \<longleftrightarrow> code = EXIT_SUCCESS"
    and "CommandFailed err \<in> set entries \<Longrightarrow> code = EXIT_SUCCESS"
proof -
  have "(\<exists>what. cli_setupLogging G argv = Inl what) \<longleftrightarrow> open_log_file G ''./ocvsmd-cli.log'' \<noteq> None"
    by (auto simp: cli_setupLogging_def Let_def split: option.splits)
  with assms show "code = EXIT_FAILURE \<longleftrightarrow> open_log_file G ''./ocvsmd-cli.log'' \<noteq> None \<or>
      (\<exists>k'. Daemon_make pton P (ipc_connection env) k = Some (Inl k'))"
    by (auto simp: cli_main_def split: option.splits sum.splits prod.splits)
qed (use assms in \<open>auto simp: cli_main_def split: option.splits sum.splits prod.splits\<close>)

end
