(* ===== verification/Loggers.thy ===== *)
theory Loggers
  imports Prelude
begin

text \<open>
  Named loggers (src/common/logging.hpp) and the wrapper that lets no exception out
  (src/common/common_helpers.hpp). The logging library is an argument: its registry and its loggers
  are a state \<open>'s\<close>, a logger is an identity \<open>'g\<close>. An exception is its text.
\<close>

record ('s, 'g) logging_library =
  registered_logger :: "string \<Rightarrow> 's \<Rightarrow> 'g option"
  default_logger :: "'s \<Rightarrow> 'g"
  clone_logger :: "string \<Rightarrow> 'g \<Rightarrow> 's \<Rightarrow> 'g \<times> 's"
  apply_logger_env_levels :: "'g \<Rightarrow> 's \<Rightarrow> 's"
  register_logger :: "'g \<Rightarrow> 's \<Rightarrow> string option \<times> 's"
  log_error :: "'g \<Rightarrow> string \<Rightarrow> 's \<Rightarrow> 's"
  log_critical :: "string \<Rightarrow> 's \<Rightarrow> 's"

definition performWithoutThrowing ::
    "('s, 'g) logging_library \<Rightarrow> ('s \<Rightarrow> string option \<times> 's) \<Rightarrow> 's \<Rightarrow> bool \<times> 's" where
  "performWithoutThrowing L action s =
     (case action s of
        (None, s) \<Rightarrow> (True, s)
      | (Some what, s) \<Rightarrow> (False, log_critical L (''Unexpected C++ exception is caught: '' @ what) s))"

definition getLogger :: "('s, 'g) logging_library \<Rightarrow> string \<Rightarrow> 's \<Rightarrow> 'g \<times> 's" where
  "getLogger L name s =
     (case registered_logger L name s of
        Some logger \<Rightarrow> (logger, s)
      | None \<Rightarrow>
          (let (logger, s) = clone_logger L name (default_logger L s) s;
               s = apply_logger_env_levels L logger s;
               (_, s) = performWithoutThrowing L (register_logger L logger) s
           in (logger, s)))"

text \<open>
  What the library promises: only registering touches the registry; it throws exactly if the name of
  the logger, the one given to \<open>clone\<close>, is taken, and then changes nothing in it.
\<close>

definition logging_laws :: "('s, 'g) logging_library \<Rightarrow> ('g \<Rightarrow> string) \<Rightarrow> bool" where
  "logging_laws L name_of \<longleftrightarrow>
     (\<forall>n g s. name_of (fst (clone_logger L n g s)) = n) \<and>
     (\<forall>n g s m. registered_logger L m (snd (clone_logger L n g s)) = registered_logger L m s) \<and>
     (\<forall>g s m. registered_logger L m (apply_logger_env_levels L g s) = registered_logger L m s) \<and>
     (\<forall>g t s m. registered_logger L m (log_error L g t s) = registered_logger L m s) \<and>
     (\<forall>t s m. registered_logger L m (log_critical L t s) = registered_logger L m s) \<and>
     (\<forall>g s. (fst (register_logger L g s) = None) = (registered_logger L (name_of g) s = None)) \<and>
     (\<forall>g s m. registered_logger L m (snd (register_logger L g s)) =
        (if registered_logger L (name_of g) s = None \<and> m = name_of g then Some g else registered_logger L m s))"

lemma logging_lawsD:
  assumes "logging_laws L name_of"
  shows "name_of (fst (clone_logger L n g s)) = n"
    and "registered_logger L m (snd (clone_logger L n g s)) = registered_logger L m s"
    and "registered_logger L m (apply_logger_env_levels L g s) = registered_logger L m s"
    and "registered_logger L m (log_error L g t s) = registered_logger L m s"
    and "registered_logger L m (log_critical L t s) = registered_logger L m s"
    and "fst (register_logger L g s) = None \<longleftrightarrow> registered_logger L (name_of g) s = None"
    and "registered_logger L m (snd (register_logger L g s)) =
      (if registered_logger L (name_of g) s = None \<and> m = name_of g then Some g else registered_logger L m s)"
  using assms unfolding logging_laws_def by simp_all

lemma performWithoutThrowing_iff:
  "fst (performWithoutThrowing L action s) \<longleftrightarrow> fst (action s) = None"
  by (simp add: performWithoutThrowing_def split: prod.split option.split)

text \<open>
  A logger is made once per name: afterwards the name is registered, under the logger that was
  given out, no other name is affected, and asking again gives the same one and changes nothing.
\<close>

lemma getLogger_registers:
  assumes "logging_laws L name_of" and "getLogger L name s = (g, s')"
  shows "registered_logger L m s' = (if m = name then Some g else registered_logger L m s)"
proof (cases "registered_logger L name s")
  case None
  obtain s1 where s1: "clone_logger L name (default_logger L s) s = (g, s1)"
    using assms(2) None by (auto simp: getLogger_def split: prod.splits)
  define s2 where "s2 = apply_logger_env_levels L g s1"
  have reg: "registered_logger L n s2 = registered_logger L n s" for n
    using logging_lawsD(2,3) [OF assms(1)] s1 by (metis s2_def snd_conv)
  have "name_of g = name" using logging_lawsD(1) [OF assms(1), of name] s1 by (metis fst_conv)
  with None reg logging_lawsD(6) [OF assms(1), of g s2] logging_lawsD(7) [OF assms(1), of _ g s2]
  have "fst (register_logger L g s2) = None"
    and "registered_logger L n (snd (register_logger L g s2)) = (if n = name then Some g else registered_logger L n s)" for n
    by simp_all
  with assms(2) None s1 show ?thesis
    by (auto simp: getLogger_def performWithoutThrowing_def Let_def s2_def [symmetric] split: prod.splits option.splits)
qed (use assms(2) in \<open>auto simp: getLogger_def\<close>)

lemma getLogger_again:
  assumes "logging_laws L name_of" and "getLogger L name s = (g, s')"
  shows "getLogger L name s' = (g, s')"
  using getLogger_registers [OF assms, of name] by (simp add: getLogger_def)

text \<open>A library with these laws: a logger is its name, the lines are kept in one list.\<close>

definition sample_logging :: "(string list \<times> string list, string) logging_library" where
  "sample_logging = \<lparr>
     registered_logger = (\<lambda>n (names, lines). if n \<in> set names then Some n else None),
     default_logger = (\<lambda>_. []),
     clone_logger = (\<lambda>n _ s. (n, s)),
     apply_logger_env_levels = (\<lambda>_ s. s),
     register_logger = (\<lambda>n (names, lines). if n \<in> set names then (Some ''exists'', (names, lines)) else (None, (n # names, lines))),
     log_error = (\<lambda>_ t (names, lines). (names, lines @ [t])),
     log_critical = (\<lambda>t (names, lines). (names, lines @ [t]))\<rparr>"

lemma sample_logging_laws: "logging_laws sample_logging (\<lambda>n. n)"
  by (simp add: logging_laws_def sample_logging_def split_def)

end
