(* ===== verification/Transport_Reports.thy ===== *)
theory Transport_Reports
  imports Loggers
begin

text \<open>
  src/daemon/engine/cyphal/transport_helpers.hpp: how failures of the Cyphal library are described
  and the reporters of transient errors for both transports. The alternatives of the report variants
  are those for which the code has a \<open>log\<close>; \<open>{}\<close> of a number is an argument.
\<close>

datatype any_failure =
    ArgumentError
  | MemoryError
  | AnonymousError
  | CapacityError
  | AlreadyExistsError
  | PlatformError u32

type_synonym number_format = "nat \<Rightarrow> string"

fun describeError :: "number_format \<Rightarrow> any_failure \<Rightarrow> string" where
  "describeError fmt ArgumentError = ''ArgumentError''"
| "describeError fmt MemoryError = ''MemoryError''"
| "describeError fmt AnonymousError = ''AnonymousError''"
| "describeError fmt CapacityError = ''CapacityError''"
| "describeError fmt AlreadyExistsError = ''AlreadyExistsError''"
| "describeError fmt (PlatformError code) = ''PlatformError(code='' @ fmt (unat code) @ '')''"

subsection \<open>The CAN transport\<close>

datatype can_report =
    CanardTxPush nat any_failure
  | CanardRxAccept nat any_failure
  | MediaPop nat any_failure
  | ConfigureMedia any_failure
  | MediaConfig nat any_failure
  | MediaPush nat any_failure

fun can_report_line :: "number_format \<Rightarrow> can_report \<Rightarrow> string" where
  "can_report_line fmt (CanardTxPush media_index failure) =
     ''Failed to push TX frame to canard (mediaIdx='' @ fmt media_index @ ''): '' @ describeError fmt failure @ ''.''"
| "can_report_line fmt (CanardRxAccept media_index failure) =
     ''Failed to accept RX frame at canard (mediaIdx='' @ fmt media_index @ ''): '' @ describeError fmt failure @ ''.''"
| "can_report_line fmt (MediaPop media_index failure) =
     ''Failed to pop frame from media (mediaIdx='' @ fmt media_index @ ''): '' @ describeError fmt failure @ ''.''"
| "can_report_line fmt (ConfigureMedia failure) =
     ''Failed to configure CAN: '' @ describeError fmt failure @ ''.''"
| "can_report_line fmt (MediaConfig media_index failure) =
     ''Failed to configure media (mediaIdx='' @ fmt media_index @ ''): '' @ describeError fmt failure @ ''.''"
| "can_report_line fmt (MediaPush media_index failure) =
     ''Failed to push frame to media (mediaIdx='' @ fmt media_index @ ''): '' @ describeError fmt failure @ ''.''"

text \<open>The call operator: a line for the logger, and no failure for the transport.\<close>

definition CanTransientErrorReporter ::
    "('s, 'g) logging_library \<Rightarrow> number_format \<Rightarrow> 'g \<Rightarrow> can_report \<Rightarrow> 's \<Rightarrow> any_failure option \<times> 's" where
  "CanTransientErrorReporter L fmt logger report s = (None, log_error L logger (can_report_line fmt report) s)"

subsection \<open>The UDP transport\<close>

datatype udp_report =
    UdpardTxPublish nat any_failure
  | UdpardTxRequest nat any_failure
  | UdpardTxRespond nat any_failure
  | UdpardRxMsgReceive any_failure
  | UdpardRxSvcReceive nat any_failure
  | MediaMakeRxSocket nat any_failure
  | MediaMakeTxSocket nat any_failure
  | MediaTxSocketSend nat any_failure
  | MediaRxSocketReceive nat any_failure

fun udp_report_line :: "number_format \<Rightarrow> udp_report \<Rightarrow> string" where
  "udp_report_line fmt (UdpardTxPublish media_index failure) =
     ''Failed to TX message frame to udpard (mediaIdx='' @ fmt media_index @ ''): '' @ describeError fmt failure @ ''.''"
| "udp_report_line fmt (UdpardTxRequest media_index failure) =
     ''Failed to TX request frame to udpard (mediaIdx='' @ fmt media_index @ ''): '' @ describeError fmt failure @ ''.''"
| "udp_report_line fmt (UdpardTxRespond media_index failure) =
     ''Failed to TX response frame to udpard (mediaIdx='' @ fmt media_index @ ''): '' @ describeError fmt failure @ ''.''"
| "udp_report_line fmt (UdpardRxMsgReceive failure) =
     ''Failed to accept RX message frame at udpard: '' @ describeError fmt failure @ ''.''"
| "udp_report_line fmt (UdpardRxSvcReceive media_index failure) =
     ''Failed to accept RX service frame at udpard (mediaIdx='' @ fmt media_index @ ''): '' @ describeError fmt failure @ ''.''"
| "udp_report_line fmt (MediaMakeRxSocket media_index failure) =
     ''Failed to make RX socket (mediaIdx='' @ fmt media_index @ ''): '' @ describeError fmt failure @ ''.''"
| "udp_report_line fmt (MediaMakeTxSocket media_index failure) =
     ''Failed to make TX socket (mediaIdx='' @ fmt media_index @ ''): '' @ describeError fmt failure @ ''.''"
| "udp_report_line fmt (MediaTxSocketSend media_index failure) =
     ''Failed to TX frame to socket (mediaIdx='' @ fmt media_index @ ''): '' @ describeError fmt failure @ ''.''"
| "udp_report_line fmt (MediaRxSocketReceive media_index failure) =
     ''Failed to RX frame from socket (mediaIdx='' @ fmt media_index @ ''): '' @ describeError fmt failure @ ''.''"

definition UdpTransientErrorReporter ::
    "('s, 'g) logging_library \<Rightarrow> number_format \<Rightarrow> 'g \<Rightarrow> udp_report \<Rightarrow> 's \<Rightarrow> any_failure option \<times> 's" where
  "UdpTransientErrorReporter L fmt logger report s = (None, log_error L logger (udp_report_line fmt report) s)"

subsection \<open>A line tells what happened\<close>

text \<open>Numbers are printed injectively and without a parenthesis.\<close>

definition number_format_laws :: "number_format \<Rightarrow> bool" where
  "number_format_laws fmt \<longleftrightarrow> inj fmt \<and> (\<forall>n. CHR '')'' \<notin> set (fmt n))"

lemma fmt_then_parenthesis:
  assumes "number_format_laws fmt"
  shows "fmt m @ CHR '')'' # xs = fmt n @ CHR '')'' # ys \<longleftrightarrow> m = n \<and> xs = ys"
proof -
  have "takeWhile (\<lambda>c. c \<noteq> CHR '')'') (fmt k @ CHR '')'' # zs) = fmt k" for k zs
    using assms by (subst takeWhile_append2) (auto simp: number_format_laws_def)
  then have "fmt m = fmt n" if "fmt m @ CHR '')'' # xs = fmt n @ CHR '')'' # ys" using that by metis
  with assms show ?thesis by (auto simp: number_format_laws_def dest: injD)
qed

lemma describeError_inj:
  "number_format_laws fmt \<Longrightarrow> describeError fmt e = describeError fmt e' \<longleftrightarrow> e = e'"
  by (cases e; cases e') (auto simp: number_format_laws_def dest!: injD intro: unsigned_word_eqI)

text \<open>From its line a report can be read back: which operation failed, on which medium, and why.\<close>

lemma can_report_line_inj:
  "number_format_laws fmt \<Longrightarrow> can_report_line fmt r = can_report_line fmt r' \<longleftrightarrow> r = r'"
  by (cases r; cases r') (simp_all add: fmt_then_parenthesis describeError_inj)

lemma udp_report_line_inj:
  "number_format_laws fmt \<Longrightarrow> udp_report_line fmt r = udp_report_line fmt r' \<longleftrightarrow> r = r'"
  by (cases r; cases r') (simp_all add: fmt_then_parenthesis describeError_inj)

text \<open>
  So a report of a transient error puts exactly one line in the log of the reporter, different for
  different reports, and never makes the transport's operation fail; the registry of loggers is not touched.
\<close>

lemma can_reporter_only_logs:
  assumes "logging_laws L name_of"
  shows "fst (CanTransientErrorReporter L fmt g r s) = None"
    and "registered_logger L m (snd (CanTransientErrorReporter L fmt g r s)) = registered_logger L m s"
  by (simp_all add: CanTransientErrorReporter_def logging_lawsD(4) [OF assms])

lemma udp_reporter_only_logs:
  assumes "logging_laws L name_of"
  shows "fst (UdpTransientErrorReporter L fmt g r s) = None"
    and "registered_logger L m (snd (UdpTransientErrorReporter L fmt g r s)) = registered_logger L m s"
  by (simp_all add: UdpTransientErrorReporter_def logging_lawsD(4) [OF assms])

text \<open>Decimal numbers are such a format.\<close>

definition digit_char :: "nat \<Rightarrow> char" where
  "digit_char d = char_of (48 + d)"

fun decimal_of :: "nat \<Rightarrow> string" where
  "decimal_of n = (if n < 10 then [digit_char n] else decimal_of (n div 10) @ [digit_char (n mod 10)])"

declare decimal_of.simps [simp del]

definition decimal_value :: "string \<Rightarrow> nat" where
  "decimal_value = foldl (\<lambda>a c. 10 * a + (of_char c - 48)) 0"

lemma of_digit_char: "d < 10 \<Longrightarrow> (of_char (digit_char d) :: nat) = 48 + d"
  by (simp add: digit_char_def)

lemma decimal_value_of [simp]: "decimal_value (decimal_of n) = n"
proof (induction n rule: decimal_of.induct)
  case (1 n)
  show ?case
  proof (cases "n < 10")
    case True
    then show ?thesis by (simp add: decimal_of.simps [of n] decimal_value_def of_digit_char)
  next
    case False
    with 1 show ?thesis by (subst decimal_of.simps) (simp add: decimal_value_def of_digit_char)
  qed
qed

lemma decimal_of_digits: "c \<in> set (decimal_of n) \<Longrightarrow> 48 \<le> (of_char c :: nat)"
proof (induction n rule: decimal_of.induct)
  case (1 n)
  then show ?case by (cases "n < 10") (auto simp: decimal_of.simps [of n] of_digit_char)
qed

lemma decimal_format_laws: "number_format_laws decimal_of"
proof -
  have "CHR '')'' \<notin> set (decimal_of n)" for n
    using decimal_of_digits [of "CHR '')''" n] by auto
  moreover have "inj decimal_of" by (metis decimal_value_of injI)
  ultimately show ?thesis by (simp add: number_format_laws_def)
qed

end
