(* ===== verification/Spec2Isabelle.thy ===== *)
theory Spec2Isabelle
  imports Sample_Kernel Sample_Buses Sample_Engine Sample_Kqueue Sample_Sdk Command_Wait Cli_Main Logging_Setup Transport_Reports
begin

text \<open>
  Verification development of OCVSMD, the Open Cyphal Vehicle System Management Daemon, and of its
  SDK. A daemon sits on a Cyphal network (CAN or UDP) and serves local clients over a stream
  socket; a client asks it, through the SDK, to send a command to a set of nodes, and is given
  their responses. File names below are relative to src/ unless they begin with include/.

  \<^bold>\<open>How the program fits together, and where it is modelled.\<close>

  \<^item> \<^bold>\<open>Foundations.\<close> Prelude: machine types, \<open>errno\<close> values, the outcome of a system call, shared
    lemmas on lists and maps and the collections of automation. Posix_Utils: the retry loop of
    include/ocvsmd/platform/posix_utils.hpp (a \<^theory_text>\<open>partial_function\<close>: a kernel may
    interrupt for ever). C_Calls: calls as C code makes them, with the error left in \<open>errno\<close>.
    Loggers (common/logging.hpp, common/common_helpers.hpp): named loggers, made once per name.
  \<^item> \<^bold>\<open>Messages of the IPC layer.\<close> Ipc_Types: error codes, the routing messages of
    common/dsdl, the gateway interface of common/ipc/gateway.hpp as the locale \<open>gateway_interface\<close>.
    Channel: the typed channel of common/ipc/channel.hpp over any gateway.
  \<^item> \<^bold>\<open>Server side.\<close> Server_Router (common/ipc/server_router.cpp and .hpp): gateways as heap
    objects with a use count, the map of weak pointers, every branch of \<open>handlePipeEvent\<close>.
    Server_Router_Inv and Server_App: the invariant, and the contract of a hosted service as the
    locale \<open>server_app\<close>. Server_Gateway: the operations branch by branch. Exec_Cmd_Service
    (daemon/engine/svc/node/exec_cmd_service.cpp): the state machines of the service; Exec_Cmd_Inv,
    Exec_Cmd_Sessions, Exec_Cmd_Progress and Exec_Cmd_Life: that it keeps the contract, what a
    session owns, what can happen in every reachable state, and how a session begins and ends.
  \<^item> \<^bold>\<open>Client side.\<close> Client_Router (common/ipc/client_router.cpp), Client_Router_Inv (locale
    \<open>client_app\<close>), Client_Gateway; Exec_Cmd_Client (sdk/svc/node/exec_cmd_client.cpp,
    sdk/node_command_client.cpp); Command_End_To_End: the frames of the server delivered to the client.
    Sync_Wait (include/ocvsmd/sdk/execution.hpp, include/ocvsmd/platform/defines.hpp): waiting for the
    result; Command_Wait: both together. Sdk_Daemon (sdk/daemon.cpp), Cli_Main (cli/main.cpp).
  \<^item> \<^bold>\<open>Sockets.\<close> Socket_Address and Sockets (common/io): parsing, printing, the calls and the owned
    descriptor, over an arbitrary kernel. Socket_Base (common/ipc/pipe/socket_base.cpp): messages over a
    stream. Socket_Server with Server_Pipe_Use and Daemon_Sockets, Socket_Client with Client_Sockets:
    the two ends under the routers that own them (locales \<open>sends_only\<close> and \<open>cl_sends_only\<close>: a router
    touches its pipe only by sending).
  \<^item> \<^bold>\<open>Executors.\<close> Awaitable_Registry: what they have in common, and the locale \<open>awaiting_executor\<close>;
    Epoll_Executor, Epoll_Safe and Kqueue_Executor, Kqueue_Safe (include/ocvsmd/platform/linux and bsd).
  \<^item> \<^bold>\<open>Media.\<close> Socket_Can, Socket_Can_Open, Socket_Can_Frames (daemon/engine/platform/can/socketcan.c);
    Comma_Lists, Can_Media, Can_Media_Safe (can_media.hpp); Udp_Sockets, Udp_Safe
    (daemon/engine/platform/udp).
  \<^item> \<^bold>\<open>The daemon process.\<close> Engine_Init, Engine_Safe (daemon/engine/engine.cpp and the transport bags
    of daemon/engine/cyphal); Config_File (daemon/engine/config.cpp); Daemon_Main, Daemon_Main_Safe,
    Daemon_Life (daemon/main.cpp); Logging_Setup (setup_logging.hpp, which both programs have:
    loggers, sinks, levels). Engine_Helpers: failures of the Cyphal library as \<open>errno\<close>;
    Transport_Reports (daemon/engine/cyphal/transport_helpers.hpp): as texts, and the reporters of
    transient errors.
  \<^item> \<^bold>\<open>Witnesses.\<close> Scenarios, Client_Scenarios, Sample_Codec, Sample_Kernel, Sample_Buses,
    Sample_Engine, Sample_Kqueue, Sample_Sdk: concrete codecs, kernels and runs, where the hypotheses
    of the theorems are seen to hold together.

  \<^bold>\<open>How code becomes definitions.\<close> A class is a record, an operation a function from the old state
  to the new one (with its result), named as in the code; a prefix \<open>cl_\<close> or \<open>kq_\<close> tells the
  client's or the kqueue executor's operation from its counterpart. Integers keep their width where
  they can wrap (tags, sequence numbers, lengths, filters); file descriptors and error codes are
  integers. A shared or weak pointer is an identity with a use count in a heap of the state; the last
  release runs the destructor. Exceptions, and uses outside the contract of a library function (a
  \<open>subspan\<close> out of range, a \<open>memcpy\<close> past its destination), are the value \<open>None\<close>, as are loops that do
  not return. A callback is the identity of the object it belongs to. Mutable state that a handler
  reaches through a reference is found again in the whole state after every call that may change it.

  \<^bold>\<open>What is an argument.\<close> The kernel (records \<open>posix\<close>, \<open>can_posix\<close>, \<open>udp_posix\<close>, \<open>epoll_posix\<close>,
  \<open>kqueue_posix\<close>, \<open>os\<close>), the Cyphal library (clients, promises, transports, nodes), the generated
  serializers (\<open>codec\<close> and the functions next to it), the TOML library and the file system (\<open>toml\<close>,
  \<open>files\<close>), the logging library (\<open>logging_library\<close>, \<open>spdlog\<close>, \<open>log_system\<close>), \<open>inet_pton\<close>, the clock and randomness. What is assumed of them are named predicates, each
  met by a concrete instance: \<open>posix_fds\<close>, \<open>can_fds\<close> and their kin (which calls open and close
  descriptors), \<open>epoll_laws\<close>, \<open>kqueue_laws\<close> (what registrations the kernel keeps), \<open>toml_laws\<close>
  (assignment, lookup and printing agree), \<open>logging_laws\<close> (only registering touches the registry),
  \<open>stream_sends\<close>, \<open>stream_receives\<close> and \<open>pipe_delivers\<close> (what a stream or a pipe hands over), round
  trips of the codec.

  \<^bold>\<open>What the theorems show.\<close>

  \<^item> From end to end: what the nodes answered is what the receiver of the command is given, exactly
    once (\<open>command_end_to_end\<close>, with \<open>session_completes\<close>, \<open>client_to_server_roundtrip\<close>,
    \<open>server_to_client_roundtrip\<close>, \<open>messages_in_order\<close>); a synchronous wait returns exactly when there is
    a result (\<open>sync_wait_returns\<close>), and then with these responses (\<open>sync_wait_gets_responses\<close>).
  \<^item> From sockets to routers: what a readable or accepting socket makes the server's router do,
    message by message (\<open>socket_server_refines\<close>).
  \<^item> Invariants of every run: of the router and its sessions (\<open>daemon_reachable_inv\<close>, and over the
    sockets \<open>daemon_over_sockets_inv\<close>), of descriptors (\<open>daemon_no_fd_leak\<close>, \<open>sdk_one_descriptor\<close>,
    \<open>can_collection_parse\<close>, \<open>udp_sockets_no_leak\<close>, \<open>sdk_daemon_make\<close>), of callbacks
    (\<open>epoll_schedules_live\<close>, \<open>kqueue_polls\<close>); and that a daemon that came up is in the first state of
    such a run (\<open>engine_starts_a_run\<close>).
  \<^item> Each operation, errors included: requests that fail midway, disconnections, channel ends in both
    directions, parsing and printing of addresses, frames, filters and datagrams. Whom the client's
    router tells, for handlers that may do anything to it meanwhile (\<open>client_handshake_tells_all\<close>),
    and what a broken pipe does to the commands in flight (\<open>sdk_disconnect_fails_commands\<close>).
  \<^item> The life of the process: start (\<open>startup_is_reported\<close>), transport (\<open>transport_choice\<close>), identity
    (\<open>unique_id_survives_restart\<close>), loop (\<open>run_loop_wakes\<close>) and end, by a signal or by an exception
    (\<open>daemon_stops_on_signal\<close>).
  \<^item> Where the code does not do what it means to, the theorem says what it does: for example
    \<open>server_span_fault_iff\<close>, \<open>sync_wait_hangs\<close>, \<open>kqueue_polls\<close>, \<open>split_message\<close>, and the lemmas
    \<open>push_overflows_iff\<close>, \<open>socketcanOpen_hides_error\<close>, \<open>second_callback_steals\<close>,
    \<open>save_failure_is_silent\<close>, \<open>negative_timeout_not_clamped\<close>.

  \<^bold>\<open>Bounds and fuel.\<close> Only the loop over a list of addresses has fuel (\<open>comma_loop\<close>), the length of
  the list plus 2: each turn moves past a comma, and \<open>comma_loop_pieces\<close> shows it enough. Loops that
  may not end are \<^theory_text>\<open>partial_function (option)\<close> (\<open>posixSyscall\<close>, \<open>waitPollingUntil\<close>, \<open>runWhile\<close>), and
  theorems say exactly when they do. At most 3 media, 16 events per poll, 1 MiB per message, 32
  pending connections, 2000 bytes per datagram and 64 per frame are the code's own bounds.

  \<^bold>\<open>Not modelled.\<close> The trace, debug and warning lines inside the operations, and the formatters they
  use: texts without state (the reporters of transient errors and the setup of the loggers are
  modelled). Type identities and casts of the executors' interfaces. Memory resources and failures of allocation. The base class of the executors and
  the Cyphal transports, which are third-party code. Byte order on big-endian hosts. Threads: the
  program has one per process. Generated and vendored code, tests, docs.
\<close>

end
